(* ===== verification/Prelude.thy ===== *)
theory Prelude
  imports Main "HOL-Library.Word" "HOL-Library.AList"
begin

text \<open>
  What the component theories share: the names of the model's basic types (Go byte slices
  and strings are lists of 8-bit \<^typ>\<open>char\<close>s), Go's 64-bit \<^verbatim>\<open>int\<close>, the decimal conversions and the
  \<^verbatim>\<open>strings\<close>/\<^verbatim>\<open>bytes\<close> functions of the standard library that the program uses, the lemma
  collections that the component proofs feed to the simplifier, and a locale for runs of
  a step function that keep an invariant.
\<close>

section \<open>Types and collections\<close>

type_synonym bytes = string
type_synonym error = string
type_synonym 'a result = "error + 'a"

named_theorems go_string \<open>facts about the modelled string functions\<close>
named_theorems go_defs \<open>definitions of small helpers that proofs unfold\<close>

section \<open>Go's int\<close>

text \<open>A Go \<^verbatim>\<open>int\<close> on the supported platforms: 64 bits, two's complement, wrapping.\<close>

definition int64 :: "int \<Rightarrow> int" where
  "int64 i = sint (word_of_int i :: 64 word)"

lemma int64_id [simp]: "- (2 ^ 63) \<le> i \<Longrightarrow> i < 2 ^ 63 \<Longrightarrow> int64 i = i"
  by (simp add: int64_def sint_uint word_of_int_inverse uint_word_of_int_eq
      signed_take_bit_int_eq_self take_bit_int_eq_self signed_take_bit_take_bit)

lemma int64_range: "- (2 ^ 63) \<le> int64 i \<and> int64 i < 2 ^ 63"
  using sint_ge [of "word_of_int i :: 64 word"] sint_lt [of "word_of_int i :: 64 word"]
  by (simp add: int64_def)

section \<open>Decimal numbers\<close>

definition is_digit :: "char \<Rightarrow> bool" where
  "is_digit c \<longleftrightarrow> (48::nat) \<le> of_char c \<and> of_char c \<le> (57::nat)"

definition digit_char :: "nat \<Rightarrow> char" where
  "digit_char d = char_of (48 + d)"

definition digit_value :: "char \<Rightarrow> nat" where
  "digit_value c = of_char c - 48"

text \<open>\<^verbatim>\<open>fmt.Sprintf("%d", n)\<close> for a non-negative number.\<close>

fun show_nat :: "nat \<Rightarrow> string" where
  "show_nat n = (if n < 10 then [digit_char n] else show_nat (n div 10) @ [digit_char (n mod 10)])"

declare show_nat.simps [simp del]

definition dec_value :: "string \<Rightarrow> nat" where
  "dec_value ds = foldl (\<lambda>v c. 10 * v + digit_value c) 0 ds"

lemma is_digit_digit_char [simp]: "d < 10 \<Longrightarrow> is_digit (digit_char d)"
  by (simp add: is_digit_def digit_char_def)

lemma digit_value_digit_char [simp]: "d < 10 \<Longrightarrow> digit_value (digit_char d) = d"
  by (simp add: digit_value_def digit_char_def)

lemma digit_char_numeral [simp]:
  "digit_char 0 = CHR ''0''" "digit_char 1 = CHR ''1''" "digit_char 2 = CHR ''2''"
  "digit_char 3 = CHR ''3''" "digit_char 4 = CHR ''4''" "digit_char 5 = CHR ''5''"
  "digit_char 6 = CHR ''6''" "digit_char 7 = CHR ''7''" "digit_char 8 = CHR ''8''"
  "digit_char 9 = CHR ''9''" "digit_char (Suc 0) = CHR ''1''"
  by code_simp+

lemma show_nat_digits: "\<forall>c \<in> set (show_nat n). is_digit c"
proof (induction n rule: show_nat.induct)
  case (1 n)
  then show ?case by (cases "n < 10") (auto simp: show_nat.simps [of n])
qed

lemma show_nat_not_Nil [simp]: "show_nat n \<noteq> []"
  by (subst show_nat.simps) simp

lemma dec_value_snoc: "dec_value (ds @ [c]) = 10 * dec_value ds + digit_value c"
  by (simp add: dec_value_def)

lemma dec_value_show_nat [simp]: "dec_value (show_nat n) = n"
proof (induction n rule: show_nat.induct)
  case (1 n)
  show ?case
  proof (cases "n < 10")
    case True
    then show ?thesis by (simp add: show_nat.simps [of n] dec_value_def)
  next
    case False
    with "1" show ?thesis by (simp add: show_nat.simps [of n] dec_value_snoc)
  qed
qed

lemma show_nat_inject [simp]: "show_nat m = show_nat n \<longleftrightarrow> m = n"
  by (metis dec_value_show_nat)

text \<open>
  \<^verbatim>\<open>strconv.Atoi\<close>: an optional sign and at least one decimal digit, nothing else; a value that does not
  fit Go's \<^verbatim>\<open>int\<close> is an error as well.
\<close>

definition atoi_sign :: "string \<Rightarrow> bool \<times> string" where
  "atoi_sign s = (case s of [] \<Rightarrow> (False, [])
     | c # cs \<Rightarrow> if c = CHR ''-'' then (True, cs) else if c = CHR ''+'' then (False, cs)
         else (False, s))"

definition atoi :: "string \<Rightarrow> int option" where
  "atoi s = (let (neg, ds) = atoi_sign s; n = int (dec_value ds)
     in if ds = [] \<or> \<not> list_all is_digit ds then None
        else if neg then (if n \<le> 2 ^ 63 then Some (- n) else None)
        else (if n < 2 ^ 63 then Some n else None))"

lemma atoi_sign_digits:
  assumes "list_all is_digit ds"
  shows "atoi_sign ds = (False, ds)"
proof (cases ds)
  case (Cons c cs)
  with assms have "is_digit c" by simp
  then have "c \<noteq> CHR ''-'' \<and> c \<noteq> CHR ''+''" by (auto simp: is_digit_def)
  with Cons show ?thesis by (simp add: atoi_sign_def)
qed (simp add: atoi_sign_def)

lemma atoi_show_nat [simp]: "int n < 2 ^ 63 \<Longrightarrow> atoi (show_nat n) = Some (int n)"
  using show_nat_digits [of n] by (simp add: atoi_def atoi_sign_digits list_all_iff)

section \<open>String functions of the standard library\<close>

text \<open>\<^verbatim>\<open>bytes.IndexByte\<close> / \<^verbatim>\<open>strings.IndexByte\<close> (\<^const>\<open>None\<close> for -1).\<close>

definition index_byte :: "char \<Rightarrow> bytes \<Rightarrow> nat option" where
  "index_byte c s = (let i = length (takeWhile (\<lambda>x. x \<noteq> c) s) in if i < length s then Some i else None)"

lemma index_byte_append [go_string]:
  "c \<notin> set p \<Longrightarrow> index_byte c (p @ c # s) = Some (length p)"
proof -
  assume "c \<notin> set p"
  then have "takeWhile (\<lambda>x. x \<noteq> c) (p @ c # s) = p"
    by (subst takeWhile_append2) auto
  then show ?thesis by (simp add: index_byte_def)
qed

lemma index_byte_None [go_string]: "index_byte c s = None \<longleftrightarrow> c \<notin> set s"
proof -
  have "length (takeWhile (\<lambda>x. x \<noteq> c) s) < length s \<longleftrightarrow> c \<in> set s"
    by (induction s) auto
  then show ?thesis by (simp add: index_byte_def Let_def)
qed

lemma index_byte_SomeD:
  assumes "index_byte c s = Some i"
  shows "i < length s \<and> s ! i = c \<and> c \<notin> set (take i s)"
proof -
  have i: "i = length (takeWhile (\<lambda>x. x \<noteq> c) s)" and lt: "i < length s"
    using assms by (auto simp: index_byte_def Let_def split: if_splits)
  have "s ! i = c" using nth_length_takeWhile [of "\<lambda>x. x \<noteq> c" s] i lt by simp
  moreover have "take i s = takeWhile (\<lambda>x. x \<noteq> c) s"
    by (simp add: i takeWhile_eq_take [symmetric])
  then have "c \<notin> set (take i s)" by (metis (full_types) set_takeWhileD)
  ultimately show ?thesis using lt by simp
qed

section \<open>Runs of a step function\<close>

text \<open>
  The servers and controllers below are step functions over a state; what holds of every reachable
  state is an invariant that each step keeps. The locale proves once that a run keeps it.
\<close>

locale invariant_machine =
  fixes step :: "'s \<Rightarrow> 'e \<Rightarrow> 's"
    and inv :: "'s \<Rightarrow> bool"
  assumes step_inv: "inv s \<Longrightarrow> inv (step s e)"
begin

lemma run_inv: "inv s \<Longrightarrow> inv (foldl step s es)"
  by (induction es arbitrary: s) (auto intro: step_inv)

lemma run_prefix_inv: "inv s \<Longrightarrow> inv (foldl step s (take n es))"
  by (rule run_inv)

end

end
