(* ===== verification/Netstring.thy ===== *)
theory Netstring
  imports Prelude
begin

text \<open>
  \<^verbatim>\<open>internal/sipcontroller/netstring.go\<close>: the framing of the \<^verbatim>\<open>ctrl_tcp\<close> connection to baresip.
  \<open>tryParse\<close> returns Go's triple (payload, remaining, ok), or \<^const>\<open>None\<close> where the Go code panics
  (an index out of range or a negative \<^verbatim>\<open>make\<close>). \<open>Decode\<close> reads from a reader given as the list of the
  results its \<^verbatim>\<open>Read\<close> calls return; when the list is used up the next \<^verbatim>\<open>Read\<close> blocks.
\<close>

section \<open>The code\<close>

definition Encode :: "bytes \<Rightarrow> bytes" where
  "Encode data = (show_nat (length data) @ '':'') @ data @ '',''"

definition tryParse :: "bytes \<Rightarrow> (bytes \<times> bytes \<times> bool) option" where
  "tryParse buffer =
     (if length buffer < 3 then Some ([], [], False)
      else case index_byte (CHR '':'') buffer of
        None \<Rightarrow> Some ([], [], False)
      | Some colonIdx \<Rightarrow>
        (case atoi (take colonIdx buffer) of
           None \<Rightarrow> Some ([], drop 1 buffer, False)
         | Some len \<Rightarrow>
           (let totalNeeded = int64 (int colonIdx + 1 + len + 1) in
            if int (length buffer) < totalNeeded then Some ([], [], False)
            else if totalNeeded - 1 < 0 then None
            else if buffer ! nat (totalNeeded - 1) \<noteq> CHR '','' then Some ([], drop 1 buffer, False)
            else if len < 0 then None
            else Some (take (nat len) (drop (colonIdx + 1) buffer),
                       drop (nat totalNeeded) buffer, True))))"

text \<open>One \<^verbatim>\<open>Read\<close> returns the bytes it read and an error; with an error the bytes are not used.\<close>

type_synonym reads = "(bytes \<times> error option) list"

datatype decoded = Payload bytes | ReadError error | Blocked | DecodePanic

fun Decode :: "reads \<Rightarrow> bytes \<Rightarrow> decoded \<times> bytes \<times> reads" where
  "Decode rs buffer =
     (case tryParse buffer of
        None \<Rightarrow> (DecodePanic, buffer, rs)
      | Some (payload, remaining, ok) \<Rightarrow>
        if ok then (Payload payload, remaining, rs)
        else (case rs of
            [] \<Rightarrow> (Blocked, buffer, [])
          | (chunk, None) # rs' \<Rightarrow> Decode rs' (buffer @ chunk)
          | (chunk, Some e) # rs' \<Rightarrow> (ReadError e, buffer, rs')))"

declare Decode.simps [simp del]

text \<open>The client decodes one netstring after the other (\<^verbatim>\<open>BaresipClient.readLoop\<close>).\<close>

fun decode_n :: "nat \<Rightarrow> reads \<Rightarrow> bytes \<Rightarrow> decoded list \<times> bytes \<times> reads" where
  "decode_n 0 rs buffer = ([], buffer, rs)"
| "decode_n (Suc n) rs buffer =
     (case Decode rs buffer of (d, buffer', rs') \<Rightarrow>
        (case decode_n n rs' buffer' of (ds, buffer'', rs'') \<Rightarrow> (d # ds, buffer'', rs'')))"

section \<open>Framing as an interface\<close>

text \<open>
  What a frame reader relies on: a whole frame at the front of the buffer parses to its message and
  leaves the rest, and a proper prefix of a frame parses to nothing yet.
\<close>

locale framing =
  fixes enc :: "'m \<Rightarrow> bytes"
    and parse :: "bytes \<Rightarrow> ('m \<times> bytes \<times> bool) option"
    and wf :: "'m \<Rightarrow> bool"
  assumes parse_frame: "wf m \<Longrightarrow> parse (enc m @ rest) = Some (m, rest, True)"
    and parse_prefix: "wf m \<Longrightarrow> enc m = p @ s \<Longrightarrow> s \<noteq> [] \<Longrightarrow> \<exists>x r. parse p = Some (x, r, False)"
begin

text \<open>Two different messages never share a frame, and no frame is a proper prefix of another.\<close>

lemma enc_inject:
  assumes "wf m" and "wf n" and "enc m @ r = enc n @ r'"
  shows "m = n \<and> r = r'"
proof -
  have "Some (m, r, True) = Some (n, r', True)"
    using parse_frame [OF assms(1), of r] parse_frame [OF assms(2), of r'] assms(3) by argo
  then show ?thesis by blast
qed

end

text \<open>A reader that parses its buffer and, as long as that fails, appends the next chunk.\<close>

locale frame_reader = framing enc parse wf
  for enc :: "'m \<Rightarrow> bytes"
    and parse :: "bytes \<Rightarrow> ('m \<times> bytes \<times> bool) option"
    and wf :: "'m \<Rightarrow> bool" +
  fixes dec :: "reads \<Rightarrow> bytes \<Rightarrow> 'd \<times> bytes \<times> reads"
    and got :: "'m \<Rightarrow> 'd"
  assumes dec_got: "parse buf = Some (m, r, True) \<Longrightarrow> dec rs buf = (got m, r, rs)"
    and dec_more: "parse buf = Some (x, r, False) \<Longrightarrow> dec ((c, None) # rs) buf = dec rs (buf @ c)"
begin

lemma dec_frame:
  assumes "wf m" and "buf @ concat cs = enc m @ rest"
  shows "\<exists>buf' cs'. dec (map (\<lambda>c. (c, None)) cs) buf = (got m, buf', map (\<lambda>c. (c, None)) cs')
    \<and> buf' @ concat cs' = rest"
  using assms(2)
proof (induction cs arbitrary: buf)
  case Nil
  then have "dec [] buf = (got m, rest, [])"
    using dec_got [OF parse_frame [OF assms(1)]] by simp
  then show ?case by (intro exI [of _ rest] exI [of _ "[]"]) simp
next
  case (Cons c cs)
  obtain us where "buf = enc m @ us \<and> us @ concat (c # cs) = rest
      \<or> buf @ us = enc m \<and> concat (c # cs) = us @ rest"
    using Cons.prems unfolding append_eq_append_conv2 [of buf] by blast
  then consider (whole) r where "buf = enc m @ r" "r @ concat (c # cs) = rest"
    | (part) s where "buf @ s = enc m" "s \<noteq> []"
    by (cases "us = []") auto
  then show ?case
  proof cases
    case whole
    then show ?thesis
      using dec_got [OF parse_frame [OF assms(1), of r]] by (intro exI [of _ r] exI [of _ "c # cs"]) simp
  next
    case part
    then obtain x r where "parse buf = Some (x, r, False)"
      using parse_prefix [OF assms(1), of buf s] by auto
    then have step: "dec (map (\<lambda>c. (c, None)) (c # cs)) buf = dec (map (\<lambda>c. (c, None)) cs) (buf @ c)"
      using dec_more by simp
    have "(buf @ c) @ concat cs = enc m @ rest" using Cons.prems by simp
    from Cons.IH [OF this] show ?thesis unfolding step .
  qed
qed

end

section \<open>Netstrings are a framing\<close>

text \<open>A payload whose length fits Go's \<^verbatim>\<open>int\<close> with its header: more than any Go process can hold.\<close>

definition payload_ok :: "bytes \<Rightarrow> bool" where
  "payload_ok p \<longleftrightarrow> length p < 2 ^ 61"

lemma length_show_nat: "length (show_nat n) \<le> n + 1"
proof (induction n rule: show_nat.induct)
  case (1 n)
  show ?case
  proof (cases "n < 10")
    case False
    with "1" have "length (show_nat (n div 10)) \<le> n div 10 + 1" by simp
    moreover have "n div 10 + 1 \<le> n" using False by linarith
    ultimately show ?thesis using False by (simp add: show_nat.simps [of n])
  qed (simp add: show_nat.simps [of n])
qed

lemma colon_not_in_header: "CHR '':'' \<notin> set (show_nat n)"
  using show_nat_digits [of n] by (auto simp: is_digit_def)

lemma index_header: "index_byte (CHR '':'') (show_nat n @ CHR '':'' # s) = Some (length (show_nat n))"
  by (rule index_byte_append) (rule colon_not_in_header)

lemma length_Encode: "length (Encode p) = length (show_nat (length p)) + length p + 2"
  by (simp add: Encode_def)

lemma Encode_long: "3 \<le> length (Encode p)"
proof -
  have "0 < length (show_nat (length p))" by simp
  then show ?thesis unfolding length_Encode by linarith
qed

lemma total_needed:
  assumes "payload_ok p"
  shows "int64 (int (length (show_nat (length p))) + 1 + int (length p) + 1)
      = int (length (Encode p))"
proof -
  have "int (length (show_nat (length p))) + 1 + int (length p) + 1 < 2 ^ 63"
    using length_show_nat [of "length p"] assms unfolding payload_ok_def by simp
  then show ?thesis by (subst int64_id) (auto simp: length_Encode)
qed

text \<open>On a buffer whose header is that of a payload, the parser compares the lengths.\<close>

lemma tryParse_header:
  assumes "payload_ok p" and "3 \<le> length b" and "b = show_nat (length p) @ CHR '':'' # t"
  shows "tryParse b =
     (if length b < length (Encode p) then Some ([], [], False)
      else if b ! (length (Encode p) - 1) \<noteq> CHR '','' then Some ([], drop 1 b, False)
      else Some (take (length p) t, drop (length (Encode p)) b, True))"
proof -
  have idx: "index_byte (CHR '':'') b = Some (length (show_nat (length p)))"
    by (simp add: assms(3) index_header)
  have hdr: "take (length (show_nat (length p))) b = show_nat (length p)"
    and body: "drop (length (show_nat (length p)) + 1) b = t"
    by (simp_all add: assms(3))
  have at: "atoi (show_nat (length p)) = Some (int (length p))"
    using assms(1) by (simp add: payload_ok_def)
  have pos: "\<not> int (length (Encode p)) - 1 < 0" using Encode_long [of p] by linarith
  have ix: "nat (int (length (Encode p)) - 1) = length (Encode p) - 1" by linarith
  show ?thesis
    unfolding tryParse_def idx option.case hdr at Let_def total_needed [OF assms(1)]
    using assms(2) pos body by (simp add: ix)
qed

lemma tryParse_frame:
  assumes "payload_ok p"
  shows "tryParse (Encode p @ rest) = Some (p, rest, True)"
proof -
  let ?b = "Encode p @ rest"
  have b: "?b = show_nat (length p) @ CHR '':'' # (p @ CHR '','' # rest)" by (simp add: Encode_def)
  have comma: "?b ! (length (Encode p) - 1) = CHR '',''"
    using nth_append_length [of "show_nat (length p) @ CHR '':'' # p" "CHR '',''" rest]
    by (simp add: Encode_def)
  have long: "3 \<le> length ?b" using Encode_long [of p] by simp
  show ?thesis
    by (subst tryParse_header [OF assms long b]) (use comma in simp)
qed

lemma tryParse_prefix:
  assumes "payload_ok p" and "Encode p = b @ s" and "s \<noteq> []"
  shows "tryParse b = Some ([], [], False)"
proof (cases "3 \<le> length b \<and> CHR '':'' \<in> set b")
  case True
  have "show_nat (length p) @ CHR '':'' # (p @ '','') = b @ s"
    using assms(2) by (simp add: Encode_def)
  then obtain us where "show_nat (length p) = b @ us \<and> us @ CHR '':'' # (p @ '','') = s
      \<or> show_nat (length p) @ us = b \<and> CHR '':'' # (p @ '','') = us @ s"
    unfolding append_eq_append_conv2 [of "show_nat (length p)"] by blast
  moreover have "\<not> (show_nat (length p) = b @ us \<and> us @ CHR '':'' # (p @ '','') = s)"
    using True colon_not_in_header [of "length p"] by auto
  ultimately have us: "b = show_nat (length p) @ us" "CHR '':'' # (p @ '','') = us @ s" by auto
  with True have "us \<noteq> []" using colon_not_in_header [of "length p"] by auto
  with us obtain t where b: "b = show_nat (length p) @ CHR '':'' # t" by (cases us) auto
  have "length b < length (Encode p)" using assms(2,3) by simp
  then show ?thesis using True by (subst tryParse_header [OF assms(1) _ b]) auto
next
  case False
  then show ?thesis
    by (auto simp: tryParse_def index_byte_None [THEN iffD2])
qed

interpretation ns: framing Encode tryParse payload_ok
  by unfold_locales (auto simp: tryParse_frame dest: tryParse_prefix)

lemma Decode_got: "tryParse b = Some (m, r, True) \<Longrightarrow> Decode rs b = (Payload m, r, rs)"
  by (subst Decode.simps) simp

lemma Decode_more:
  "tryParse b = Some (x, r, False) \<Longrightarrow> Decode ((c, None) # rs) b = Decode rs (b @ c)"
  by (subst Decode.simps) simp

interpretation ns: frame_reader Encode tryParse payload_ok Decode Payload
  by unfold_locales (auto simp: Decode_got Decode_more)

section \<open>Properties\<close>

text \<open>
  C13. However the reader cuts the byte stream into chunks, the decoder returns exactly the payloads
  that were encoded, in their order, and ends with an empty buffer.
\<close>

theorem decode_stream_roundtrip:
  assumes "\<forall>p \<in> set ps. payload_ok p" and "concat cs = concat (map Encode ps)"
  shows "\<exists>b cs'. decode_n (length ps) (map (\<lambda>c. (c, None)) cs) []
            = (map Payload ps, b, map (\<lambda>c. (c, None)) cs') \<and> b @ concat cs' = []"
proof -
  have "\<exists>b' cs'. decode_n (length ps) (map (\<lambda>c. (c, None)) cs) b
            = (map Payload ps, b', map (\<lambda>c. (c, None)) cs') \<and> b' @ concat cs' = []"
    if "b @ concat cs = concat (map Encode ps)" for b
    using assms(1) that
  proof (induction ps arbitrary: b cs)
    case (Cons p ps)
    then obtain b1 cs1 where
      1: "Decode (map (\<lambda>c. (c, None)) cs) b = (Payload p, b1, map (\<lambda>c. (c, None)) cs1)"
         "b1 @ concat cs1 = concat (map Encode ps)"
      using ns.dec_frame [of p b cs "concat (map Encode ps)"] by auto
    from Cons.prems(1) have "\<forall>p \<in> set ps. payload_ok p" by simp
    from Cons.IH [OF this 1(2)] 1(1) show ?case by auto
  qed auto
  from this [of "[]"] assms(2) show ?thesis by simp
qed

theorem decode_stream_roundtrip_witness:
  "\<exists>b cs'. decode_n (length [''hi'', ''x'']) (map (\<lambda>c. (c, None)) [''2:'', ''hi,1'', '':x,'']) []
      = (map Payload [''hi'', ''x''], b, map (\<lambda>c. (c, None)) cs') \<and> b @ concat cs' = []"
proof (rule decode_stream_roundtrip)
  show "\<forall>p \<in> set [''hi'', ''x'']. payload_ok p" by (simp add: payload_ok_def)
  show "concat [''2:'', ''hi,1'', '':x,''] = concat (map Encode [''hi'', ''x''])" by code_simp
qed

text \<open>
  What decides a parse: the position of the colon, the number before it and the byte at the end.
  All three stay the same when the buffer grows, so an invalid netstring stays invalid.
\<close>

lemma index_byte_grow: "index_byte c b = Some i \<Longrightarrow> index_byte c (b @ t) = Some i"
proof -
  assume "index_byte c b = Some i"
  then have b: "i < length b" "b ! i = c" "c \<notin> set (take i b)" by (auto dest: index_byte_SomeD)
  then have "b @ t = take i b @ c # (drop (Suc i) b @ t)"
    by (metis append.assoc append_Cons id_take_nth_drop)
  then have "index_byte c (b @ t) = Some (length (take i b))"
    using index_byte_append [OF b(3), of "drop (Suc i) b @ t"] by (rule ssubst)
  then show ?thesis using b(1) by simp
qed

lemma tryParse_invalidE:
  assumes "tryParse b = Some (x, r, False)" and "r \<noteq> []"
  obtains i where "3 \<le> length b" "index_byte (CHR '':'') b = Some i" "atoi (take i b) = None"
  | i len t where "3 \<le> length b" "index_byte (CHR '':'') b = Some i" "atoi (take i b) = Some len"
      "t = int64 (int i + 1 + len + 1)" "t \<le> int (length b)" "0 \<le> t - 1"
      "b ! nat (t - 1) \<noteq> CHR '',''"
  using assms by (auto simp: tryParse_def Let_def not_less split: if_splits option.splits)

lemma tryParse_invalid_grow:
  assumes "tryParse b = Some (x, r, False)" and "r \<noteq> []"
  shows "tryParse (b @ c) = Some ([], drop 1 (b @ c), False) \<and> drop 1 (b @ c) \<noteq> []"
  using assms
proof (cases rule: tryParse_invalidE)
  case (1 i)
  then have "i < length b" by (auto dest: index_byte_SomeD)
  with 1 show ?thesis by (simp add: tryParse_def index_byte_grow)
next
  case (2 i len t)
  then have "i < length b" by (auto dest: index_byte_SomeD)
  moreover have "nat (t - 1) < length b" using 2 by linarith
  then have "(b @ c) ! nat (t - 1) \<noteq> CHR '',''" using 2 by (simp add: nth_append)
  ultimately show ?thesis using 2 by (simp add: tryParse_def index_byte_grow Let_def)
qed

text \<open>
  C34. A netstring that the parser has found invalid is never skipped: although \<^verbatim>\<open>tryParse\<close> computes a
  shortened buffer ("skip until next valid start"), \<^verbatim>\<open>Decode\<close> drops it, and from then on no input,
  however it goes on, makes the decoder return a payload.
\<close>

theorem decode_never_recovers:
  assumes "tryParse b = Some (x, r, False)" and "r \<noteq> []"
  shows "fst (Decode rs b) \<noteq> Payload p"
  using assms
proof (induction rs arbitrary: b x r)
  case Nil
  then show ?case by (subst Decode.simps) simp
next
  case (Cons a rs)
  obtain c e where a: "a = (c, e)" by (cases a)
  have "fst (Decode rs (b @ c)) \<noteq> Payload p"
    using tryParse_invalid_grow [OF Cons.prems, of c] Cons.IH by blast
  then show ?case using Cons.prems(1)
    by (subst Decode.simps) (auto simp: a split: option.splits)
qed

theorem decode_never_recovers_witness:
  "tryParse ''ab:2:hi,'' = Some ([], ''b:2:hi,'', False)
   \<and> fst (Decode [(''2:ok,'', None), (''3:yes,'', None)] ''ab:2:hi,'') \<noteq> Payload ''ok''"
proof -
  have h: "tryParse ''ab:2:hi,'' = Some ([], ''b:2:hi,'', False)" by code_simp
  show ?thesis using h decode_never_recovers [OF h] by simp
qed

text \<open>Before the colon stand a sign and digits only, so a negative length never meets a comma.\<close>

lemma atoi_chars: "atoi s = Some n \<Longrightarrow> CHR '','' \<notin> set s"
  by (cases s) (auto simp: atoi_def atoi_sign_def is_digit_def list_all_iff Let_def split: if_splits)

lemma atoi_range: "atoi s = Some n \<Longrightarrow> - (2 ^ 63) \<le> n \<and> n < 2 ^ 63"
  by (auto simp: atoi_def Let_def split: if_splits prod.splits)

lemma comma_after_colon:
  assumes "index_byte (CHR '':'') b = Some i" and "atoi (take i b) = Some n"
    and "j \<le> i" shows "b ! j \<noteq> CHR '',''"
proof (cases "j = i")
  case True
  with assms(1) show ?thesis by (auto dest: index_byte_SomeD)
next
  case False
  have "i < length b" using assms(1) by (auto dest: index_byte_SomeD)
  with False assms(3) have "b ! j \<in> set (take i b)" by (auto simp: in_set_conv_nth intro!: exI [of _ j])
  then show ?thesis using atoi_chars [OF assms(2)] by auto
qed

lemma int64_wrap: "2 ^ 63 \<le> i \<Longrightarrow> i < 2 ^ 64 \<Longrightarrow> int64 i = i - 2 ^ 64"
proof -
  assume "2 ^ 63 \<le> i" "i < 2 ^ 64"
  have "(word_of_int i :: 64 word) = word_of_int (i - 2 ^ 64)"
    by (simp only: word_of_int_eq_iff take_bit_eq_mod) (simp add: mod_diff_eq [symmetric])
  then have "int64 i = int64 (i - 2 ^ 64)" unfolding int64_def by (rule arg_cong)
  then show ?thesis using \<open>2 ^ 63 \<le> i\<close> \<open>i < 2 ^ 64\<close> by simp
qed

text \<open>
  C33. The parser panics exactly when the number before the colon is a length whose end, as Go's 64-bit
  \<^verbatim>\<open>int\<close> computes it, lies before the buffer: a negative length beyond the header, or a length so near
  the largest \<^verbatim>\<open>int\<close> that the sum wraps. Either ends the process, for \<^verbatim>\<open>readLoop\<close> recovers no panic.
\<close>

theorem tryParse_panics_iff:
  assumes "length b < 2 ^ 62"
  shows "tryParse b = None \<longleftrightarrow>
    3 \<le> length b \<and> (\<exists>i n. index_byte (CHR '':'') b = Some i \<and> atoi (take i b) = Some n
       \<and> (n + int i + 2 \<le> 0 \<or> 2 ^ 63 \<le> n + int i + 2))"
proof (cases "3 \<le> length b \<and> (\<exists>i n. index_byte (CHR '':'') b = Some i \<and> atoi (take i b) = Some n)")
  case False
  then show ?thesis by (auto simp: tryParse_def split: option.splits)
next
  case True
  then obtain i n where in': "3 \<le> length b" "index_byte (CHR '':'') b = Some i" "atoi (take i b) = Some n"
    by blast
  have i: "i < length b" using in'(2) by (auto dest: index_byte_SomeD)
  have n: "- (2 ^ 63) \<le> n" "n < 2 ^ 63" using atoi_range [OF in'(3)] by auto
  let ?t = "int i + 1 + n + 1"
  have eq: "tryParse b = None \<longleftrightarrow> \<not> int (length b) < int64 ?t \<and>
      (int64 ?t - 1 < 0 \<or> b ! nat (int64 ?t - 1) = CHR '','' \<and> n < 0)"
    using in' by (auto simp: tryParse_def Let_def)
  consider "2 ^ 63 \<le> ?t" | "?t < 2 ^ 63" "- (2 ^ 63) \<le> ?t" using n by linarith
  then show ?thesis
  proof cases
    case 1
    then have "int64 ?t = ?t - 2 ^ 64" using n i assms by (intro int64_wrap) auto
    then show ?thesis using 1 n i assms in' unfolding eq by auto
  next
    case 2
    then have t: "int64 ?t = ?t" by simp
    have "b ! nat (?t - 1) \<noteq> CHR '',''" if "n < 0" "0 \<le> ?t - 1"
      using that by (intro comma_after_colon [OF in'(2,3)]) linarith
    then have "0 \<le> ?t - 1 \<longrightarrow> \<not> (b ! nat (?t - 1) = CHR '','' \<and> n < 0)" by blast
    moreover have "?t \<le> 0 \<longrightarrow> \<not> int (length b) < ?t" by linarith
    ultimately show ?thesis using 2 in' unfolding eq t by force
  qed
qed

theorem tryParse_panics_iff_witness:
  "length ''-9:x'' < (2::nat) ^ 62 \<and> tryParse ''-9:x'' = None"
proof -
  have len: "length ''-9:x'' < (2::nat) ^ 62" by simp
  have "index_byte (CHR '':'') ''-9:x'' = Some 2" "atoi (take 2 ''-9:x'') = Some (-9)"
    by code_simp+
  then have "tryParse ''-9:x'' = None" using tryParse_panics_iff [OF len] by auto
  with len show ?thesis by simp
qed

end
