(* ===== verification/GoChan.thy ===== *)
theory GoChan
  imports Prelude
begin

text \<open>
  Go's buffered channels, as the program uses them: the relay's per-session queue (128), the
  subscriber's outbound queue (256), the controller's results (1000) and baresip's events (100).
  A send in a \<^verbatim>\<open>select\<close> with a \<^verbatim>\<open>default\<close> never blocks; a send on a closed channel panics; closing a
  closed channel panics; a closed channel still hands out what it holds.
\<close>

record 'a chan =
  ch_buf :: "'a list"
  ch_cap :: nat
  ch_closed :: bool

definition make_chan :: "nat \<Rightarrow> 'a chan" where
  "make_chan n = \<lparr>ch_buf = [], ch_cap = n, ch_closed = False\<rparr>"

datatype send_outcome = Sent | Full | SendPanic

definition try_send :: "'a \<Rightarrow> 'a chan \<Rightarrow> send_outcome \<times> 'a chan" where
  "try_send x c =
     (if ch_closed c then (SendPanic, c)
      else if length (ch_buf c) < ch_cap c then (Sent, c\<lparr>ch_buf := ch_buf c @ [x]\<rparr>)
      else (Full, c))"

datatype 'a recv_outcome = Received 'a | RecvClosed | RecvBlocks

definition recv :: "'a chan \<Rightarrow> 'a recv_outcome \<times> 'a chan" where
  "recv c = (case ch_buf c of
       x # xs \<Rightarrow> (Received x, c\<lparr>ch_buf := xs\<rparr>)
     | [] \<Rightarrow> (if ch_closed c then RecvClosed else RecvBlocks, c))"

definition close_chan :: "'a chan \<Rightarrow> 'a chan" where
  "close_chan c = c\<lparr>ch_closed := True\<rparr>"

definition chan_ok :: "'a chan \<Rightarrow> bool" where
  "chan_ok c \<longleftrightarrow> length (ch_buf c) \<le> ch_cap c"

lemmas chan_defs = try_send_def recv_def close_chan_def make_chan_def chan_ok_def

lemma chan_ok_make [simp]: "chan_ok (make_chan n)"
  by (simp add: chan_defs)

lemma chan_ok_send [simp]: "chan_ok c \<Longrightarrow> chan_ok (snd (try_send x c))"
  by (simp add: chan_defs)

lemma chan_ok_recv [simp]: "chan_ok c \<Longrightarrow> chan_ok (snd (recv c))"
  by (auto simp: chan_defs split: list.splits)

lemma chan_ok_close [simp]: "chan_ok c \<Longrightarrow> chan_ok (close_chan c)"
  by (simp add: chan_defs)

lemma try_send_cap [simp]: "ch_cap (snd (try_send x c)) = ch_cap c"
  by (simp add: chan_defs)

lemma try_send_closed [simp]: "ch_closed (snd (try_send x c)) = ch_closed c"
  by (simp add: chan_defs)

lemma try_send_Sent:
  "\<not> ch_closed c \<Longrightarrow> length (ch_buf c) < ch_cap c \<Longrightarrow> try_send x c = (Sent, c\<lparr>ch_buf := ch_buf c @ [x]\<rparr>)"
  by (simp add: chan_defs)

section \<open>A bounded queue as an interface\<close>

text \<open>
  The senders of the program need of a queue: what it holds, its bound, and that a send either appends
  or leaves it alone. Then what is in the queue after any sequence of sends is what was there, followed
  by a subsequence of what was sent, and the bound holds.
\<close>

locale bounded_queue =
  fixes send :: "'a \<Rightarrow> 'q \<Rightarrow> 'q"
    and contents :: "'q \<Rightarrow> 'a list"
    and bound :: "'q \<Rightarrow> nat"
    and accepts :: "'q \<Rightarrow> bool"
  assumes send_accepts: "accepts q \<Longrightarrow> contents (send x q) = contents q @ [x]"
    and send_refuses: "\<not> accepts q \<Longrightarrow> contents (send x q) = contents q"
    and accepts_bound: "accepts q \<Longrightarrow> length (contents q) < bound q"
    and bound_send: "bound (send x q) = bound q"
begin

lemma contents_send: "contents (send x q) = (if accepts q then contents q @ [x] else contents q)"
  by (simp add: send_accepts send_refuses)

lemma bound_sends: "bound (fold send xs q) = bound q"
  by (induction xs arbitrary: q) (simp_all add: bound_send)

lemma length_sends: "length (contents q) \<le> bound q \<Longrightarrow> length (contents (fold send xs q)) \<le> bound q"
proof (induction xs arbitrary: q)
  case (Cons x xs)
  then have "length (contents (send x q)) \<le> bound (send x q)"
    using accepts_bound [of q] by (auto simp: contents_send bound_send)
  from Cons.IH [OF this] show ?case by (simp add: bound_send)
qed simp

lemma sends_prefix: "\<exists>ys. contents (fold send xs q) = contents q @ ys \<and> set ys \<subseteq> set xs
    \<and> length ys \<le> length xs"
proof (induction xs arbitrary: q)
  case (Cons x xs)
  obtain ys where ys: "contents (fold send xs (send x q)) = contents (send x q) @ ys"
    "set ys \<subseteq> set xs" "length ys \<le> length xs"
    using Cons.IH [of "send x q"] by blast
  then show ?case
    by (cases "accepts q")
      (auto simp: send_accepts send_refuses intro: exI [of _ "x # ys"] exI [of _ ys])
qed simp

end

interpretation chan: bounded_queue "\<lambda>x c. snd (try_send x c)" ch_buf ch_cap
    "\<lambda>c. \<not> ch_closed c \<and> length (ch_buf c) < ch_cap c"
  by unfold_locales (auto simp: try_send_def)

text \<open>A queue with room for all of them takes every message, in order.\<close>

lemma sends_all:
  assumes "\<not> ch_closed c" and "length (ch_buf c) + length xs \<le> ch_cap c"
  shows "fold (\<lambda>x c. snd (try_send x c)) xs c = c\<lparr>ch_buf := ch_buf c @ xs\<rparr>"
  using assms
proof (induction xs arbitrary: c)
  case (Cons x xs)
  then have "snd (try_send x c) = c\<lparr>ch_buf := ch_buf c @ [x]\<rparr>" by (simp add: try_send_def)
  with Cons show ?case by simp
qed simp

end
