(* ===== verification/RedisClient.thy ===== *)
theory RedisClient
  imports Prelude
begin

text \<open>
  The Redis client of the program (\<^verbatim>\<open>github.com/redis/go-redis\<close>) is not part of the repository: it is a
  parameter of the model. A client is a record of the commands the program issues, over a state of
  any type \<open>'r\<close>, and every command may fail. \<open>redis_reliable\<close> names what the documentation of Redis
  promises about these commands on a server that answers and on which no key expires meanwhile; the
  properties that rest on it say so. \<open>mem_redis\<close> is one client with these laws, for the witnesses.
  The values the program keeps in Redis lists are JSON texts; a text is represented by its syntax tree.
\<close>

section \<open>JSON trees\<close>

text \<open>\<open>JBytes b\<close> is the JSON string with the base64 encoding of \<open>b\<close>, which \<^verbatim>\<open>encoding/json\<close> writes for a \<^verbatim>\<open>[]byte\<close>.\<close>

datatype json = JNull | JBool bool | JNum int | JStr string | JBytes bytes
  | JArr "json list" | JObj "(string \<times> json) list"

text \<open>\<^verbatim>\<open>encoding/json\<close> matches the names of struct fields without regard to the case of (ASCII) letters.\<close>

definition fold_name :: "string \<Rightarrow> string" where
  "fold_name = map (\<lambda>c. if 65 \<le> (of_char c :: nat) \<and> (of_char c :: nat) \<le> 90 then char_of ((of_char c :: nat) + 32) else c)"

section \<open>The client\<close>

datatype redis_error = RedisNil | RedisError error

fun redis_msg :: "redis_error \<Rightarrow> error" where
  "redis_msg RedisNil = ''redis: nil''"
| "redis_msg (RedisError e) = e"

record 'r redis =
  rd_state :: 'r
  rd_lpush :: "string \<Rightarrow> json \<Rightarrow> 'r \<Rightarrow> redis_error option \<times> 'r"
  rd_expire :: "string \<Rightarrow> int \<Rightarrow> 'r \<Rightarrow> redis_error option \<times> 'r"
  rd_ltrim :: "string \<Rightarrow> int \<Rightarrow> int \<Rightarrow> 'r \<Rightarrow> redis_error option \<times> 'r"
  rd_lrange :: "string \<Rightarrow> int \<Rightarrow> int \<Rightarrow> 'r \<Rightarrow> (redis_error + json list) \<times> 'r"
  rd_llen :: "string \<Rightarrow> 'r \<Rightarrow> (redis_error + int) \<times> 'r"
  rd_exists :: "string \<Rightarrow> 'r \<Rightarrow> (redis_error + int) \<times> 'r"
  rd_set :: "string \<Rightarrow> bytes \<Rightarrow> int \<Rightarrow> 'r \<Rightarrow> redis_error option \<times> 'r"
  rd_get :: "string \<Rightarrow> 'r \<Rightarrow> (redis_error + bytes) \<times> 'r"
  rd_del :: "string list \<Rightarrow> 'r \<Rightarrow> (redis_error + int) \<times> 'r"
  rd_scan :: "64 word \<Rightarrow> string \<Rightarrow> int \<Rightarrow> 'r \<Rightarrow> (redis_error + string list \<times> 64 word) \<times> 'r"
  rd_ping :: "'r \<Rightarrow> redis_error option \<times> 'r"

text \<open>Issuing a command: its answer, and the client with the state the command leaves.\<close>

definition rcall :: "('r redis \<Rightarrow> 'r \<Rightarrow> 'a \<times> 'r) \<Rightarrow> 'r redis \<Rightarrow> 'a \<times> 'r redis" where
  "rcall cmd c = (case cmd c (rd_state c) of (a, r) \<Rightarrow> (a, c\<lparr>rd_state := r\<rparr>))"

section \<open>What Redis documents\<close>

text \<open>
  A key holds a list or a string; a list that becomes empty is removed. \<open>LTRIM k s e\<close> and
  \<open>LRANGE k s e\<close> take inclusive offsets, a negative one counting from the end.
\<close>

datatype rvalue = RList "json list" | RString bytes

type_synonym keyspace = "string \<rightharpoonup> rvalue"

definition list_at :: "keyspace \<Rightarrow> string \<Rightarrow> json list" where
  "list_at m k = (case m k of Some (RList xs) \<Rightarrow> xs | _ \<Rightarrow> [])"

definition put_list :: "string \<Rightarrow> json list \<Rightarrow> keyspace \<Rightarrow> keyspace" where
  "put_list k xs m = m(k := (if xs = [] then None else Some (RList xs)))"

definition is_list_key :: "keyspace \<Rightarrow> string \<Rightarrow> bool" where
  "is_list_key m k \<longleftrightarrow> (case m k of Some (RString _) \<Rightarrow> False | _ \<Rightarrow> True)"

definition offset :: "int \<Rightarrow> nat \<Rightarrow> int" where
  "offset i n = (if i < 0 then int n + i else i)"

definition list_range :: "int \<Rightarrow> int \<Rightarrow> 'a list \<Rightarrow> 'a list" where
  "list_range s e xs =
     (let n = length xs; i = max 0 (offset s n); j = min (int n - 1) (offset e n)
      in if j < i then [] else take (nat (j - i + 1)) (drop (nat i) xs))"

lemma list_range_all [simp]: "list_range 0 (-1) xs = xs"
  by (simp add: list_range_def offset_def Let_def)

lemma list_range_take: "0 \<le> e \<Longrightarrow> list_range 0 e xs = take (nat (e + 1)) xs"
proof -
  assume "0 \<le> e"
  show ?thesis
  proof (cases "int (length xs) - 1 \<le> e")
    case True
    then show ?thesis using \<open>0 \<le> e\<close> by (auto simp: list_range_def offset_def Let_def min_def)
  next
    case False
    then show ?thesis using \<open>0 \<le> e\<close> by (simp add: list_range_def offset_def Let_def min_def)
  qed
qed

text \<open>The documented effect of each command on the key space that a client state stands for.\<close>

definition redis_reliable :: "('r \<Rightarrow> keyspace) \<Rightarrow> 'r redis \<Rightarrow> bool" where
  "redis_reliable ks c \<longleftrightarrow>
     (\<forall>k v r. is_list_key (ks r) k \<longrightarrow> fst (rd_lpush c k v r) = None
        \<and> ks (snd (rd_lpush c k v r)) = put_list k (v # list_at (ks r) k) (ks r))
   \<and> (\<forall>k t r. fst (rd_expire c k t r) = None \<and> ks (snd (rd_expire c k t r)) = ks r)
   \<and> (\<forall>k s e r. is_list_key (ks r) k \<longrightarrow> fst (rd_ltrim c k s e r) = None
        \<and> ks (snd (rd_ltrim c k s e r)) = put_list k (list_range s e (list_at (ks r) k)) (ks r))
   \<and> (\<forall>k s e r. is_list_key (ks r) k \<longrightarrow>
        fst (rd_lrange c k s e r) = Inr (list_range s e (list_at (ks r) k))
        \<and> ks (snd (rd_lrange c k s e r)) = ks r)
   \<and> (\<forall>k r. fst (rd_exists c k r) = Inr (if ks r k = None then 0 else 1)
        \<and> ks (snd (rd_exists c k r)) = ks r)
   \<and> (\<forall>k v t r. fst (rd_set c k v t r) = None \<and> ks (snd (rd_set c k v t r)) = (ks r)(k \<mapsto> RString v))
   \<and> (\<forall>k v r. ks r k = Some (RString v) \<longrightarrow> fst (rd_get c k r) = Inr v)
   \<and> (\<forall>k r. ks r k = None \<longrightarrow> fst (rd_get c k r) = Inl RedisNil)
   \<and> (\<forall>k r. ks (snd (rd_get c k r)) = ks r)
   \<and> (\<forall>k r. is_list_key (ks r) k \<longrightarrow> fst (rd_llen c k r) = Inr (int (length (list_at (ks r) k)))
        \<and> ks (snd (rd_llen c k r)) = ks r)
   \<and> (\<forall>l r. (\<exists>n. fst (rd_del c l r) = Inr n)
        \<and> ks (snd (rd_del c l r)) = (\<lambda>k. if k \<in> set l then None else ks r k))"

lemma reliable_update [simp]: "redis_reliable ks (c\<lparr>rd_state := r\<rparr>) = redis_reliable ks c"
  by (simp add: redis_reliable_def)

text \<open>The key space of a client, and the documented effects as equations for \<^const>\<open>rcall\<close>.\<close>

definition keys_of :: "('r \<Rightarrow> keyspace) \<Rightarrow> 'r redis \<Rightarrow> keyspace" where
  "keys_of ks c = ks (rd_state c)"

named_theorems redis_laws \<open>the documented effects as rewrite rules\<close>

lemma rcall_expand: "rcall cmd c = (fst (cmd c (rd_state c)), c\<lparr>rd_state := snd (cmd c (rd_state c))\<rparr>)"
  by (simp add: rcall_def split: prod.splits)

lemma rcall_reliable [simp]: "redis_reliable ks (snd (rcall cmd c)) = redis_reliable ks c"
  by (simp add: rcall_expand)

lemma lpush_law [redis_laws]:
  "redis_reliable ks c \<Longrightarrow> is_list_key (keys_of ks c) k \<Longrightarrow>
     fst (rcall (\<lambda>c. rd_lpush c k v) c) = None
     \<and> keys_of ks (snd (rcall (\<lambda>c. rd_lpush c k v) c)) = put_list k (v # list_at (keys_of ks c) k) (keys_of ks c)"
  by (simp add: rcall_expand redis_reliable_def keys_of_def fun_upd_def)

lemma expire_law [redis_laws]:
  "redis_reliable ks c \<Longrightarrow> fst (rcall (\<lambda>c. rd_expire c k t) c) = None
     \<and> keys_of ks (snd (rcall (\<lambda>c. rd_expire c k t) c)) = keys_of ks c"
  by (simp add: rcall_expand redis_reliable_def keys_of_def fun_upd_def)

lemma ltrim_law [redis_laws]:
  "redis_reliable ks c \<Longrightarrow> is_list_key (keys_of ks c) k \<Longrightarrow>
     fst (rcall (\<lambda>c. rd_ltrim c k s e) c) = None
     \<and> keys_of ks (snd (rcall (\<lambda>c. rd_ltrim c k s e) c)) = put_list k (list_range s e (list_at (keys_of ks c) k)) (keys_of ks c)"
  by (simp add: rcall_expand redis_reliable_def keys_of_def fun_upd_def)

lemma lrange_law [redis_laws]:
  "redis_reliable ks c \<Longrightarrow> is_list_key (keys_of ks c) k \<Longrightarrow>
     fst (rcall (\<lambda>c. rd_lrange c k s e) c) = Inr (list_range s e (list_at (keys_of ks c) k))
     \<and> keys_of ks (snd (rcall (\<lambda>c. rd_lrange c k s e) c)) = keys_of ks c"
  by (simp add: rcall_expand redis_reliable_def keys_of_def fun_upd_def)

lemma exists_law [redis_laws]:
  "redis_reliable ks c \<Longrightarrow>
     fst (rcall (\<lambda>c. rd_exists c k) c) = Inr (if keys_of ks c k = None then 0 else 1)
     \<and> keys_of ks (snd (rcall (\<lambda>c. rd_exists c k) c)) = keys_of ks c"
  by (simp add: rcall_expand redis_reliable_def keys_of_def fun_upd_def)

lemma set_law [redis_laws]:
  "redis_reliable ks c \<Longrightarrow> fst (rcall (\<lambda>c. rd_set c k v t) c) = None
     \<and> keys_of ks (snd (rcall (\<lambda>c. rd_set c k v t) c)) = (keys_of ks c)(k \<mapsto> RString v)"
  by (simp add: rcall_expand redis_reliable_def keys_of_def fun_upd_def)

lemma get_law [redis_laws]:
  "redis_reliable ks c \<Longrightarrow>
     (\<forall>v. keys_of ks c k = Some (RString v) \<longrightarrow> fst (rcall (\<lambda>c. rd_get c k) c) = Inr v)
     \<and> (keys_of ks c k = None \<longrightarrow> fst (rcall (\<lambda>c. rd_get c k) c) = Inl RedisNil)
     \<and> keys_of ks (snd (rcall (\<lambda>c. rd_get c k) c)) = keys_of ks c"
  by (simp add: rcall_expand redis_reliable_def keys_of_def fun_upd_def)

lemma llen_law [redis_laws]:
  "redis_reliable ks c \<Longrightarrow> is_list_key (keys_of ks c) k \<Longrightarrow>
     fst (rcall (\<lambda>c. rd_llen c k) c) = Inr (int (length (list_at (keys_of ks c) k)))
     \<and> keys_of ks (snd (rcall (\<lambda>c. rd_llen c k) c)) = keys_of ks c"
  by (simp add: rcall_expand redis_reliable_def keys_of_def fun_upd_def)

lemma del_law [redis_laws]:
  "redis_reliable ks c \<Longrightarrow> (\<exists>n. fst (rcall (\<lambda>c. rd_del c l) c) = Inr n)
     \<and> keys_of ks (snd (rcall (\<lambda>c. rd_del c l) c)) = (\<lambda>k. if k \<in> set l then None else keys_of ks c k)"
  by (simp add: rcall_expand redis_reliable_def keys_of_def fun_eq_iff)

section \<open>A client with these laws, for witnesses\<close>

definition mem_redis :: "keyspace \<Rightarrow> keyspace redis" where
  "mem_redis m0 = \<lparr>rd_state = m0,
     rd_lpush = (\<lambda>k v m. if is_list_key m k then (None, put_list k (v # list_at m k) m)
        else (Some (RedisError ''WRONGTYPE''), m)),
     rd_expire = (\<lambda>k t m. (None, m)),
     rd_ltrim = (\<lambda>k s e m. if is_list_key m k then (None, put_list k (list_range s e (list_at m k)) m)
        else (Some (RedisError ''WRONGTYPE''), m)),
     rd_lrange = (\<lambda>k s e m. if is_list_key m k then (Inr (list_range s e (list_at m k)), m)
        else (Inl (RedisError ''WRONGTYPE''), m)),
     rd_llen = (\<lambda>k m. if is_list_key m k then (Inr (int (length (list_at m k))), m)
        else (Inl (RedisError ''WRONGTYPE''), m)),
     rd_exists = (\<lambda>k m. (Inr (if m k = None then 0 else 1), m)),
     rd_set = (\<lambda>k v t m. (None, m(k \<mapsto> RString v))),
     rd_get = (\<lambda>k m. (case m k of None \<Rightarrow> Inl RedisNil | Some (RString v) \<Rightarrow> Inr v
        | Some (RList _) \<Rightarrow> Inl (RedisError ''WRONGTYPE''), m)),
     rd_del = (\<lambda>l m. (Inr (int (length (filter (\<lambda>k. m k \<noteq> None) (remdups l)))),
        \<lambda>k. if k \<in> set l then None else m k)),
     rd_scan = (\<lambda>cur pat n m. (Inr ([], 0), m)),
     rd_ping = (\<lambda>m. (None, m))\<rparr>"

lemma mem_redis_reliable [simp]: "redis_reliable id (mem_redis m0)"
  unfolding redis_reliable_def mem_redis_def by (auto simp: fun_eq_iff)

lemma keys_of_mem_redis [simp]: "keys_of id (mem_redis m0) = m0"
  by (simp add: keys_of_def mem_redis_def)

end
