(* ===== verification/RelayStore.thy ===== *)
theory RelayStore
  imports RedisClient
begin

text \<open>
  \<^verbatim>\<open>internal/relay/redis_store.go\<close>: the relay's message store. Per topic, Redis keeps a list of the
  stored messages (newest first, at most 100) and a tracking key. The interface that the relay server
  uses is the locale \<open>topic_store\<close>, which the store is shown to implement.
\<close>

section \<open>The code\<close>

record storedMsg =
  sm_topic :: string
  sm_payload :: bytes
  sm_sender :: string

record 'r redisStore =
  st_client :: "'r redis"
  st_ttl :: int

text \<open>\<^verbatim>\<open>json.Marshal\<close> of a stored message, with the field names of its struct tags.\<close>

definition marshal_stored :: "storedMsg \<Rightarrow> json" where
  "marshal_stored m = JObj [(''topic'', JStr (sm_topic m)), (''payload'', JBytes (sm_payload m)),
     (''sender_id'', JStr (sm_sender m))]"

text \<open>
  \<^verbatim>\<open>json.Unmarshal\<close> into a zero message: the fields in the order of the object, unknown names skipped,
  \<^verbatim>\<open>null\<close> leaving a string field alone and clearing a slice, another type an error.
\<close>

fun set_field :: "string \<times> json \<Rightarrow> storedMsg option \<Rightarrow> storedMsg option" where
  "set_field (k, v) None = None"
| "set_field (k, v) (Some m) =
     (if fold_name k = ''topic'' then (case v of JStr s \<Rightarrow> Some (m\<lparr>sm_topic := s\<rparr>) | JNull \<Rightarrow> Some m | _ \<Rightarrow> None)
      else if fold_name k = ''payload'' then
        (case v of JBytes b \<Rightarrow> Some (m\<lparr>sm_payload := b\<rparr>) | JNull \<Rightarrow> Some (m\<lparr>sm_payload := []\<rparr>) | _ \<Rightarrow> None)
      else if fold_name k = ''sender_id'' then (case v of JStr s \<Rightarrow> Some (m\<lparr>sm_sender := s\<rparr>) | JNull \<Rightarrow> Some m | _ \<Rightarrow> None)
      else Some m)"

definition zero_stored :: storedMsg where
  "zero_stored = \<lparr>sm_topic = [], sm_payload = [], sm_sender = []\<rparr>"

definition unmarshal_stored :: "json \<Rightarrow> storedMsg option" where
  "unmarshal_stored j = (case j of JObj fs \<Rightarrow> fold set_field fs (Some zero_stored)
     | JNull \<Rightarrow> Some zero_stored | _ \<Rightarrow> None)"

definition listKey :: "string \<Rightarrow> string" where
  "listKey topic = ''topic:'' @ topic @ '':messages''"

definition topicKey :: "string \<Rightarrow> string" where
  "topicKey topic = ''topic:'' @ topic @ '':exists''"

definition with_client :: "'r redisStore \<Rightarrow> 'r redis \<Rightarrow> 'r redisStore" where
  "with_client rs c = rs\<lparr>st_client := c\<rparr>"

definition NewRedisStore :: "int \<Rightarrow> 'r redis \<Rightarrow> 'r redisStore result" where
  "NewRedisStore ttl rdb =
     (case rcall rd_ping rdb of
        (Some e, _) \<Rightarrow> Inl (''failed to connect to Redis: '' @ redis_msg e)
      | (None, c) \<Rightarrow> Inr \<lparr>st_client = c, st_ttl = int64 (ttl * 1000000000)\<rparr>)"

definition StoreMessage :: "'r redisStore \<Rightarrow> string \<Rightarrow> bytes \<Rightarrow> string \<Rightarrow> error option \<times> 'r redisStore" where
  "StoreMessage rs topic payload senderID =
     (let data = marshal_stored \<lparr>sm_topic = topic, sm_payload = payload, sm_sender = senderID\<rparr>
      in case rcall (\<lambda>c. rd_lpush c (listKey topic) data) (st_client rs) of
        (Some e, c) \<Rightarrow> (Some (''failed to store message: '' @ redis_msg e), with_client rs c)
      | (None, c) \<Rightarrow>
        (let c1 = snd (rcall (\<lambda>c. rd_expire c (listKey topic) (st_ttl rs)) c);
             c2 = snd (rcall (\<lambda>c. rd_ltrim c (listKey topic) 0 99) c1)
         in (None, with_client rs c2)))"

definition GetMessageHistory :: "'r redisStore \<Rightarrow> string \<Rightarrow> storedMsg list result \<times> 'r redisStore" where
  "GetMessageHistory rs topic =
     (case rcall (\<lambda>c. rd_lrange c (listKey topic) 0 (-1)) (st_client rs) of
        (Inl RedisNil, c) \<Rightarrow> (Inr [], with_client rs c)
      | (Inl e, c) \<Rightarrow> (Inl (''failed to get message history: '' @ redis_msg e), with_client rs c)
      | (Inr data, c) \<Rightarrow> (Inr (List.map_filter unmarshal_stored (rev data)), with_client rs c))"

definition TopicExists :: "'r redisStore \<Rightarrow> string \<Rightarrow> bool result \<times> 'r redisStore" where
  "TopicExists rs topic =
     (case rcall (\<lambda>c. rd_exists c (listKey topic)) (st_client rs) of
        (Inl e, c) \<Rightarrow> (Inl (''failed to check topic existence: '' @ redis_msg e), with_client rs c)
      | (Inr exists1, c) \<Rightarrow>
        (case rcall (\<lambda>c. rd_exists c (topicKey topic)) c of
           (Inl e, c) \<Rightarrow> (Inl (''failed to check topic tracking: '' @ redis_msg e), with_client rs c)
         | (Inr exists2, c) \<Rightarrow> (Inr (exists1 > 0 \<or> exists2 > 0), with_client rs c)))"

definition CreateTopic :: "'r redisStore \<Rightarrow> string \<Rightarrow> error option \<times> 'r redisStore" where
  "CreateTopic rs topic =
     (case rcall (\<lambda>c. rd_set c (topicKey topic) ''1'' (st_ttl rs)) (st_client rs) of
        (Some e, c) \<Rightarrow> (Some (''failed to create topic: '' @ redis_msg e), with_client rs c)
      | (None, c) \<Rightarrow> (None, with_client rs c))"

definition DeleteTopic :: "'r redisStore \<Rightarrow> string \<Rightarrow> error option \<times> 'r redisStore" where
  "DeleteTopic rs topic =
     (case rcall (\<lambda>c. rd_del c [listKey topic, topicKey topic]) (st_client rs) of
        (Inl e, c) \<Rightarrow> (Some (''failed to delete topic: '' @ redis_msg e), with_client rs c)
      | (Inr n, c) \<Rightarrow> (None, with_client rs c))"

definition GetTopicStats :: "'r redisStore \<Rightarrow> string \<Rightarrow> int result \<times> 'r redisStore" where
  "GetTopicStats rs topic =
     (case rcall (\<lambda>c. rd_llen c (listKey topic)) (st_client rs) of
        (Inl e, c) \<Rightarrow> (Inl (''failed to get topic stats: '' @ redis_msg e), with_client rs c)
      | (Inr count, c) \<Rightarrow> (Inr count, with_client rs c))"

lemmas store_defs = StoreMessage_def GetMessageHistory_def TopicExists_def CreateTopic_def
  DeleteTopic_def GetTopicStats_def with_client_def Let_def

section \<open>The interface of a topic store\<close>

text \<open>
  What the relay server relies on, over the two observations \<open>hist\<close> (the messages kept for a topic,
  oldest first) and \<open>known\<close> (whether the topic exists), for stores that satisfy \<open>invar\<close>.
\<close>

locale topic_store =
  fixes invar :: "'s \<Rightarrow> bool"
    and hist :: "'s \<Rightarrow> string \<Rightarrow> storedMsg list"
    and known :: "'s \<Rightarrow> string \<Rightarrow> bool"
    and store :: "'s \<Rightarrow> string \<Rightarrow> bytes \<Rightarrow> string \<Rightarrow> error option \<times> 's"
    and history :: "'s \<Rightarrow> string \<Rightarrow> storedMsg list result \<times> 's"
    and exists_topic :: "'s \<Rightarrow> string \<Rightarrow> bool result \<times> 's"
    and create :: "'s \<Rightarrow> string \<Rightarrow> error option \<times> 's"
    and delete :: "'s \<Rightarrow> string \<Rightarrow> error option \<times> 's"
    and keep :: nat
  assumes store_ok: "invar s \<Longrightarrow> fst (store s t p u) = None"
    and store_invar: "invar s \<Longrightarrow> invar (snd (store s t p u))"
    and store_hist: "invar s \<Longrightarrow> hist (snd (store s t p u)) =
        (hist s)(t := drop (Suc (length (hist s t)) - keep)
           (hist s t @ [\<lparr>sm_topic = t, sm_payload = p, sm_sender = u\<rparr>]))"
    and store_known: "invar s \<Longrightarrow> known (snd (store s t p u)) = (known s)(t := True)"
    and history_ok: "invar s \<Longrightarrow> fst (history s t) = Inr (hist s t)"
    and history_same: "invar s \<Longrightarrow> invar (snd (history s t)) \<and> hist (snd (history s t)) = hist s
        \<and> known (snd (history s t)) = known s"
    and exists_ok: "invar s \<Longrightarrow> fst (exists_topic s t) = Inr (known s t)"
    and exists_same: "invar s \<Longrightarrow> invar (snd (exists_topic s t)) \<and> hist (snd (exists_topic s t)) = hist s
        \<and> known (snd (exists_topic s t)) = known s"
    and create_ok: "invar s \<Longrightarrow> fst (create s t) = None \<and> invar (snd (create s t))
        \<and> hist (snd (create s t)) = hist s \<and> known (snd (create s t)) = (known s)(t := True)"
    and delete_ok: "invar s \<Longrightarrow> fst (delete s t) = None \<and> invar (snd (delete s t))
        \<and> hist (snd (delete s t)) = (hist s)(t := []) \<and> known (snd (delete s t)) = (known s)(t := False)"
    and keep_pos: "0 < keep"
begin

lemma store_length: "invar s \<Longrightarrow> length (hist s t) \<le> keep \<Longrightarrow> length (hist (snd (store s t p u)) t) \<le> keep"
  using keep_pos by (simp add: store_hist)

lemma store_last: "invar s \<Longrightarrow>
    hist (snd (store s t p u)) t \<noteq> [] \<and> last (hist (snd (store s t p u)) t) = \<lparr>sm_topic = t, sm_payload = p, sm_sender = u\<rparr>"
  using keep_pos by (auto simp: store_hist last_drop)

lemma store_below: "invar s \<Longrightarrow> length (hist s t) < keep \<Longrightarrow>
    hist (snd (store s t p u)) t = hist s t @ [\<lparr>sm_topic = t, sm_payload = p, sm_sender = u\<rparr>]"
  by (simp add: store_hist)

end

section \<open>The Redis store implements it\<close>

lemma fold_names [simp]:
  "fold_name ''topic'' = ''topic''" "fold_name ''payload'' = ''payload''" "fold_name ''sender_id'' = ''sender_id''"
  by (simp_all add: fold_name_def)

lemma unmarshal_marshal [simp]: "unmarshal_stored (marshal_stored m) = Some m"
  by (simp add: unmarshal_stored_def marshal_stored_def zero_stored_def)

lemma unmarshal_all [simp]: "List.map_filter unmarshal_stored (map marshal_stored ms) = ms"
  by (induction ms) (auto simp: List.map_filter_def)

lemma listKey_inject [simp]: "listKey t = listKey t' \<longleftrightarrow> t = t'"
  by (simp add: listKey_def)

lemma topicKey_inject [simp]: "topicKey t = topicKey t' \<longleftrightarrow> t = t'"
  by (simp add: topicKey_def)

lemma listKey_topicKey [simp]: "listKey t \<noteq> topicKey t'" "topicKey t' \<noteq> listKey t"
proof -
  have "last (butlast (listKey t)) \<noteq> last (butlast (topicKey t'))"
    by (simp add: listKey_def topicKey_def butlast_append)
  then show "listKey t \<noteq> topicKey t'" "topicKey t' \<noteq> listKey t" by auto
qed

text \<open>
  The store is in order when the client is reliable and every message list holds what \<open>StoreMessage\<close>
  wrote there. \<open>stored_at\<close> are the messages of a topic, newest first.
\<close>

definition stored_list :: "('r \<Rightarrow> keyspace) \<Rightarrow> 'r redisStore \<Rightarrow> string \<Rightarrow> json list" where
  "stored_list ks rs t = list_at (keys_of ks (st_client rs)) (listKey t)"

definition store_ok :: "('r \<Rightarrow> keyspace) \<Rightarrow> 'r redisStore \<Rightarrow> bool" where
  "store_ok ks rs \<longleftrightarrow> redis_reliable ks (st_client rs)
     \<and> (\<forall>t. is_list_key (keys_of ks (st_client rs)) (listKey t)
          \<and> (\<exists>ms. stored_list ks rs t = map marshal_stored ms))"

definition topic_history :: "('r \<Rightarrow> keyspace) \<Rightarrow> 'r redisStore \<Rightarrow> string \<Rightarrow> storedMsg list" where
  "topic_history ks rs t = List.map_filter unmarshal_stored (rev (stored_list ks rs t))"

definition topic_known :: "('r \<Rightarrow> keyspace) \<Rightarrow> 'r redisStore \<Rightarrow> string \<Rightarrow> bool" where
  "topic_known ks rs t \<longleftrightarrow> keys_of ks (st_client rs) (listKey t) \<noteq> None
     \<or> keys_of ks (st_client rs) (topicKey t) \<noteq> None"

lemma topic_history_map:
  "stored_list ks rs t = map marshal_stored ms \<Longrightarrow> topic_history ks rs t = rev ms"
  by (simp add: topic_history_def rev_map)

lemma list_at_put [simp]:
  "list_at (put_list k xs m) k' = (if k' = k then xs else list_at m k')"
  by (simp add: list_at_def put_list_def)

lemma put_list_at [simp]: "k' \<noteq> k \<Longrightarrow> put_list k xs m k' = m k'"
  by (simp add: put_list_def)

lemma put_list_None [simp]: "put_list k xs m k = None \<longleftrightarrow> xs = []"
  by (simp add: put_list_def)

lemma is_list_key_put [simp]: "is_list_key m k' \<Longrightarrow> is_list_key (put_list k xs m) k'"
  by (auto simp: is_list_key_def put_list_def)

lemma put_list_twice [simp]: "put_list k xs (put_list k ys m) = put_list k xs m"
  by (auto simp: put_list_def)

text \<open>What the three commands of \<open>StoreMessage\<close> leave, on a reliable client.\<close>

lemma StoreMessage_effect:
  assumes "store_ok ks rs"
  shows "fst (StoreMessage rs t p u) = None"
    and "redis_reliable ks (st_client (snd (StoreMessage rs t p u)))"
    and "keys_of ks (st_client (snd (StoreMessage rs t p u))) =
       put_list (listKey t) (take 100 (marshal_stored \<lparr>sm_topic = t, sm_payload = p, sm_sender = u\<rparr>
         # stored_list ks rs t)) (keys_of ks (st_client rs))"
proof -
  let ?d = "marshal_stored \<lparr>sm_topic = t, sm_payload = p, sm_sender = u\<rparr>"
  have rel: "redis_reliable ks (st_client rs)" and lk: "is_list_key (keys_of ks (st_client rs)) (listKey t)"
    using assms by (auto simp: store_ok_def)
  obtain c where c: "rcall (\<lambda>c. rd_lpush c (listKey t) ?d) (st_client rs) = (None, c)"
    using lpush_law [OF rel lk] by (metis prod.collapse)
  have relc: "redis_reliable ks c" using rel c by (metis rcall_reliable snd_conv)
  have k: "keys_of ks c = put_list (listKey t) (?d # stored_list ks rs t) (keys_of ks (st_client rs))"
    using lpush_law [OF rel lk, of ?d] by (simp add: c stored_list_def)
  let ?c1 = "snd (rcall (\<lambda>c. rd_expire c (listKey t) (st_ttl rs)) c)"
  let ?c2 = "snd (rcall (\<lambda>c. rd_ltrim c (listKey t) 0 99) ?c1)"
  have rel1: "redis_reliable ks ?c1" using relc by simp
  have k1: "keys_of ks ?c1 = keys_of ks c" using expire_law [OF relc] by simp
  have lk1: "is_list_key (keys_of ks ?c1) (listKey t)" using lk by (simp add: k1 k)
  have k2: "keys_of ks ?c2 = put_list (listKey t) (take 100 (?d # stored_list ks rs t)) (keys_of ks (st_client rs))"
    using ltrim_law [OF rel1 lk1, of 0 99] by (simp add: k1 k list_range_take)
  have eq: "StoreMessage rs t p u = (None, with_client rs ?c2)"
    by (simp add: StoreMessage_def c Let_def)
  show "fst (StoreMessage rs t p u) = None" by (simp add: eq)
  show "redis_reliable ks (st_client (snd (StoreMessage rs t p u)))"
    using relc by (simp add: eq with_client_def)
  show "keys_of ks (st_client (snd (StoreMessage rs t p u))) =
       put_list (listKey t) (take 100 (?d # stored_list ks rs t)) (keys_of ks (st_client rs))"
    using k2 by (simp add: eq with_client_def)
qed

text \<open>Two stores over the same keys with reliable clients are in order together and show the same.\<close>

definition same_keys :: "('r \<Rightarrow> keyspace) \<Rightarrow> 'r redisStore \<Rightarrow> 'r redisStore \<Rightarrow> bool" where
  "same_keys ks rs rs' \<longleftrightarrow> redis_reliable ks (st_client rs')
     \<and> keys_of ks (st_client rs') = keys_of ks (st_client rs)"

lemma same_keys_ok:
  assumes "same_keys ks rs rs'" and "store_ok ks rs"
  shows "store_ok ks rs' \<and> topic_history ks rs' = topic_history ks rs \<and> topic_known ks rs' = topic_known ks rs"
  using assms
  unfolding same_keys_def store_ok_def topic_history_def [abs_def] topic_known_def [abs_def] stored_list_def
  by simp

lemma GetMessageHistory_effect:
  assumes "store_ok ks rs"
  shows "fst (GetMessageHistory rs t) = Inr (topic_history ks rs t)"
    and "same_keys ks rs (snd (GetMessageHistory rs t))"
proof -
  have rel: "redis_reliable ks (st_client rs)" and lk: "is_list_key (keys_of ks (st_client rs)) (listKey t)"
    using assms by (auto simp: store_ok_def)
  obtain c where c: "rcall (\<lambda>c. rd_lrange c (listKey t) 0 (-1)) (st_client rs) = (Inr (stored_list ks rs t), c)"
    using lrange_law [OF rel lk, of 0 "-1"] by (metis list_range_all prod.collapse stored_list_def)
  have "keys_of ks c = keys_of ks (st_client rs)" "redis_reliable ks c"
    using lrange_law [OF rel lk, of 0 "-1"] rel c by (metis snd_conv, metis rcall_reliable snd_conv)
  then show "fst (GetMessageHistory rs t) = Inr (topic_history ks rs t)"
      and "same_keys ks rs (snd (GetMessageHistory rs t))"
    by (simp_all add: GetMessageHistory_def c topic_history_def same_keys_def with_client_def)
qed

lemma TopicExists_effect:
  assumes "store_ok ks rs"
  shows "fst (TopicExists rs t) = Inr (topic_known ks rs t)"
    and "same_keys ks rs (snd (TopicExists rs t))"
proof -
  let ?m = "keys_of ks (st_client rs)"
  have rel: "redis_reliable ks (st_client rs)" using assms by (simp add: store_ok_def)
  obtain c where c: "rcall (\<lambda>c. rd_exists c (listKey t)) (st_client rs)
      = (Inr (if ?m (listKey t) = None then 0 else 1), c)"
    using exists_law [OF rel] by (metis prod.collapse)
  have c': "keys_of ks c = ?m" "redis_reliable ks c"
    using exists_law [OF rel, of "listKey t"] rel c by (metis snd_conv, metis rcall_reliable snd_conv)
  obtain d where d: "rcall (\<lambda>c. rd_exists c (topicKey t)) c
      = (Inr (if ?m (topicKey t) = None then 0 else 1), d)"
    using exists_law [OF c'(2)] c'(1) by (metis prod.collapse)
  have "keys_of ks d = ?m" "redis_reliable ks d"
    using exists_law [OF c'(2), of "topicKey t"] c' d by (metis snd_conv, metis rcall_reliable snd_conv)
  then show "fst (TopicExists rs t) = Inr (topic_known ks rs t)"
      and "same_keys ks rs (snd (TopicExists rs t))"
    by (auto simp add: TopicExists_def c d topic_known_def same_keys_def with_client_def)
qed

lemma CreateTopic_effect:
  assumes "store_ok ks rs"
  shows "fst (CreateTopic rs t) = None" and "store_ok ks (snd (CreateTopic rs t))"
    and "topic_history ks (snd (CreateTopic rs t)) = topic_history ks rs"
    and "topic_known ks (snd (CreateTopic rs t)) = (topic_known ks rs)(t := True)"
proof -
  have rel: "redis_reliable ks (st_client rs)" using assms by (simp add: store_ok_def)
  obtain c where c: "rcall (\<lambda>c. rd_set c (topicKey t) ''1'' (st_ttl rs)) (st_client rs) = (None, c)"
    using set_law [OF rel] by (metis prod.collapse)
  have c': "keys_of ks c = (keys_of ks (st_client rs))(topicKey t \<mapsto> RString ''1'')" "redis_reliable ks c"
    using set_law [OF rel, of "topicKey t" "''1''"] rel c by (metis snd_conv, metis rcall_reliable snd_conv)
  then show "fst (CreateTopic rs t) = None" and "store_ok ks (snd (CreateTopic rs t))"
    and "topic_history ks (snd (CreateTopic rs t)) = topic_history ks rs"
    and "topic_known ks (snd (CreateTopic rs t)) = (topic_known ks rs)(t := True)"
    using assms
    by (auto simp add: CreateTopic_def c store_ok_def topic_history_def topic_known_def stored_list_def
        list_at_def is_list_key_def with_client_def fun_eq_iff)
qed

lemma DeleteTopic_effect:
  assumes "store_ok ks rs"
  shows "fst (DeleteTopic rs t) = None" and "store_ok ks (snd (DeleteTopic rs t))"
    and "topic_history ks (snd (DeleteTopic rs t)) = (topic_history ks rs)(t := [])"
    and "topic_known ks (snd (DeleteTopic rs t)) = (topic_known ks rs)(t := False)"
proof -
  let ?l = "[listKey t, topicKey t]"
  have rel: "redis_reliable ks (st_client rs)" using assms by (simp add: store_ok_def)
  obtain n c where c: "rcall (\<lambda>c. rd_del c ?l) (st_client rs) = (Inr n, c)"
    using del_law [OF rel, of ?l] by (metis prod.collapse)
  have c': "keys_of ks c = (\<lambda>k. if k \<in> set ?l then None else keys_of ks (st_client rs) k)" "redis_reliable ks c"
    using del_law [OF rel, of ?l] rel c by (metis snd_conv, metis rcall_reliable snd_conv)
  then show "fst (DeleteTopic rs t) = None" and "store_ok ks (snd (DeleteTopic rs t))"
    and "topic_history ks (snd (DeleteTopic rs t)) = (topic_history ks rs)(t := [])"
    and "topic_known ks (snd (DeleteTopic rs t)) = (topic_known ks rs)(t := False)"
    using assms
    by (auto simp add: DeleteTopic_def c store_ok_def topic_history_def topic_known_def stored_list_def
        list_at_def is_list_key_def with_client_def fun_eq_iff List.map_filter_def)
qed

lemma StoreMessage_ok:
  assumes "store_ok ks rs"
  shows "store_ok ks (snd (StoreMessage rs t p u))"
    and "topic_history ks (snd (StoreMessage rs t p u)) = (topic_history ks rs)(t :=
       drop (Suc (length (topic_history ks rs t)) - 100)
         (topic_history ks rs t @ [\<lparr>sm_topic = t, sm_payload = p, sm_sender = u\<rparr>]))"
    and "topic_known ks (snd (StoreMessage rs t p u)) = (topic_known ks rs)(t := True)"
proof -
  let ?m = "\<lparr>sm_topic = t, sm_payload = p, sm_sender = u\<rparr>"
  let ?rs = "snd (StoreMessage rs t p u)"
  obtain ms where ms: "stored_list ks rs t = map marshal_stored ms"
    using assms by (auto simp: store_ok_def)
  have sl: "stored_list ks ?rs t' = (if t' = t then map marshal_stored (take 100 (?m # ms))
      else stored_list ks rs t')" for t'
    using StoreMessage_effect(3) [OF assms, of t p u] ms
    by (auto simp: stored_list_def take_map)
  show "store_ok ks ?rs"
    using assms StoreMessage_effect(2,3) [OF assms, of t p u] sl
    unfolding store_ok_def by (metis is_list_key_put)
  show "topic_known ks ?rs = (topic_known ks rs)(t := True)"
    using StoreMessage_effect(3) [OF assms, of t p u]
    by (auto simp: topic_known_def fun_eq_iff)
  have "topic_history ks ?rs t = rev (take 100 (?m # ms))"
    by (rule topic_history_map) (simp add: sl)
  also have "\<dots> = drop (Suc (length (topic_history ks rs t)) - 100) (topic_history ks rs t @ [?m])"
    unfolding topic_history_map [OF ms] by (simp only: rev_take list.size rev.simps length_rev) simp
  finally show "topic_history ks ?rs = (topic_history ks rs)(t :=
       drop (Suc (length (topic_history ks rs t)) - 100) (topic_history ks rs t @ [?m]))"
    by (auto simp: fun_eq_iff topic_history_def sl)
qed

interpretation rstore: topic_store "store_ok ks" "topic_history ks" "topic_known ks"
    StoreMessage GetMessageHistory TopicExists CreateTopic DeleteTopic 100 for ks
proof unfold_locales
qed (simp_all add: StoreMessage_effect(1) StoreMessage_ok GetMessageHistory_effect(1)
    same_keys_ok [OF GetMessageHistory_effect(2)] TopicExists_effect(1)
    same_keys_ok [OF TopicExists_effect(2)] CreateTopic_effect DeleteTopic_effect)

end
