(* ===== verification/DiaTypes.thy ===== *)
theory DiaTypes
  imports Prelude
begin

text \<open>
  What every component shares of the DIA library (\<^verbatim>\<open>github.com/lokingdav/libdia\<close>, not part of the
  repository) and of the relay's wire messages (\<^verbatim>\<open>api/proto/relay/v1/relay.proto\<close>). The message types
  are the library's constants that the program names; everything the library computes is a parameter
  of the definitions that use it.
\<close>

datatype dia_type = MsgAKERequest | MsgAKEResponse | MsgAKEComplete | MsgRUARequest | MsgRUAResponse
  | MsgODARequest | MsgODAResponse | MsgBye | MsgHeartbeat | MsgOther int

text \<open>\<^verbatim>\<open>RelayRequest\<close>: the type is a proto3 enum, so any 32-bit value may arrive.\<close>

type_synonym enum32 = "32 word"

abbreviation (input) PUBLISH :: enum32 where "PUBLISH \<equiv> 1"
abbreviation (input) SUBSCRIBE :: enum32 where "SUBSCRIBE \<equiv> 2"

record relay_request =
  rq_sender :: string
  rq_type :: enum32
  rq_topic :: string
  rq_payload :: bytes
  rq_ticket :: bytes

datatype response_type = TYPE_UNSPECIFIED | EVENT | ERROR

text \<open>The gRPC status codes that the program uses.\<close>

datatype code = InvalidArgument | PermissionDenied | Internal | Unauthenticated
  | Canceled | DeadlineExceeded | Unavailable | ResourceExhausted | OtherCode nat

record relay_response =
  rp_type :: response_type
  rp_topic :: string
  rp_payload :: bytes
  rp_code :: "code option"
  rp_message :: string

definition event_response :: "string \<Rightarrow> bytes \<Rightarrow> relay_response" where
  "event_response topic payload = \<lparr>rp_type = EVENT, rp_topic = topic, rp_payload = payload,
     rp_code = None, rp_message = []\<rparr>"

definition error_response :: "code \<Rightarrow> string \<Rightarrow> string \<Rightarrow> relay_response" where
  "error_response c msg topic = \<lparr>rp_type = ERROR, rp_topic = topic, rp_payload = [],
     rp_code = Some c, rp_message = msg\<rparr>"

lemma response_distinct [simp]:
  "event_response t p \<noteq> error_response c m t'" "error_response c m t' \<noteq> event_response t p"
  by (simp_all add: event_response_def error_response_def)

lemma event_response_inject [simp]:
  "event_response t p = event_response t' p' \<longleftrightarrow> t = t' \<and> p = p'"
  by (simp add: event_response_def)

text \<open>The bytes that a request's MAC covers: the low byte of the type, the topic and the payload.\<close>

definition mac_data :: "enum32 \<Rightarrow> string \<Rightarrow> bytes \<Rightarrow> bytes" where
  "mac_data ty topic payload = [char_of (unat ty)] @ topic @ payload"

definition macTokenPreimageLen :: nat where "macTokenPreimageLen = 32"
definition macLen :: nat where "macLen = 32"

end
