(* ===== verification/RelayServer.thy ===== *)
theory RelayServer
  imports RelayStore GoChan DiaTypes
begin

text \<open>
  \<^verbatim>\<open>internal/relay/grpc.go\<close>: the relay server. The sessions are a heap from session identities (Go's
  \<^verbatim>\<open>*session\<close> pointers) to their records, where \<open>tunnel_up\<close> and \<open>writer_up\<close> say whether the session's
  two goroutines (the loop of \<^verbatim>\<open>Tunnel\<close> and the one of \<^verbatim>\<open>startWriter\<close>) still run; \<open>clients\<close> maps a topic to the set of its subscribers, kept as a
  list without duplicates. One step of the server is what one goroutine does between two receives of
  its stream, or one round of a session's writer. A function that the code runs under \<^verbatim>\<open>mu\<close> is one definition.
\<close>

section \<open>State\<close>

type_synonym sid = nat

record session =
  activeTopic :: string
  sendQ :: "relay_response chan"
  dropCount :: "64 word"
  replaying :: bool
  tunnel_up :: bool
  writer_up :: bool

record 'r server =
  srv_key :: bytes
  clients :: "string \<rightharpoonup> sid list"
  sessions :: "sid \<Rightarrow> session"
  next_sid :: sid
  store :: "'r redisStore"

text \<open>
  What the server calls outside the repository: the DIA library's MAC check and message parser (the
  type of a message, \<^const>\<open>None\<close> when it does not parse), and the order in which Go iterates over a map.
\<close>

record relay_env =
  VerifyMessageMAC :: "bytes \<Rightarrow> bytes \<Rightarrow> bytes \<Rightarrow> bytes \<Rightarrow> bool result"
  ParseMessageType :: "bytes \<Rightarrow> dia_type option"
  map_order :: "sid list \<Rightarrow> sid list"

definition upd_session :: "sid \<Rightarrow> (session \<Rightarrow> session) \<Rightarrow> 'r server \<Rightarrow> 'r server" where
  "upd_session i f s = s\<lparr>sessions := (sessions s)(i := f (sessions s i))\<rparr>"

definition set_store :: "'r redisStore \<Rightarrow> 'r server \<Rightarrow> 'r server" where
  "set_store rs s = s\<lparr>store := rs\<rparr>"

section \<open>Sessions and topics\<close>

definition new_session :: session where
  "new_session = \<lparr>activeTopic = [], sendQ = make_chan 128, dropCount = 0, replaying = False,
     tunnel_up = True, writer_up = True\<rparr>"

definition NewServer :: "bytes \<Rightarrow> int \<Rightarrow> 'r redis \<Rightarrow> 'r server result" where
  "NewServer key ttl rdb =
     (case NewRedisStore ttl rdb of
        Inl e \<Rightarrow> Inl e
      | Inr rs \<Rightarrow> Inr \<lparr>srv_key = key, clients = Map.empty, sessions = (\<lambda>_. new_session), next_sid = 0, store = rs\<rparr>)"

text \<open>\<^verbatim>\<open>tryEnqueue\<close>: a full queue counts a drop, a closed one panics and the panic is recovered.\<close>

definition enqueue_session :: "relay_response \<Rightarrow> session \<Rightarrow> session" where
  "enqueue_session resp ss =
     (case try_send resp (sendQ ss) of
        (Sent, q) \<Rightarrow> ss\<lparr>sendQ := q\<rparr>
      | (Full, q) \<Rightarrow> ss\<lparr>dropCount := dropCount ss + 1\<rparr>
      | (SendPanic, q) \<Rightarrow> ss)"

definition tryEnqueue :: "sid \<Rightarrow> relay_response \<Rightarrow> 'r server \<Rightarrow> 'r server" where
  "tryEnqueue i resp s = upd_session i (enqueue_session resp) s"

definition sendError :: "sid \<Rightarrow> code \<Rightarrow> string \<Rightarrow> string \<Rightarrow> 'r server \<Rightarrow> 'r server" where
  "sendError i c msg topic s = tryEnqueue i (error_response c msg topic) s"

text \<open>Deleting a session from a topic's bucket, and the bucket with its last session.\<close>

definition drop_subscriber :: "string \<Rightarrow> sid \<Rightarrow> 'r server \<Rightarrow> 'r server" where
  "drop_subscriber topic i s =
     (case clients s topic of
        None \<Rightarrow> s
      | Some subs \<Rightarrow> s\<lparr>clients := (clients s)(topic :=
          (if removeAll i subs = [] then None else Some (removeAll i subs)))\<rparr>)"

definition closeQ :: "session \<Rightarrow> session" where
  "closeQ ss = ss\<lparr>sendQ := close_chan (sendQ ss)\<rparr>"

definition removeFromActive :: "sid \<Rightarrow> 'r server \<Rightarrow> 'r server" where
  "removeFromActive i s =
     (if activeTopic (sessions s i) = [] then s
      else upd_session i (\<lambda>ss. ss\<lparr>activeTopic := []\<rparr>) (drop_subscriber (activeTopic (sessions s i)) i s))"

definition detach :: "sid \<Rightarrow> 'r server \<Rightarrow> 'r server" where
  "detach i s =
     (let s1 = (if activeTopic (sessions s i) \<noteq> []
                then upd_session i (\<lambda>ss. ss\<lparr>activeTopic := []\<rparr>)
                       (drop_subscriber (activeTopic (sessions s i)) i s)
                else s)
      in upd_session i closeQ s1)"

definition ensureTopicBucket :: "string \<Rightarrow> 'r server \<Rightarrow> 'r server" where
  "ensureTopicBucket topic s =
     (if clients s topic = None then s\<lparr>clients := (clients s)(topic \<mapsto> [])\<rparr> else s)"

definition addToTopic :: "string \<Rightarrow> sid \<Rightarrow> 'r server \<Rightarrow> 'r server" where
  "addToTopic topic i s =
     (let old = activeTopic (sessions s i);
          s1 = (if old \<noteq> [] \<and> old \<noteq> topic then drop_subscriber old i s else s);
          s2 = ensureTopicBucket topic s1;
          s3 = s2\<lparr>clients := (clients s2)(topic \<mapsto> List.insert i (the (clients s2 topic)))\<rparr>
      in upd_session i (\<lambda>ss. ss\<lparr>activeTopic := topic\<rparr>) s3)"

definition topicExists :: "string \<Rightarrow> 'r server \<Rightarrow> bool \<times> 'r server" where
  "topicExists topic s =
     (if clients s topic \<noteq> None then (True, s)
      else (case TopicExists (store s) topic of
              (Inr b, rs) \<Rightarrow> (b, set_store rs s)
            | (Inl e, rs) \<Rightarrow> (False, set_store rs s)))"

section \<open>Requests\<close>

definition macDataForReq :: "relay_request \<Rightarrow> bytes" where
  "macDataForReq req = mac_data (rq_type req) (rq_topic req) (rq_payload req)"

definition verifyRequestMAC :: "relay_env \<Rightarrow> sid \<Rightarrow> relay_request \<Rightarrow> 'r server \<Rightarrow> bool \<times> 'r server" where
  "verifyRequestMAC env i req s =
     (let ticket = rq_ticket req; topic = rq_topic req in
      if length ticket = 0 then (False, sendError i PermissionDenied ''ticket required'' topic s)
      else if length ticket \<noteq> macTokenPreimageLen + macLen
      then (False, sendError i InvalidArgument ''invalid ticket size'' topic s)
      else (case VerifyMessageMAC env (srv_key s) (take macTokenPreimageLen ticket)
                   (macDataForReq req) (drop macTokenPreimageLen ticket) of
              Inl e \<Rightarrow> (False, sendError i Internal ''mac verification failed'' topic s)
            | Inr False \<Rightarrow> (False, sendError i Unauthenticated ''invalid mac'' topic s)
            | Inr True \<Rightarrow> (True, s)))"

text \<open>\<^verbatim>\<open>handlePublish\<close>, by its parts: the recipients' snapshot, storing, the fan-out, clearing.\<close>

definition publish_recipients :: "relay_env \<Rightarrow> string \<Rightarrow> 'r server \<Rightarrow> sid list" where
  "publish_recipients env topic s =
     (case clients s topic of None \<Rightarrow> [] | Some subs \<Rightarrow> map_order env subs)"

definition is_terminal :: "relay_env \<Rightarrow> bytes \<Rightarrow> bool" where
  "is_terminal env payload =
     (case ParseMessageType env payload of
        Some ty \<Rightarrow> ty = MsgAKEComplete \<or> ty = MsgBye
      | None \<Rightarrow> False)"

definition publish_store :: "string \<Rightarrow> bytes \<Rightarrow> string \<Rightarrow> 'r server \<Rightarrow> 'r server" where
  "publish_store topic payload senderId s = set_store (snd (StoreMessage (store s) topic payload senderId)) s"

definition deliver :: "sid \<Rightarrow> string \<Rightarrow> bytes \<Rightarrow> sid \<Rightarrow> 'r server \<Rightarrow> 'r server" where
  "deliver sess topic payload sb s =
     (if sb = sess then s
      else if replaying (sessions s sb) then s
      else tryEnqueue sb (event_response topic payload) s)"

definition publish_clear :: "string \<Rightarrow> 'r server \<Rightarrow> 'r server" where
  "publish_clear topic s = set_store (snd (DeleteTopic (store s) topic)) s"

definition handlePublish :: "relay_env \<Rightarrow> sid \<Rightarrow> relay_request \<Rightarrow> 'r server \<Rightarrow> 'r server" where
  "handlePublish env sess req s =
     (let topic = rq_topic req; senderId = rq_sender req; payload = rq_payload req in
      if topic = [] \<or> payload = []
      then sendError sess InvalidArgument ''missing topic or payload'' topic s
      else (case topicExists topic s of
          (False, s1) \<Rightarrow> sendError sess PermissionDenied ''topic does not exist; subscribe first'' topic s1
        | (True, s1) \<Rightarrow>
          (let recipients = publish_recipients env topic s1;
               isTerminal = is_terminal env payload;
               s2 = (if \<not> isTerminal then publish_store topic payload senderId s1 else s1);
               s3 = fold (deliver sess topic payload) recipients s2
           in if isTerminal then publish_clear topic s3 else s3)))"

text \<open>\<^verbatim>\<open>handleSubscribe\<close>, by its parts.\<close>

definition subscribe_open :: "string \<Rightarrow> 'r server \<Rightarrow> 'r server" where
  "subscribe_open target s =
     (case topicExists target s of
        (False, s1) \<Rightarrow> (let s2 = ensureTopicBucket target s1
                       in set_store (snd (CreateTopic (store s2) target)) s2)
      | (True, s1) \<Rightarrow> ensureTopicBucket target s1)"

definition subscribe_leave :: "sid \<Rightarrow> string \<Rightarrow> 'r server \<Rightarrow> 'r server" where
  "subscribe_leave sess target s =
     (if activeTopic (sessions s sess) \<noteq> [] \<and> activeTopic (sessions s sess) \<noteq> target
      then removeFromActive sess s else s)"

definition set_replaying :: "sid \<Rightarrow> bool \<Rightarrow> 'r server \<Rightarrow> 'r server" where
  "set_replaying sess b s = upd_session sess (\<lambda>ss. ss\<lparr>replaying := b\<rparr>) s"

definition fetch_history :: "string \<Rightarrow> 'r server \<Rightarrow> storedMsg list \<times> 'r server" where
  "fetch_history target s =
     (case GetMessageHistory (store s) target of
        (Inl e, rs) \<Rightarrow> ([], set_store rs s)
      | (Inr ms, rs) \<Rightarrow> (ms, set_store rs s))"

definition replay_one :: "sid \<Rightarrow> string \<Rightarrow> string \<Rightarrow> storedMsg \<Rightarrow> 'r server \<Rightarrow> 'r server" where
  "replay_one sess sender target m s =
     (if sender \<noteq> [] \<and> sm_sender m = sender then s
      else tryEnqueue sess (event_response target (sm_payload m)) s)"

definition replay :: "sid \<Rightarrow> string \<Rightarrow> string \<Rightarrow> storedMsg list \<Rightarrow> 'r server \<Rightarrow> 'r server" where
  "replay sess sender target ms s = fold (replay_one sess sender target) ms s"

definition catch_up :: "storedMsg list \<Rightarrow> storedMsg list \<Rightarrow> storedMsg list" where
  "catch_up hist hist2 = (if length hist2 > length hist then drop (length hist) hist2 else [])"

definition handleSubscribe :: "relay_env \<Rightarrow> sid \<Rightarrow> relay_request \<Rightarrow> 'r server \<Rightarrow> 'r server" where
  "handleSubscribe env sess req s =
     (let target = rq_topic req; sender = rq_sender req in
      if target = [] then sendError sess InvalidArgument ''missing topic'' [] s
      else
       (let s1 = subscribe_leave sess target (subscribe_open target s);
            s2 = set_replaying sess True s1 in
        case fetch_history target s2 of (hist, s3) \<Rightarrow>
       (let s4 = replay sess sender target hist (addToTopic target sess s3) in
        case fetch_history target s4 of (hist2, s5) \<Rightarrow>
       (let s6 = replay sess sender target (catch_up hist hist2) s5;
            s7 = set_replaying sess False s6
        in if rq_payload req \<noteq> [] then handlePublish env sess req s7 else s7))))"

section \<open>Steps of the server\<close>

text \<open>
  A stream opens (\<^verbatim>\<open>Tunnel\<close> with its writer); a session's stream delivers a request, or ends; the
  writer takes a response off the queue and sends it, and detaches the session when the send fails.
\<close>

definition open_tunnel :: "'r server \<Rightarrow> 'r server" where
  "open_tunnel s = s\<lparr>sessions := (sessions s)(next_sid s := new_session), next_sid := Suc (next_sid s)\<rparr>"

definition tunnel_recv :: "relay_env \<Rightarrow> sid \<Rightarrow> relay_request \<Rightarrow> 'r server \<Rightarrow> 'r server" where
  "tunnel_recv env i req s =
     (case verifyRequestMAC env i req s of
        (False, s1) \<Rightarrow> s1
      | (True, s1) \<Rightarrow>
          if rq_type req = PUBLISH then handlePublish env i req s1
          else if rq_type req = SUBSCRIBE then handleSubscribe env i req s1
          else sendError i InvalidArgument ''unknown request type'' (rq_topic req) s1)"

definition tunnel_end :: "sid \<Rightarrow> 'r server \<Rightarrow> 'r server" where
  "tunnel_end i s = upd_session i (\<lambda>ss. ss\<lparr>tunnel_up := False\<rparr>) (detach i s)"

definition writer_step :: "sid \<Rightarrow> bool \<Rightarrow> 'r server \<Rightarrow> 'r server" where
  "writer_step i sent s =
     (case recv (sendQ (sessions s i)) of
        (Received m, q) \<Rightarrow>
          (let s1 = upd_session i (\<lambda>ss. ss\<lparr>sendQ := q\<rparr>) s
           in if sent then s1 else upd_session i (\<lambda>ss. ss\<lparr>writer_up := False\<rparr>) (detach i s1))
      | (RecvClosed, q) \<Rightarrow> upd_session i (\<lambda>ss. ss\<lparr>writer_up := False\<rparr>) s
      | (RecvBlocks, q) \<Rightarrow> s)"

datatype relay_event = OpenTunnel | Recv sid relay_request | StreamEnd sid | Write sid bool

fun relay_step :: "relay_env \<Rightarrow> 'r server \<Rightarrow> relay_event \<Rightarrow> 'r server" where
  "relay_step env s OpenTunnel = open_tunnel s"
| "relay_step env s (Recv i req) =
     (if i < next_sid s \<and> tunnel_up (sessions s i) then tunnel_recv env i req s else s)"
| "relay_step env s (StreamEnd i) =
     (if i < next_sid s \<and> tunnel_up (sessions s i) then tunnel_end i s else s)"
| "relay_step env s (Write i sent) =
     (if i < next_sid s \<and> writer_up (sessions s i) then writer_step i sent s else s)"

section \<open>What is in a bucket\<close>

definition subscribed :: "'r server \<Rightarrow> string \<Rightarrow> sid \<Rightarrow> bool" where
  "subscribed s t i \<longleftrightarrow> (case clients s t of None \<Rightarrow> False | Some subs \<Rightarrow> i \<in> set subs)"

named_theorems relay_frame \<open>what the server's primitives leave alone\<close>

lemma upd_session_simps [simp]:
  "sessions (upd_session i f s) j = (if j = i then f (sessions s i) else sessions s j)"
  "clients (upd_session i f s) = clients s" "next_sid (upd_session i f s) = next_sid s"
  "store (upd_session i f s) = store s" "srv_key (upd_session i f s) = srv_key s"
  "subscribed (upd_session i f s) = subscribed s"
  by (auto simp: upd_session_def subscribed_def [abs_def])

lemma set_store_simps [simp]:
  "sessions (set_store rs s) = sessions s" "clients (set_store rs s) = clients s"
  "next_sid (set_store rs s) = next_sid s" "store (set_store rs s) = rs"
  "srv_key (set_store rs s) = srv_key s" "subscribed (set_store rs s) = subscribed s"
  by (auto simp: set_store_def subscribed_def [abs_def])

lemma drop_subscriber_simps [simp]:
  "sessions (drop_subscriber t i s) = sessions s" "next_sid (drop_subscriber t i s) = next_sid s"
  "store (drop_subscriber t i s) = store s" "srv_key (drop_subscriber t i s) = srv_key s"
  "subscribed (drop_subscriber t i s) t' j \<longleftrightarrow> subscribed s t' j \<and> \<not> (t' = t \<and> j = i)"
  by (auto simp: drop_subscriber_def subscribed_def split: option.splits if_splits)
     (metis empty_iff insert_iff list.set(1) set_removeAll Diff_iff)+

lemma ensureTopicBucket_simps [simp]:
  "sessions (ensureTopicBucket t s) = sessions s" "next_sid (ensureTopicBucket t s) = next_sid s"
  "store (ensureTopicBucket t s) = store s" "srv_key (ensureTopicBucket t s) = srv_key s"
  "subscribed (ensureTopicBucket t s) t' j = subscribed s t' j"
  by (auto simp: ensureTopicBucket_def subscribed_def)

lemma ensureTopicBucket_some: "clients (ensureTopicBucket t s) t \<noteq> None"
  by (simp add: ensureTopicBucket_def)

lemma topicExists_frame [simp]:
  "sessions (snd (topicExists t s)) = sessions s" "next_sid (snd (topicExists t s)) = next_sid s"
  "clients (snd (topicExists t s)) = clients s" "srv_key (snd (topicExists t s)) = srv_key s"
  "subscribed (snd (topicExists t s)) = subscribed s"
  by (auto simp: topicExists_def split: prod.splits sum.splits)

section \<open>The server's invariant\<close>

text \<open>
  A session is in the bucket of a topic exactly when that is its active topic, buckets hold no session
  twice, sessions not yet opened are in none, and every queue is within its 128 slots.
\<close>

definition session_ok :: "session \<Rightarrow> bool" where
  "session_ok ss \<longleftrightarrow> chan_ok (sendQ ss) \<and> ch_cap (sendQ ss) = 128"

definition server_ok :: "'r server \<Rightarrow> bool" where
  "server_ok s \<longleftrightarrow>
     (\<forall>t i. subscribed s t i \<longleftrightarrow> t \<noteq> [] \<and> activeTopic (sessions s i) = t)
   \<and> (\<forall>t subs. clients s t = Some subs \<longrightarrow> distinct subs)
   \<and> (\<forall>i. next_sid s \<le> i \<longrightarrow> activeTopic (sessions s i) = [])
   \<and> (\<forall>i. session_ok (sessions s i))"

lemma server_okD:
  assumes "server_ok s"
  shows "subscribed s t i \<longleftrightarrow> t \<noteq> [] \<and> activeTopic (sessions s i) = t"
    and "clients s t = Some subs \<Longrightarrow> distinct subs"
    and "next_sid s \<le> i \<Longrightarrow> activeTopic (sessions s i) = []"
    and "session_ok (sessions s i)"
  using assms by (auto simp: server_ok_def)

lemma new_session_ok [simp]: "session_ok new_session"
  by (simp add: session_ok_def new_session_def make_chan_def chan_ok_def)

lemma session_ok_updates [simp]:
  "session_ok (ss\<lparr>activeTopic := t\<rparr>) = session_ok ss" "session_ok (ss\<lparr>replaying := b\<rparr>) = session_ok ss"
  "session_ok (ss\<lparr>tunnel_up := b\<rparr>) = session_ok ss" "session_ok (ss\<lparr>writer_up := b\<rparr>) = session_ok ss"
  "session_ok (ss\<lparr>dropCount := n\<rparr>) = session_ok ss" "session_ok (closeQ ss) = session_ok ss"
  by (simp_all add: session_ok_def closeQ_def close_chan_def chan_ok_def)

lemma session_ok_enqueue [simp]: "session_ok ss \<Longrightarrow> session_ok (enqueue_session resp ss)"
  by (auto simp: session_ok_def enqueue_session_def try_send_def chan_ok_def)

lemma enqueue_session_frame [simp]:
  "activeTopic (enqueue_session resp ss) = activeTopic ss" "replaying (enqueue_session resp ss) = replaying ss"
  "tunnel_up (enqueue_session resp ss) = tunnel_up ss" "writer_up (enqueue_session resp ss) = writer_up ss"
  by (auto simp: enqueue_session_def split: prod.splits send_outcome.splits)

lemma closeQ_frame [simp]:
  "activeTopic (closeQ ss) = activeTopic ss" "replaying (closeQ ss) = replaying ss"
  "tunnel_up (closeQ ss) = tunnel_up ss" "writer_up (closeQ ss) = writer_up ss"
  by (simp_all add: closeQ_def)

lemma upd_session_ok:
  assumes "server_ok s" and "activeTopic (f (sessions s i)) = activeTopic (sessions s i)"
    and "session_ok (f (sessions s i))"
  shows "server_ok (upd_session i f s)"
  using assms by (auto simp: server_ok_def)

lemma set_store_ok [simp]: "server_ok (set_store rs s) = server_ok s"
  by (simp add: server_ok_def)

lemma tryEnqueue_ok [simp]: "server_ok s \<Longrightarrow> server_ok (tryEnqueue i resp s)"
  unfolding tryEnqueue_def by (rule upd_session_ok) (simp_all add: server_okD(4))

lemma sendError_ok [simp]: "server_ok s \<Longrightarrow> server_ok (sendError i c m t s)"
  by (simp add: sendError_def)

lemma set_replaying_ok [simp]: "server_ok s \<Longrightarrow> server_ok (set_replaying i b s)"
  unfolding set_replaying_def by (rule upd_session_ok) (simp_all add: server_okD(4))

lemma ensureTopicBucket_ok [simp]: "server_ok s \<Longrightarrow> server_ok (ensureTopicBucket t s)"
  by (auto simp: server_ok_def) (auto simp: ensureTopicBucket_def split: if_splits)

lemma drop_subscriber_distinct:
  "\<forall>t subs. clients s t = Some subs \<longrightarrow> distinct subs \<Longrightarrow>
   clients (drop_subscriber t i s) t' = Some subs \<Longrightarrow> distinct subs"
  by (auto simp: drop_subscriber_def distinct_removeAll split: option.splits if_splits)

lemma leave_ok:
  assumes "server_ok s"
  shows "server_ok (upd_session i (\<lambda>ss. ss\<lparr>activeTopic := []\<rparr>) (drop_subscriber (activeTopic (sessions s i)) i s))"
  using assms drop_subscriber_distinct [of s "activeTopic (sessions s i)" i]
  unfolding server_ok_def by auto

lemma removeFromActive_ok [simp]: "server_ok s \<Longrightarrow> server_ok (removeFromActive i s)"
  by (simp add: removeFromActive_def leave_ok)

lemma detach_ok [simp]:
  assumes "server_ok s"
  shows "server_ok (detach i s)"
proof -
  have *: "server_ok (upd_session i closeQ s')" if "server_ok s'" for s' :: "'a server"
    using that by (intro upd_session_ok) (simp_all add: server_okD(4))
  show ?thesis using assms by (simp add: detach_def Let_def * leave_ok)
qed

lemma addToTopic_ok:
  assumes "server_ok s" and "t \<noteq> []" and "i < next_sid s"
  shows "server_ok (addToTopic t i s)"
proof -
  define s1 where "s1 = (if activeTopic (sessions s i) \<noteq> [] \<and> activeTopic (sessions s i) \<noteq> t
      then drop_subscriber (activeTopic (sessions s i)) i s else s)"
  define s2 where "s2 = ensureTopicBucket t s1"
  obtain subs where subs: "clients s2 t = Some subs"
    using ensureTopicBucket_some [of t s1] by (auto simp: s2_def)
  have frame: "sessions s2 = sessions s" "next_sid s2 = next_sid s"
    by (auto simp: s2_def s1_def)
  have mem: "subscribed s2 t' j \<longleftrightarrow> subscribed s t' j \<and> (j = i \<longrightarrow> t' = t)" for t' j
    using server_okD(1) [OF assms(1), of t' i] by (auto simp: s2_def s1_def)
  have dist: "clients s2 t' = Some ss \<Longrightarrow> distinct ss" for t' ss
    using server_okD(2) [OF assms(1)] drop_subscriber_distinct [of s "activeTopic (sessions s i)" i t']
    by (auto simp: s2_def s1_def ensureTopicBucket_def split: if_splits)
  have eq: "addToTopic t i s = upd_session i (\<lambda>ss. ss\<lparr>activeTopic := t\<rparr>)
      (s2\<lparr>clients := (clients s2)(t \<mapsto> List.insert i subs)\<rparr>)"
    by (simp add: addToTopic_def Let_def s1_def [symmetric] s2_def [symmetric] subs)
  have mem': "subscribed (addToTopic t i s) t' j \<longleftrightarrow> subscribed s2 t' j \<or> t' = t \<and> j = i" for t' j
    by (auto simp: eq subscribed_def subs)
  show ?thesis
    unfolding server_ok_def mem' mem
    using assms dist subs server_okD(1) [OF assms(1)] server_okD(3,4) [OF assms(1)]
    by (auto simp: eq frame distinct_insert split: if_splits)
qed

lemma topicExists_ok [simp]: "server_ok s \<Longrightarrow> server_ok (snd (topicExists t s))"
  by (auto simp: topicExists_def split: prod.splits sum.splits)

lemma topicExists_okD: "topicExists t s = (b, s') \<Longrightarrow> server_ok s \<Longrightarrow> server_ok s'"
  using topicExists_ok [of s t] by simp

lemma deliver_ok [simp]: "server_ok s \<Longrightarrow> server_ok (deliver i t p j s)"
  by (simp add: deliver_def)

lemma fold_ok: "(\<And>x s. server_ok s \<Longrightarrow> server_ok (f x s)) \<Longrightarrow> server_ok s \<Longrightarrow> server_ok (fold f xs s)"
  by (induction xs arbitrary: s) auto

lemma publish_store_ok [simp]: "server_ok (publish_store t p u s) = server_ok s"
  by (simp add: publish_store_def)

lemma publish_clear_ok [simp]: "server_ok (publish_clear t s) = server_ok s"
  by (simp add: publish_clear_def)

lemma handlePublish_ok: "server_ok s \<Longrightarrow> server_ok (handlePublish env i req s)"
  by (auto simp: handlePublish_def Let_def dest: topicExists_okD intro!: fold_ok
      split: prod.split bool.split)

lemma verifyRequestMAC_ok: "server_ok s \<Longrightarrow> server_ok (snd (verifyRequestMAC env i req s))"
  by (auto simp: verifyRequestMAC_def Let_def split: sum.splits bool.splits)

lemma subscribe_open_ok: "server_ok s \<Longrightarrow> server_ok (subscribe_open t s)"
  by (auto simp: subscribe_open_def Let_def dest: topicExists_okD split: prod.split bool.split)

lemma subscribe_leave_ok: "server_ok s \<Longrightarrow> server_ok (subscribe_leave i t s)"
  by (simp add: subscribe_leave_def)

lemma fetch_history_ok: "server_ok s \<Longrightarrow> server_ok (snd (fetch_history t s))"
  by (auto simp: fetch_history_def split: prod.splits sum.splits)

lemma replay_ok: "server_ok s \<Longrightarrow> server_ok (replay i u t ms s)"
  unfolding replay_def by (rule fold_ok) (auto simp: replay_one_def)

text \<open>No operation on a request changes which sessions have been opened.\<close>

lemma next_sid_prims [simp]:
  "next_sid (tryEnqueue i resp s) = next_sid s" "next_sid (sendError i c m t s) = next_sid s"
  "next_sid (removeFromActive i s) = next_sid s" "next_sid (detach i s) = next_sid s"
  "next_sid (addToTopic t i s) = next_sid s" "next_sid (set_replaying i b s) = next_sid s"
  "next_sid (subscribe_leave i t s) = next_sid s" "next_sid (publish_store t p u s) = next_sid s"
  "next_sid (publish_clear t s) = next_sid s" "next_sid (deliver i t p j s) = next_sid s"
  by (auto simp: tryEnqueue_def sendError_def removeFromActive_def detach_def addToTopic_def
      set_replaying_def subscribe_leave_def publish_store_def publish_clear_def deliver_def Let_def)

lemma next_sid_fold: "(\<And>x s. next_sid (f x s) = next_sid s) \<Longrightarrow> next_sid (fold f xs s) = next_sid s"
  by (induction xs arbitrary: s) auto

lemma next_sid_replay [simp]: "next_sid (replay i u t ms s) = next_sid s"
  unfolding replay_def by (rule next_sid_fold) (simp add: replay_one_def)

lemma next_sid_fetch [simp]: "next_sid (snd (fetch_history t s)) = next_sid s"
  by (auto simp: fetch_history_def split: prod.splits sum.splits)

lemma next_sid_topicExistsD: "topicExists t s = (b, s') \<Longrightarrow> next_sid s' = next_sid s"
  using topicExists_frame(2) [of t s] by simp

lemma next_sid_open [simp]: "next_sid (subscribe_open t s) = next_sid s"
  by (auto simp: subscribe_open_def Let_def dest: next_sid_topicExistsD split: prod.split bool.split)

lemma handleSubscribe_ok:
  assumes "server_ok s" and "i < next_sid s"
  shows "server_ok (handleSubscribe env i req s)"
proof (cases "rq_topic req = []")
  case True
  then show ?thesis using assms by (simp add: handleSubscribe_def Let_def)
next
  case False
  let ?t = "rq_topic req"
  let ?s2 = "set_replaying i True (subscribe_leave i ?t (subscribe_open ?t s))"
  obtain hist s3 where f1: "fetch_history ?t ?s2 = (hist, s3)" by (cases "fetch_history ?t ?s2")
  let ?s4 = "replay i (rq_sender req) ?t hist (addToTopic ?t i s3)"
  obtain hist2 s5 where f2: "fetch_history ?t ?s4 = (hist2, s5)" by (cases "fetch_history ?t ?s4")
  have "server_ok ?s2" using assms by (simp add: subscribe_open_ok subscribe_leave_ok)
  then have "server_ok s3" using fetch_history_ok [of ?s2 ?t] f1 by simp
  moreover have "i < next_sid s3" using next_sid_fetch [of ?t ?s2] f1 assms(2) by simp
  ultimately have "server_ok ?s4" using False by (simp add: replay_ok addToTopic_ok)
  then have "server_ok s5" using fetch_history_ok [of ?s4 ?t] f2 by simp
  then show ?thesis
    by (simp add: handleSubscribe_def Let_def False f1 f2 replay_ok handlePublish_ok)
qed

lemma tunnel_recv_ok:
  assumes "server_ok s" and "i < next_sid s"
  shows "server_ok (tunnel_recv env i req s)"
proof -
  have "next_sid (snd (verifyRequestMAC env i req s)) = next_sid s"
    by (auto simp: verifyRequestMAC_def Let_def split: sum.splits bool.splits)
  then show ?thesis using assms verifyRequestMAC_ok [OF assms(1), of env i req]
    by (auto simp: tunnel_recv_def handlePublish_ok handleSubscribe_ok split: prod.splits bool.splits)
qed

lemma flag_ok: "server_ok s \<Longrightarrow> server_ok (upd_session i (\<lambda>ss. ss\<lparr>writer_up := b\<rparr>) s)
    \<and> server_ok (upd_session i (\<lambda>ss. ss\<lparr>tunnel_up := b\<rparr>) s)"
  by (auto intro!: upd_session_ok simp: server_okD(4))

lemma writer_step_ok:
  assumes "server_ok s"
  shows "server_ok (writer_step i sent s)"
proof -
  have "session_ok (sessions s i)" using assms by (rule server_okD(4))
  then have "recv (sendQ (sessions s i)) = (r, q) \<Longrightarrow> session_ok (sessions s i\<lparr>sendQ := q\<rparr>)" for r q
    using chan_ok_recv [of "sendQ (sessions s i)"]
    by (auto simp: session_ok_def) (auto simp: recv_def split: list.splits)
  then have "recv (sendQ (sessions s i)) = (r, q) \<Longrightarrow>
      server_ok (upd_session i (\<lambda>ss. ss\<lparr>sendQ := q\<rparr>) s)" for r q
    by (intro upd_session_ok assms) auto
  then show ?thesis using assms
    by (auto simp: writer_step_def Let_def flag_ok split: prod.splits recv_outcome.splits)
qed

lemma open_tunnel_ok: "server_ok s \<Longrightarrow> server_ok (open_tunnel s)"
  by (auto simp: server_ok_def open_tunnel_def subscribed_def new_session_ok)
     (auto simp: new_session_def)

lemma relay_step_ok: "server_ok s \<Longrightarrow> server_ok (relay_step env s e)"
  by (cases e) (auto simp: open_tunnel_ok tunnel_recv_ok writer_step_ok tunnel_end_def flag_ok)

interpretation relay: invariant_machine "relay_step env" server_ok for env
  by unfold_locales (rule relay_step_ok)

end
