(* ===== verification/RelayDelivery.thy ===== *)
theory RelayDelivery
  imports RelayServer
begin

text \<open>
  What the relay server does for its clients: who receives a published message, what a subscriber is
  replayed, that nothing happens without a valid MAC, what a terminal message clears, and the
  invariants of every reachable server.
\<close>

section \<open>The fan-out\<close>

text \<open>Delivering to one session after the other touches each session at most once.\<close>

lemma deliver_sessions:
  "sessions (deliver i t p j s) k =
     (if k = j \<and> j \<noteq> i \<and> \<not> replaying (sessions s j) then enqueue_session (event_response t p) (sessions s j)
      else sessions s k)"
  by (auto simp: deliver_def tryEnqueue_def)

lemma deliver_frame [simp]:
  "clients (deliver i t p j s) = clients s" "store (deliver i t p j s) = store s"
  "srv_key (deliver i t p j s) = srv_key s"
  by (auto simp: deliver_def tryEnqueue_def)

lemma fanout_frame [simp]:
  "clients (fold (deliver i t p) subs s) = clients s" "store (fold (deliver i t p) subs s) = store s"
  "srv_key (fold (deliver i t p) subs s) = srv_key s" "next_sid (fold (deliver i t p) subs s) = next_sid s"
  by (induction subs arbitrary: s) auto

lemma fanout_sessions:
  "distinct subs \<Longrightarrow> sessions (fold (deliver i t p) subs s) k =
     (if k \<in> set subs \<and> k \<noteq> i \<and> \<not> replaying (sessions s k)
      then enqueue_session (event_response t p) (sessions s k) else sessions s k)"
  by (induction subs arbitrary: s) (auto simp: deliver_sessions)

lemma server_eqI:
  assumes "sessions s = sessions s'" "clients s = clients s'" "store s = store s'"
    "srv_key s = srv_key s'" "next_sid s = next_sid s'"
  shows "(s :: 'r server) = s'"
  using assms by (cases s, cases s') simp

text \<open>Go visits every key of a map once, in some order.\<close>

definition map_order_ok :: "relay_env \<Rightarrow> bool" where
  "map_order_ok env \<longleftrightarrow> (\<forall>xs. distinct xs \<longrightarrow> distinct (map_order env xs) \<and> set (map_order env xs) = set xs)"

lemma recipients_subscribed:
  assumes "map_order_ok env" and "server_ok s"
  shows "distinct (publish_recipients env t s)"
    and "j \<in> set (publish_recipients env t s) \<longleftrightarrow> subscribed s t j"
  using assms server_okD(2) [OF assms(2), of t]
  by (auto simp: publish_recipients_def subscribed_def map_order_ok_def split: option.splits)

text \<open>A publish to a topic that some session listens on, in one equation.\<close>

lemma handlePublish_live:
  assumes "rq_topic req = t" "rq_payload req = p" "t \<noteq> []" "p \<noteq> []" and "clients s t \<noteq> None"
  shows "handlePublish env i req s =
    (if is_terminal env p then publish_clear t (fold (deliver i t p) (publish_recipients env t s) s)
     else fold (deliver i t p) (publish_recipients env t s) (publish_store t p (rq_sender req) s))"
  using assms by (simp add: handlePublish_def topicExists_def Let_def)

lemma publish_store_frame [simp]:
  "sessions (publish_store t p u s) = sessions s" "clients (publish_store t p u s) = clients s"
  "srv_key (publish_store t p u s) = srv_key s"
  "publish_recipients env t (publish_store t p u s) = publish_recipients env t s"
  by (simp_all add: publish_store_def publish_recipients_def)

lemma publish_clear_frame [simp]:
  "sessions (publish_clear t s) = sessions s" "clients (publish_clear t s) = clients s"
  "srv_key (publish_clear t s) = srv_key s"
  by (simp_all add: publish_clear_def)

lemma publish_sessions:
  assumes "server_ok s" and "map_order_ok env" and "rq_topic req = t" and "rq_payload req = p"
    and "t \<noteq> []" and "p \<noteq> []" and "clients s t \<noteq> None"
  shows "sessions (handlePublish env i req s) j =
    (if subscribed s t j \<and> j \<noteq> i \<and> \<not> replaying (sessions s j)
     then enqueue_session (event_response t p) (sessions s j) else sessions s j)"
  using recipients_subscribed [OF assms(2,1), where t = t]
  by (simp add: handlePublish_live [OF assms(3-7)] fanout_sessions)

text \<open>
  C7. A published message reaches exactly the topic's other subscribers that are not replaying: each of
  their queues takes the one EVENT (or counts a drop), and every other session, the publisher's included, is untouched.
\<close>

theorem publish_reaches_subscribers:
  assumes "server_ok s" and "map_order_ok env" and "rq_topic req = t" and "rq_payload req = p"
    and "t \<noteq> []" and "p \<noteq> []" and "clients s t \<noteq> None"
  shows "sessions (handlePublish env i req s) j =
    (if subscribed s t j \<and> j \<noteq> i \<and> \<not> replaying (sessions s j)
     then enqueue_session (event_response t p) (sessions s j) else sessions s j)"
  by (rule publish_sessions [OF assms])

definition demo_env :: relay_env where
  "demo_env = \<lparr>VerifyMessageMAC = (\<lambda>sk pre data mac. Inr (mac = replicate 32 (CHR ''m''))),
     ParseMessageType = (\<lambda>p. if p = ''bye'' then Some MsgBye else Some MsgAKERequest), map_order = rev\<rparr>"

definition demo_server :: "keyspace server" where
  "demo_server = \<lparr>srv_key = ''k'', clients = [''t'' \<mapsto> [0, 1]],
     sessions = (\<lambda>i. if i < 2 then new_session\<lparr>activeTopic := ''t''\<rparr> else new_session), next_sid = 3,
     store = \<lparr>st_client = mem_redis Map.empty, st_ttl = 20\<rparr>\<rparr>"

definition demo_request :: relay_request where
  "demo_request = \<lparr>rq_sender = ''a'', rq_type = PUBLISH, rq_topic = ''t'', rq_payload = ''hello'', rq_ticket = []\<rparr>"

lemma demo_server_ok: "server_ok demo_server"
  by (auto simp: server_ok_def demo_server_def subscribed_def new_session_def session_ok_def
      make_chan_def chan_ok_def split: option.splits)

lemma demo_env_ok: "map_order_ok demo_env"
  by (simp add: map_order_ok_def demo_env_def)

theorem publish_reaches_subscribers_witness:
  "sessions (handlePublish demo_env 0 demo_request demo_server) 1
     = enqueue_session (event_response ''t'' ''hello'') (sessions demo_server 1)"
proof -
  have "sessions (handlePublish demo_env 0 demo_request demo_server) 1 =
    (if subscribed demo_server ''t'' 1 \<and> (1::sid) \<noteq> 0 \<and> \<not> replaying (sessions demo_server 1)
     then enqueue_session (event_response ''t'' ''hello'') (sessions demo_server 1) else sessions demo_server 1)"
    by (rule publish_reaches_subscribers [OF demo_server_ok demo_env_ok])
      (simp_all add: demo_request_def demo_server_def)
  then show ?thesis by (simp add: demo_server_def subscribed_def new_session_def)
qed

text \<open>
  C39. The order in which Go iterates over the subscriber map has no effect on the server.
\<close>

theorem publish_map_order_irrelevant:
  assumes "server_ok s" and "map_order_ok env" and "map_order_ok env'"
    and "VerifyMessageMAC env' = VerifyMessageMAC env" and "ParseMessageType env' = ParseMessageType env"
  shows "handlePublish env' i req s = handlePublish env i req s"
proof -
  have ok: "server_ok (snd (topicExists (rq_topic req) s))" using assms(1) by simp
  have trm: "is_terminal env' = is_terminal env" by (simp add: fun_eq_iff is_terminal_def assms(5))
  have fan: "fold (deliver i t p) (publish_recipients env' t s1) s2
      = fold (deliver i t p) (publish_recipients env t s1) s2" if "server_ok s1" for t p s1 s2
    using recipients_subscribed [OF assms(2) that, where t = t] recipients_subscribed [OF assms(3) that, where t = t]
    by (intro server_eqI) (auto simp: fun_eq_iff fanout_sessions)
  show ?thesis
    using ok unfolding handlePublish_def Let_def trm
    by (auto simp: fan split: prod.split bool.split)
qed

theorem publish_map_order_irrelevant_witness:
  "handlePublish (demo_env\<lparr>map_order := id\<rparr>) 0 demo_request demo_server
   = handlePublish demo_env 0 demo_request demo_server"
  by (rule publish_map_order_irrelevant [OF demo_server_ok demo_env_ok])
    (simp_all add: map_order_ok_def)

section \<open>Terminal messages\<close>

text \<open>
  C22. A terminal message (AKE complete or BYE) is not stored: it reaches the live subscribers, and
  afterwards Redis holds no history and no tracking key of the topic, and every other topic's as before.
\<close>

theorem terminal_publish_clears_history:
  assumes "store_ok ks (store s)" and "is_terminal env p" and "rq_topic req = t" and "rq_payload req = p"
    and "t \<noteq> []" and "p \<noteq> []" and "clients s t \<noteq> None"
  shows "topic_history ks (store (handlePublish env i req s)) = (topic_history ks (store s))(t := [])
    \<and> topic_known ks (store (handlePublish env i req s)) = (topic_known ks (store s))(t := False)"
  using rstore.delete_ok [OF assms(1), of t] assms(2)
  by (simp add: handlePublish_live [OF assms(3-7)] publish_clear_def)

lemma demo_store_ok: "store_ok id (store demo_server)"
  by (auto simp: store_ok_def demo_server_def stored_list_def is_list_key_def list_at_def)

theorem terminal_publish_clears_history_witness:
  "topic_history id (store (handlePublish demo_env 0 (demo_request\<lparr>rq_payload := ''bye''\<rparr>) demo_server)) ''t'' = []"
proof -
  have "topic_history id (store (handlePublish demo_env 0 (demo_request\<lparr>rq_payload := ''bye''\<rparr>) demo_server))
      = (topic_history id (store demo_server))(''t'' := [])"
    by (rule terminal_publish_clears_history [where p = "''bye''", THEN conjunct1, OF demo_store_ok])
      (simp_all add: demo_request_def demo_server_def is_terminal_def demo_env_def)
  then show ?thesis by simp
qed

section \<open>Replay\<close>

text \<open>What a subscriber is replayed of a history: everything it did not send itself, oldest first.\<close>

definition replayed :: "string \<Rightarrow> string \<Rightarrow> storedMsg list \<Rightarrow> relay_response list" where
  "replayed sender target ms = map (\<lambda>m. event_response target (sm_payload m))
     (filter (\<lambda>m. sender = [] \<or> sm_sender m \<noteq> sender) ms)"

lemma replay_eq: "replay i u t ms s = fold (tryEnqueue i) (replayed u t ms) s"
  unfolding replay_def replayed_def by (induction ms arbitrary: s) (auto simp: replay_one_def)

lemma replay_Nil [simp]: "replay i u t [] s = s"
  by (simp add: replay_def)

lemma enqueues_frame [simp]:
  "clients (fold (tryEnqueue i) rs s) = clients s" "store (fold (tryEnqueue i) rs s) = store s"
  "sessions (fold (tryEnqueue i) rs s) = (sessions s)(i := fold enqueue_session rs (sessions s i))"
  by (induction rs arbitrary: s) (auto simp: tryEnqueue_def fun_eq_iff)

lemma enqueue_all:
  assumes "\<not> ch_closed (sendQ ss)" and "length (ch_buf (sendQ ss)) + length rs \<le> ch_cap (sendQ ss)"
  shows "fold enqueue_session rs ss = ss\<lparr>sendQ := (sendQ ss)\<lparr>ch_buf := ch_buf (sendQ ss) @ rs\<rparr>\<rparr>"
  using assms
proof (induction rs arbitrary: ss)
  case (Cons r rs)
  then have "enqueue_session r ss = ss\<lparr>sendQ := (sendQ ss)\<lparr>ch_buf := ch_buf (sendQ ss) @ [r]\<rparr>\<rparr>"
    by (simp add: enqueue_session_def try_send_def)
  with Cons show ?case by simp
qed simp

text \<open>On a store in order, opening a topic and fetching its history keep the history.\<close>

lemma topicExists_store:
  assumes "store_ok ks (store s)"
  shows "store_ok ks (store (snd (topicExists t s)))
    \<and> topic_history ks (store (snd (topicExists t s))) = topic_history ks (store s)
    \<and> fst (topicExists t s) = (clients s t \<noteq> None \<or> topic_known ks (store s) t)"
  using rstore.exists_ok [OF assms, of t] rstore.exists_same [OF assms, of t] assms
  by (auto simp: topicExists_def split: prod.splits sum.splits)

lemma subscribe_open_effect:
  assumes "store_ok ks (store s)"
  shows "store_ok ks (store (subscribe_open t s))
    \<and> topic_history ks (store (subscribe_open t s)) = topic_history ks (store s)
    \<and> sessions (subscribe_open t s) = sessions s"
proof -
  obtain b s1 where e: "topicExists t s = (b, s1)" by (cases "topicExists t s")
  have s1: "store_ok ks (store s1)" "topic_history ks (store s1) = topic_history ks (store s)"
      "sessions s1 = sessions s"
    using topicExists_store [OF assms, of t] topicExists_frame(1) [of t s] by (simp_all add: e)
  show ?thesis using s1 rstore.create_ok [OF s1(1), of t]
    by (cases b) (auto simp: subscribe_open_def e Let_def)
qed

lemma fetch_history_effect:
  assumes "store_ok ks (store s)"
  shows "\<exists>s'. fetch_history t s = (topic_history ks (store s) t, s') \<and> store_ok ks (store s')
    \<and> topic_history ks (store s') = topic_history ks (store s) \<and> sessions s' = sessions s
    \<and> clients s' = clients s"
  using rstore.history_ok [OF assms, of t] rstore.history_same [OF assms, of t]
  by (auto simp: fetch_history_def split: prod.splits sum.splits)

lemma leave_sessions:
  "sessions (subscribe_leave i t s) j =
     (if j = i \<and> activeTopic (sessions s i) \<noteq> t then (sessions s i)\<lparr>activeTopic := []\<rparr> else sessions s j)"
  by (auto simp: subscribe_leave_def removeFromActive_def)

lemma leave_store [simp]: "store (subscribe_leave i t s) = store s"
  by (auto simp: subscribe_leave_def removeFromActive_def)

lemma addToTopic_effect [simp]:
  "sessions (addToTopic t i s) = (sessions s)(i := (sessions s i)\<lparr>activeTopic := t\<rparr>)"
  "store (addToTopic t i s) = store s" "subscribed (addToTopic t i s) t i"
  by (auto simp: addToTopic_def Let_def fun_eq_iff subscribed_def)

lemma handleSubscribe_effect:
  assumes st: "store_ok ks (store s)" and t: "rq_topic req = t" "t \<noteq> []" and "rq_payload req = []"
  defines "rs \<equiv> replayed (rq_sender req) t (topic_history ks (store s) t)"
  shows "sessions (handleSubscribe env i req s) = (sessions s)(i :=
      (fold enqueue_session rs ((sessions s i)\<lparr>activeTopic := t, replaying := True\<rparr>))\<lparr>replaying := False\<rparr>)"
    and "subscribed (handleSubscribe env i req s) t i"
    and "store_ok ks (store (handleSubscribe env i req s))"
    and "topic_history ks (store (handleSubscribe env i req s)) = topic_history ks (store s)"
proof -
  let ?s2 = "set_replaying i True (subscribe_leave i t (subscribe_open t s))"
  have s2: "store_ok ks (store ?s2)" "topic_history ks (store ?s2) = topic_history ks (store s)"
    using subscribe_open_effect [OF st, of t] by (simp_all add: set_replaying_def)
  then obtain s3 where f1: "fetch_history t ?s2 = (topic_history ks (store s) t, s3)"
    and s3: "store_ok ks (store s3)" "topic_history ks (store s3) = topic_history ks (store s)"
      "sessions s3 = sessions ?s2"
    using fetch_history_effect [OF s2(1), of t] by auto
  let ?s4 = "replay i (rq_sender req) t (topic_history ks (store s) t) (addToTopic t i s3)"
  have s4: "store ?s4 = store s3" by (simp add: replay_eq)
  then obtain s5 where f2: "fetch_history t ?s4 = (topic_history ks (store s) t, s5)"
    and s5: "store_ok ks (store s5)" "topic_history ks (store s5) = topic_history ks (store s)"
      "sessions s5 = sessions ?s4" "clients s5 = clients ?s4"
    using fetch_history_effect [of ks ?s4 t] s3 by auto
  have eq: "handleSubscribe env i req s = set_replaying i False s5"
    using assms(4) t by (simp add: handleSubscribe_def Let_def f1 f2 catch_up_def)
  have "sessions s3 = (sessions s)(i := (sessions s i)\<lparr>activeTopic :=
      (if activeTopic (sessions s i) = t then t else []), replaying := True\<rparr>)"
    unfolding s3(3) using subscribe_open_effect [OF st, of t]
    by (auto simp: set_replaying_def leave_sessions fun_eq_iff)
  moreover have comm: "x\<lparr>replaying := True, activeTopic := t\<rparr> = x\<lparr>activeTopic := t, replaying := True\<rparr>"
    for x :: session by (cases x) simp
  ultimately show "sessions (handleSubscribe env i req s) = (sessions s)(i :=
      (fold enqueue_session rs ((sessions s i)\<lparr>activeTopic := t, replaying := True\<rparr>))\<lparr>replaying := False\<rparr>)"
    by (simp add: eq s5 replay_eq rs_def set_replaying_def upd_session_def comm)
  have "clients s5 = clients (addToTopic t i s3)" by (simp add: s5 replay_eq)
  then show "subscribed (handleSubscribe env i req s) t i"
    using addToTopic_effect(3) [of t i s3] by (simp add: eq subscribed_def set_replaying_def)
  show "store_ok ks (store (handleSubscribe env i req s))"
    and "topic_history ks (store (handleSubscribe env i req s)) = topic_history ks (store s)"
    using s5 by (simp_all add: eq set_replaying_def)
qed

lemma subscribe_queue:
  assumes "store_ok ks (store s)" and "rq_topic req = t" and "t \<noteq> []" and "rq_payload req = []"
    and "rs = replayed (rq_sender req) t (topic_history ks (store s) t)"
    and "\<not> ch_closed (sendQ (sessions s i))"
    and "length (ch_buf (sendQ (sessions s i))) + length rs \<le> ch_cap (sendQ (sessions s i))"
  shows "ch_buf (sendQ (sessions (handleSubscribe env i req s) i)) = ch_buf (sendQ (sessions s i)) @ rs
    \<and> activeTopic (sessions (handleSubscribe env i req s) i) = t
    \<and> \<not> replaying (sessions (handleSubscribe env i req s) i)
    \<and> subscribed (handleSubscribe env i req s) t i
    \<and> (\<forall>j. j \<noteq> i \<longrightarrow> sessions (handleSubscribe env i req s) j = sessions s j)"
  using handleSubscribe_effect(1,2) [OF assms(1-4), of env i]
    enqueue_all [of "(sessions s i)\<lparr>activeTopic := t, replaying := True\<rparr>" rs] assms(5-7)
  by simp

text \<open>
  C21. A SUBSCRIBE makes the topic the session's only one and puts the stored history into its queue,
  oldest first and without the subscriber's own messages; no other session changes.
\<close>

theorem subscribe_replays_history:
  assumes "store_ok ks (store s)" and "rq_topic req = t" and "t \<noteq> []" and "rq_payload req = []"
    and "rs = replayed (rq_sender req) t (topic_history ks (store s) t)"
    and "\<not> ch_closed (sendQ (sessions s i))"
    and "length (ch_buf (sendQ (sessions s i))) + length rs \<le> ch_cap (sendQ (sessions s i))"
  shows "ch_buf (sendQ (sessions (handleSubscribe env i req s) i)) = ch_buf (sendQ (sessions s i)) @ rs
    \<and> activeTopic (sessions (handleSubscribe env i req s) i) = t
    \<and> \<not> replaying (sessions (handleSubscribe env i req s) i)
    \<and> subscribed (handleSubscribe env i req s) t i
    \<and> (\<forall>j. j \<noteq> i \<longrightarrow> sessions (handleSubscribe env i req s) j = sessions s j)"
  by (rule subscribe_queue [OF assms])

definition demo_subscribe :: relay_request where
  "demo_subscribe = \<lparr>rq_sender = ''b'', rq_type = SUBSCRIBE, rq_topic = ''t'', rq_payload = [], rq_ticket = []\<rparr>"

theorem subscribe_replays_history_witness:
  "subscribed (handleSubscribe demo_env 2 demo_subscribe demo_server) ''t'' 2"
  by (rule subscribe_replays_history [where ks = id and i = 2, THEN conjunct2, THEN conjunct2, THEN conjunct2, THEN conjunct1,
        OF demo_store_ok _ _ _ refl])
    (simp_all add: demo_subscribe_def demo_server_def new_session_def make_chan_def replayed_def
      topic_history_def stored_list_def list_at_def List.map_filter_def)

text \<open>
  Publishing to an absent peer: a message stored by a publish reaches the session that subscribes to
  the topic later, as the last EVENT of its replay.
\<close>

lemma publish_then_subscribe:
  assumes "store_ok ks (store s)" and "clients s t \<noteq> None" and "t \<noteq> []"
    and "rq_topic req = t" and "rq_payload req = p" and "p \<noteq> []" and "\<not> is_terminal env p"
    and "rq_topic sub = t" and "rq_payload sub = []" and "rq_sender sub \<noteq> rq_sender req"
    and "s1 = handlePublish env i req s"
    and "\<not> ch_closed (sendQ (sessions s1 j))"
    and "length (ch_buf (sendQ (sessions s1 j))) + 100 \<le> ch_cap (sendQ (sessions s1 j))"
    and "length (topic_history ks (store s) t) \<le> 100"
  shows "\<exists>es. ch_buf (sendQ (sessions (handleSubscribe env j sub s1) j))
      = ch_buf (sendQ (sessions s1 j)) @ es @ [event_response t p]"
proof -
  let ?m = "\<lparr>sm_topic = t, sm_payload = p, sm_sender = rq_sender req\<rparr>"
  have st1: "store s1 = snd (StoreMessage (store s) t p (rq_sender req))"
    using assms(7) by (simp add: assms(11) handlePublish_live [OF assms(4,5,3,6,2)] publish_store_def)
  let ?h = "topic_history ks (store s1) t"
  have ok: "store_ok ks (store s1)" using rstore.store_invar [OF assms(1)] by (simp add: st1)
  have len: "length ?h \<le> 100" using rstore.store_length [OF assms(1,14)] by (simp add: st1)
  have "?h \<noteq> []" "last ?h = ?m" using rstore.store_last [OF assms(1)] by (simp_all add: st1)
  then obtain h where h: "?h = h @ [?m]" by (metis append_butlast_last_id)
  let ?rs = "replayed (rq_sender sub) t ?h"
  have rs: "?rs = replayed (rq_sender sub) t h @ [event_response t p]"
    using assms(10) by (simp add: h replayed_def)
  have "length ?rs \<le> length ?h" by (simp add: replayed_def)
  then have "length (ch_buf (sendQ (sessions s1 j))) + length ?rs \<le> ch_cap (sendQ (sessions s1 j))"
    using len assms(13) by linarith
  from subscribe_queue [OF ok assms(8,3,9) refl assms(12) this, of env]
  show ?thesis unfolding rs by blast
qed

lemma publish_then_subscribe_example:
  "\<exists>es. ch_buf (sendQ (sessions (handleSubscribe demo_env 2 demo_subscribe
        (handlePublish demo_env 0 demo_request demo_server)) 2))
      = ch_buf (sendQ (sessions (handlePublish demo_env 0 demo_request demo_server) 2))
          @ es @ [event_response ''t'' ''hello'']"
proof -
  have q: "sessions (handlePublish demo_env 0 demo_request demo_server) 2 = sessions demo_server 2"
  proof -
    have "demo_server\<lparr>store := rs\<rparr> = set_store rs demo_server" for rs by (simp add: set_store_def)
    then show ?thesis
      by (subst handlePublish_live [OF refl refl])
        (simp_all add: demo_request_def demo_server_def demo_env_def is_terminal_def
          publish_recipients_def publish_store_def set_store_def deliver_sessions)
  qed
  show ?thesis
    by (rule publish_then_subscribe [where ks = id, OF demo_store_ok _ _ _ _ _ _ _ _ _ refl])
      (simp_all only: q, simp_all add: demo_request_def demo_server_def demo_subscribe_def
        demo_env_def is_terminal_def new_session_def make_chan_def
        topic_history_def stored_list_def list_at_def List.map_filter_def)
qed

section \<open>Authentication\<close>

text \<open>When \<^verbatim>\<open>verifyRequestMAC\<close> lets a request through.\<close>

definition mac_accepted :: "relay_env \<Rightarrow> 'r server \<Rightarrow> relay_request \<Rightarrow> bool" where
  "mac_accepted env s req \<longleftrightarrow> length (rq_ticket req) = 64
     \<and> VerifyMessageMAC env (srv_key s) (take 32 (rq_ticket req)) (macDataForReq req) (drop 32 (rq_ticket req)) = Inr True"

lemma verifyRequestMAC_accept: "mac_accepted env s req \<Longrightarrow> verifyRequestMAC env i req s = (True, s)"
  by (auto simp: verifyRequestMAC_def mac_accepted_def macTokenPreimageLen_def macLen_def Let_def)

text \<open>
  C8. A request of either type whose MAC does not verify has no effect but one ERROR to its own session,
  with the code for the check that failed; the store, the subscriptions and all other queues stay as they are.
\<close>

theorem unauthenticated_request_rejected:
  assumes "\<not> mac_accepted env s req"
  shows "\<exists>c msg. tunnel_recv env i req s = sendError i c msg (rq_topic req) s
    \<and> (c = PermissionDenied \<longleftrightarrow> rq_ticket req = [])
    \<and> (c = InvalidArgument \<longleftrightarrow> rq_ticket req \<noteq> [] \<and> length (rq_ticket req) \<noteq> 64)
    \<and> store (tunnel_recv env i req s) = store s \<and> clients (tunnel_recv env i req s) = clients s
    \<and> (\<forall>j. j \<noteq> i \<longrightarrow> sessions (tunnel_recv env i req s) j = sessions s j)"
proof -
  consider "rq_ticket req = []"
    | "rq_ticket req \<noteq> []" "length (rq_ticket req) \<noteq> 64"
    | e where "length (rq_ticket req) = 64" "VerifyMessageMAC env (srv_key s) (take 32 (rq_ticket req))
        (macDataForReq req) (drop 32 (rq_ticket req)) = Inl e"
    | "length (rq_ticket req) = 64" "VerifyMessageMAC env (srv_key s) (take 32 (rq_ticket req))
        (macDataForReq req) (drop 32 (rq_ticket req)) = Inr False"
    using assms unfolding mac_accepted_def
    by (cases "VerifyMessageMAC env (srv_key s) (take 32 (rq_ticket req)) (macDataForReq req) (drop 32 (rq_ticket req))")
      auto
  then have "\<exists>c msg. verifyRequestMAC env i req s = (False, sendError i c msg (rq_topic req) s)
    \<and> (c = PermissionDenied \<longleftrightarrow> rq_ticket req = [])
    \<and> (c = InvalidArgument \<longleftrightarrow> rq_ticket req \<noteq> [] \<and> length (rq_ticket req) \<noteq> 64)"
    by cases (auto simp: verifyRequestMAC_def macTokenPreimageLen_def macLen_def Let_def)
  then obtain c msg where v: "verifyRequestMAC env i req s = (False, sendError i c msg (rq_topic req) s)"
    "c = PermissionDenied \<longleftrightarrow> rq_ticket req = []"
    "c = InvalidArgument \<longleftrightarrow> rq_ticket req \<noteq> [] \<and> length (rq_ticket req) \<noteq> 64"
    by blast
  then show ?thesis
    by (intro exI [of _ c] exI [of _ msg]) (simp add: tunnel_recv_def sendError_def tryEnqueue_def)
qed

theorem unauthenticated_request_rejected_witness:
  "store (tunnel_recv demo_env 0 demo_request demo_server) = store demo_server"
proof -
  have "\<not> mac_accepted demo_env demo_server demo_request"
    by (simp add: mac_accepted_def demo_request_def)
  from unauthenticated_request_rejected [OF this, of 0] show ?thesis by blast
qed

section \<open>Errors of a publish\<close>

text \<open>
  PUBLISH never creates a topic: to a topic with no bucket that Redis does not know, the publisher
  gets PERMISSION_DENIED and neither the subscriptions nor any topic's history change.
\<close>

lemma publish_never_creates_topic:
  assumes "store_ok ks (store s)" and "rq_topic req = t" and "t \<noteq> []" and "rq_payload req \<noteq> []"
    and "clients s t = None" and "\<not> topic_known ks (store s) t"
  shows "sessions (handlePublish env i req s) = (sessions s)(i := enqueue_session
        (error_response PermissionDenied ''topic does not exist; subscribe first'' t) (sessions s i))
    \<and> clients (handlePublish env i req s) = clients s
    \<and> topic_history ks (store (handlePublish env i req s)) = topic_history ks (store s)"
proof -
  obtain s1 where s1: "topicExists t s = (False, s1)"
    using topicExists_store [OF assms(1), of t] assms(5,6) by (cases "topicExists t s") auto
  have "sessions s1 = sessions s" "clients s1 = clients s"
      "topic_history ks (store s1) = topic_history ks (store s)"
    using topicExists_frame [of t s] topicExists_store [OF assms(1), of t] by (simp_all add: s1)
  then show ?thesis using assms
    by (simp add: handlePublish_def Let_def s1 sendError_def tryEnqueue_def fun_eq_iff)
qed

lemma publish_never_creates_topic_example:
  "clients (handlePublish demo_env 0 (demo_request\<lparr>rq_topic := ''u''\<rparr>) demo_server) ''u'' = None"
proof -
  have "clients (handlePublish demo_env 0 (demo_request\<lparr>rq_topic := ''u''\<rparr>) demo_server) = clients demo_server"
    by (rule publish_never_creates_topic [THEN conjunct2, THEN conjunct1, OF demo_store_ok refl])
      (simp_all add: demo_request_def demo_server_def topic_known_def)
  then show ?thesis by (simp add: demo_server_def)
qed

section \<open>Every reachable server\<close>

lemma started_ok: "NewServer key ttl rdb = Inr s0 \<Longrightarrow> server_ok s0"
  by (auto simp: NewServer_def server_ok_def subscribed_def new_session_def session_ok_def make_chan_def chan_ok_def
      split: sum.splits)

text \<open>
  C9. Whatever streams open, requests arrive, streams end and sends fail, in any order: a session is in the
  bucket of at most one topic, its active one, and no queue ever holds more than 128 responses.
\<close>

theorem reachable_server_consistent:
  assumes "NewServer key ttl rdb = Inr s0" and "s = foldl (relay_step env) s0 es"
  shows "(subscribed s t i \<longleftrightarrow> t \<noteq> [] \<and> activeTopic (sessions s i) = t)
    \<and> length (ch_buf (sendQ (sessions s i))) \<le> 128"
proof -
  have "server_ok s0" using assms(1) by (rule started_ok)
  then have "server_ok s" unfolding assms(2) by (rule relay.run_inv)
  then have "session_ok (sessions s i)" "subscribed s t i \<longleftrightarrow> t \<noteq> [] \<and> activeTopic (sessions s i) = t"
    by (auto intro: server_okD(4) simp: server_okD(1))
  then show ?thesis by (simp add: session_ok_def chan_ok_def)
qed

lemma demo_start: "\<exists>s0. NewServer ''k'' 20 (mem_redis Map.empty) = Inr s0"
  by (simp add: NewServer_def NewRedisStore_def rcall_def mem_redis_def)

theorem reachable_server_consistent_witness:
  "\<exists>s0. NewServer ''k'' 20 (mem_redis Map.empty) = Inr s0
    \<and> length (ch_buf (sendQ (sessions (foldl (relay_step demo_env) s0 [OpenTunnel, Recv 0 demo_request]) 0))) \<le> 128"
proof -
  obtain s0 where s0: "NewServer ''k'' 20 (mem_redis Map.empty) = Inr s0" using demo_start by blast
  from reachable_server_consistent [OF s0 refl] s0 show ?thesis by blast
qed

text \<open>The history bound as a second invariant of the same steps.\<close>

definition history_bounded :: "('r \<Rightarrow> keyspace) \<Rightarrow> 'r server \<Rightarrow> bool" where
  "history_bounded ks s \<longleftrightarrow> store_ok ks (store s) \<and> (\<forall>t. length (topic_history ks (store s) t) \<le> 100)"

lemma history_bounded_cong: "store s' = store s \<Longrightarrow> history_bounded ks s' = history_bounded ks s"
  by (simp add: history_bounded_def)

lemma store_prims [simp]:
  "store (tryEnqueue i r s) = store s" "store (sendError i c m t s) = store s"
  "store (removeFromActive i s) = store s" "store (detach i s) = store s"
  "store (set_replaying i b s) = store s" "store (replay i u t ms s) = store s"
  by (auto simp: tryEnqueue_def sendError_def removeFromActive_def detach_def set_replaying_def
      replay_eq Let_def)

lemma handlePublish_bounded:
  assumes "history_bounded ks s"
  shows "history_bounded ks (handlePublish env i req s)"
proof -
  let ?t = "rq_topic req"
  obtain b s1 where e: "topicExists ?t s = (b, s1)" by (cases "topicExists ?t s")
  have s1: "history_bounded ks s1"
    using topicExists_store [of ks s ?t] assms by (auto simp: history_bounded_def e)
  then have st: "store_ok ks (store s1)" and len: "length (topic_history ks (store s1) t) \<le> 100" for t
    by (auto simp: history_bounded_def)
  have stored: "history_bounded ks (publish_store ?t p u s1)" for p u
    using rstore.store_invar [OF st, of ?t p u] rstore.store_length [OF st len, of ?t p u]
      rstore.store_hist [OF st, of ?t p u] len
    by (auto simp: history_bounded_def publish_store_def)
  have cleared: "history_bounded ks (publish_clear ?t s')" if "store s' = store s1" for s'
    using rstore.delete_ok [OF st, of ?t] len that by (auto simp: history_bounded_def publish_clear_def)
  have fanned: "history_bounded ks (fold (deliver i t p) subs s')" if "history_bounded ks s'" for t p subs s'
    using that history_bounded_cong [of "fold (deliver i t p) subs s'" s'] by simp
  show ?thesis
    using assms s1 stored cleared
    by (cases b) (auto simp: handlePublish_def Let_def e fanned history_bounded_cong [OF store_prims(2)])
qed

lemma handleSubscribe_bounded:
  assumes "history_bounded ks s"
  shows "history_bounded ks (handleSubscribe env i req s)"
proof -
  let ?t = "rq_topic req"
  have st: "store_ok ks (store s)" using assms by (simp add: history_bounded_def)
  show ?thesis
  proof (cases "?t = [] \<or> rq_payload req = []")
    case True
    then show ?thesis
    proof (cases "?t = []")
      case False
      with True show ?thesis using handleSubscribe_effect(3,4) [OF st refl, of req env i] assms
        by (auto simp: history_bounded_def)
    qed (use assms in \<open>simp add: handleSubscribe_def history_bounded_def\<close>)
  next
    case False
    let ?req = "req\<lparr>rq_payload := []\<rparr>"
    have eq: "handleSubscribe env i req s = handlePublish env i req (handleSubscribe env i ?req s)"
      using False by (simp add: handleSubscribe_def Let_def split: prod.splits)
    have "history_bounded ks (handleSubscribe env i ?req s)"
      using handleSubscribe_effect(3,4) [OF st, of ?req ?t env i] assms False
      by (simp add: history_bounded_def)
    then show ?thesis unfolding eq by (rule handlePublish_bounded)
  qed
qed

lemma relay_step_bounded: "history_bounded ks s \<Longrightarrow> history_bounded ks (relay_step env s e)"
proof (cases e)
  case (Recv i req)
  assume b: "history_bounded ks s"
  have "store (snd (verifyRequestMAC env i req s)) = store s"
    by (auto simp: verifyRequestMAC_def Let_def split: sum.splits bool.splits)
  then have "history_bounded ks (snd (verifyRequestMAC env i req s))"
    using b by (simp add: history_bounded_def)
  then show ?thesis using b
    by (auto simp: Recv tunnel_recv_def handlePublish_bounded handleSubscribe_bounded
        history_bounded_cong [OF store_prims(2)] split: prod.splits bool.splits)
next
  case (Write i sent)
  assume b: "history_bounded ks s"
  have "store (writer_step i sent s) = store s"
    by (auto simp: writer_step_def Let_def split: prod.splits recv_outcome.splits)
  then show ?thesis using b by (simp add: Write history_bounded_def)
qed (auto simp: open_tunnel_def tunnel_end_def history_bounded_def)

interpretation bounded: invariant_machine "relay_step env" "history_bounded ks" for env ks
  by unfold_locales (rule relay_step_bounded)

lemma fresh_server:
  assumes "redis_reliable ks rdb" and "\<And>r. ks (snd (rd_ping rdb r)) = ks r" and "keys_of ks rdb = Map.empty"
    and "NewServer key ttl rdb = Inr s0"
  shows "store_ok ks (store s0)" and "topic_history ks (store s0) t = []" and "srv_key s0 = key" and "sessions s0 = (\<lambda>_. new_session)"
proof -
  obtain c where c: "rcall rd_ping rdb = (None, c)" and s0: "store s0 = \<lparr>st_client = c, st_ttl = int64 (ttl * 1000000000)\<rparr>"
      "srv_key s0 = key" "sessions s0 = (\<lambda>_. new_session)"
    using assms(4) by (auto simp: NewServer_def NewRedisStore_def split: sum.splits prod.splits option.splits)
  have "redis_reliable ks c" "keys_of ks c = Map.empty"
    using c assms(1,2,3) by (auto simp: rcall_expand keys_of_def)
  then show "store_ok ks (store s0)" "topic_history ks (store s0) t = []" "srv_key s0 = key" "sessions s0 = (\<lambda>_. new_session)"
    by (auto simp: s0 store_ok_def topic_history_def stored_list_def is_list_key_def list_at_def List.map_filter_def)
qed

text \<open>
  C20. Starting from an empty Redis, no topic's history ever exceeds 100 messages.
\<close>

theorem reachable_history_bounded:
  assumes "redis_reliable ks rdb" and "\<And>r. ks (snd (rd_ping rdb r)) = ks r" and "keys_of ks rdb = Map.empty"
    and "NewServer key ttl rdb = Inr s0"
  shows "length (topic_history ks (store (foldl (relay_step env) s0 es)) t) \<le> 100"
proof -
  have "history_bounded ks s0" using fresh_server [OF assms] by (simp add: history_bounded_def)
  then have "history_bounded ks (foldl (relay_step env) s0 es)" by (rule bounded.run_inv)
  then show ?thesis by (simp add: history_bounded_def)
qed

theorem reachable_history_bounded_witness:
  "\<exists>s0. NewServer ''k'' 20 (mem_redis Map.empty) = Inr s0
    \<and> length (topic_history id (store (foldl (relay_step demo_env) s0 [OpenTunnel, Recv 0 demo_request])) ''t'') \<le> 100"
proof -
  obtain s0 where s0: "NewServer ''k'' 20 (mem_redis Map.empty) = Inr s0" using demo_start by blast
  have "id (snd (rd_ping (mem_redis Map.empty) r)) = id r" for r
    by (simp add: mem_redis_def)
  from reachable_history_bounded [OF mem_redis_reliable this keys_of_mem_redis s0]
  show ?thesis using s0 by blast
qed

end
