(* ===== verification/RelayRace.thy ===== *)
theory RelayRace
  imports RelayDelivery
begin

text \<open>
  The relay runs one goroutine per stream, so a publish and a subscribe interleave. Here one goroutine
  runs \<^verbatim>\<open>handleSubscribe\<close> and another \<^verbatim>\<open>handlePublish\<close> on the same topic, each a program counter over the same
  parts that the sequential handlers are composed of; a step of the race moves one of them by one part.
  Run without interruption the parts are the handlers. Then: what every interleaving guarantees, and
  the interleaving in which the subscriber misses the message.
\<close>

section \<open>The two goroutines\<close>

record race_conf =
  rc_env :: relay_env
  rc_topic :: string
  rc_sub :: sid
  rc_sub_sender :: string
  rc_pub :: sid
  rc_pub_sender :: string
  rc_payload :: bytes

datatype sub_pc = SOpen | SLeave | SMark | SFetch | SJoin "storedMsg list" | SReplay "storedMsg list"
  | SFetch2 "storedMsg list" | SCatchUp "storedMsg list" "storedMsg list" | SUnmark | SDone

datatype pub_pc = PCheck | PSnap | PStore "sid list" | PDeliver "sid list" | PClear | PDone

fun sub_step :: "race_conf \<Rightarrow> 'r server \<times> sub_pc \<Rightarrow> 'r server \<times> sub_pc" where
  "sub_step cf (s, SOpen) = (subscribe_open (rc_topic cf) s, SLeave)"
| "sub_step cf (s, SLeave) = (subscribe_leave (rc_sub cf) (rc_topic cf) s, SMark)"
| "sub_step cf (s, SMark) = (set_replaying (rc_sub cf) True s, SFetch)"
| "sub_step cf (s, SFetch) = (case fetch_history (rc_topic cf) s of (hist, s') \<Rightarrow> (s', SJoin hist))"
| "sub_step cf (s, SJoin hist) = (addToTopic (rc_topic cf) (rc_sub cf) s, SReplay hist)"
| "sub_step cf (s, SReplay hist) = (replay (rc_sub cf) (rc_sub_sender cf) (rc_topic cf) hist s, SFetch2 hist)"
| "sub_step cf (s, SFetch2 hist) =
     (case fetch_history (rc_topic cf) s of (hist2, s') \<Rightarrow> (s', SCatchUp hist hist2))"
| "sub_step cf (s, SCatchUp hist hist2) =
     (replay (rc_sub cf) (rc_sub_sender cf) (rc_topic cf) (catch_up hist hist2) s, SUnmark)"
| "sub_step cf (s, SUnmark) = (set_replaying (rc_sub cf) False s, SDone)"
| "sub_step cf (s, SDone) = (s, SDone)"

fun pub_step :: "race_conf \<Rightarrow> 'r server \<times> pub_pc \<Rightarrow> 'r server \<times> pub_pc" where
  "pub_step cf (s, PCheck) =
     (case topicExists (rc_topic cf) s of
        (True, s') \<Rightarrow> (s', PSnap)
      | (False, s') \<Rightarrow> (sendError (rc_pub cf) PermissionDenied ''topic does not exist; subscribe first'' (rc_topic cf) s', PDone))"
| "pub_step cf (s, PSnap) = (s, PStore (publish_recipients (rc_env cf) (rc_topic cf) s))"
| "pub_step cf (s, PStore subs) =
     ((if is_terminal (rc_env cf) (rc_payload cf) then s
       else publish_store (rc_topic cf) (rc_payload cf) (rc_pub_sender cf) s), PDeliver subs)"
| "pub_step cf (s, PDeliver (j # subs)) = (deliver (rc_pub cf) (rc_topic cf) (rc_payload cf) j s, PDeliver subs)"
| "pub_step cf (s, PDeliver []) = (s, PClear)"
| "pub_step cf (s, PClear) =
     ((if is_terminal (rc_env cf) (rc_payload cf) then publish_clear (rc_topic cf) s else s), PDone)"
| "pub_step cf (s, PDone) = (s, PDone)"

text \<open>An interleaving is a step relation over the shared server and the two program counters.\<close>

inductive race :: "race_conf \<Rightarrow> 'r server \<times> sub_pc \<times> pub_pc \<Rightarrow> 'r server \<times> sub_pc \<times> pub_pc \<Rightarrow> bool"
  for cf where
  sub_moves: "sub_step cf (s, a) = (s', a') \<Longrightarrow> race cf (s, a, b) (s', a', b)"
| pub_moves: "pub_step cf (s, b) = (s', b') \<Longrightarrow> race cf (s, a, b) (s', a, b')"

inductive_cases raceE: "race cf (s, a, b) r"

text \<open>A schedule says which goroutine moves next.\<close>

fun run_schedule :: "race_conf \<Rightarrow> bool list \<Rightarrow> 'r server \<times> sub_pc \<times> pub_pc \<Rightarrow> 'r server \<times> sub_pc \<times> pub_pc" where
  "run_schedule cf [] r = r"
| "run_schedule cf (True # w) (s, a, b) = (case sub_step cf (s, a) of (s', a') \<Rightarrow> run_schedule cf w (s', a', b))"
| "run_schedule cf (False # w) (s, a, b) = (case pub_step cf (s, b) of (s', b') \<Rightarrow> run_schedule cf w (s', a, b'))"

lemma run_schedule_race: "(race cf)\<^sup>*\<^sup>* r (run_schedule cf w r)"
proof (induction cf w r rule: run_schedule.induct)
  case (2 cf w s a b)
  then show ?case
    by (auto split: prod.split intro: converse_rtranclp_into_rtranclp race.sub_moves)
next
  case (3 cf w s a b)
  then show ?case
    by (auto split: prod.split intro: converse_rtranclp_into_rtranclp race.pub_moves)
qed simp

section \<open>Run alone, the goroutines are the handlers\<close>

lemma sub_alone:
  assumes "rq_topic req = rc_topic cf" "rq_sender req = rc_sub_sender cf" "rq_payload req = []"
    and "rc_topic cf \<noteq> []"
  shows "run_schedule cf (replicate 9 True) (s, SOpen, b)
      = (handleSubscribe env (rc_sub cf) req s, SDone, b)"
  using assms by (simp add: numeral_eq_Suc handleSubscribe_def Let_def split: prod.splits)

lemma pub_delivers:
  "run_schedule cf (replicate (length subs) False) (s, a, PDeliver subs)
     = (fold (deliver (rc_pub cf) (rc_topic cf) (rc_payload cf)) subs s, a, PDeliver [])"
  by (induction subs arbitrary: s) auto

lemma run_schedule_append:
  "run_schedule cf (v @ w) r = run_schedule cf w (run_schedule cf v r)"
  by (induction cf v r rule: run_schedule.induct) (auto split: prod.split)


definition demo_race :: race_conf where
  "demo_race = \<lparr>rc_env = demo_env, rc_topic = ''t'', rc_sub = 2, rc_sub_sender = ''b'', rc_pub = 0,
     rc_pub_sender = ''a'', rc_payload = ''hello''\<rparr>"


section \<open>The lost message\<close>

text \<open>
  C11. There is an interleaving after which both goroutines have finished without an error and the subscriber is
  in the topic's bucket and no longer replaying, the message is in the topic's history, and yet it was never
  put into the subscriber's queue: it was stored after the catch-up fetch and its live delivery was skipped
  because the subscriber was still marked as replaying.
\<close>

theorem subscriber_can_miss_message:
  "\<exists>s. (race demo_race)\<^sup>*\<^sup>* (demo_server, SOpen, PCheck) (s, SDone, PDone)
    \<and> subscribed s ''t'' 2 \<and> \<not> replaying (sessions s 2)
    \<and> map sm_payload (topic_history id (store s) ''t'') = [''hello'']
    \<and> ch_buf (sendQ (sessions s 2)) = []"
proof -
  let ?w = "replicate 7 True @ replicate 8 False @ replicate 2 True"
  let ?r = "run_schedule demo_race ?w (demo_server, SOpen, PCheck)"
  have "snd ?r = (SDone, PDone) \<and> subscribed (fst ?r) ''t'' 2 \<and> \<not> replaying (sessions (fst ?r) 2)
    \<and> map sm_payload (topic_history id (store (fst ?r)) ''t'') = [''hello''] \<and> ch_buf (sendQ (sessions (fst ?r) 2)) = []"
    by code_simp
  then show ?thesis
    using run_schedule_race [of demo_race "(demo_server, SOpen, PCheck)" ?w]
    by (metis prod.collapse)
qed

section \<open>What every interleaving guarantees\<close>

text \<open>
  The invariant of the race for a store in order whose topic starts with the history \<open>h0\<close>: the history is
  \<open>h0\<close>, or \<open>h0\<close> and the message once the publisher has stored it; a fetched history is one of the two; and the
  subscriber's queue has room for what either goroutine may still put into it.
\<close>

definition race_msg :: "race_conf \<Rightarrow> storedMsg" where
  "race_msg cf = \<lparr>sm_topic = rc_topic cf, sm_payload = rc_payload cf, sm_sender = rc_pub_sender cf\<rparr>"

definition sub_queue :: "race_conf \<Rightarrow> 'r server \<Rightarrow> relay_response chan" where
  "sub_queue cf s = sendQ (sessions s (rc_sub cf))"

definition got_message :: "race_conf \<Rightarrow> 'r server \<Rightarrow> bool" where
  "got_message cf s \<longleftrightarrow> event_response (rc_topic cf) (rc_payload cf) \<in> set (ch_buf (sub_queue cf s))"

fun sub_need :: "nat \<Rightarrow> sub_pc \<Rightarrow> nat" where
  "sub_need n (SFetch2 hist) = Suc n - length hist"
| "sub_need n (SCatchUp hist hist2) = length hist2 - length hist"
| "sub_need n SUnmark = 0"
| "sub_need n SDone = 0"
| "sub_need n _ = Suc n"

fun pub_need :: "sid \<Rightarrow> pub_pc \<Rightarrow> nat" where
  "pub_need i (PStore subs) = count_list subs i"
| "pub_need i (PDeliver subs) = count_list subs i"
| "pub_need i PClear = 0"
| "pub_need i PDone = 0"
| "pub_need i _ = 1"

fun fetched_ok :: "storedMsg list \<Rightarrow> storedMsg list \<Rightarrow> sub_pc \<Rightarrow> bool" where
  "fetched_ok h0 h1 (SJoin hist) = (hist = h0 \<or> hist = h1)"
| "fetched_ok h0 h1 (SReplay hist) = (hist = h0 \<or> hist = h1)"
| "fetched_ok h0 h1 (SFetch2 hist) = (hist = h0 \<or> hist = h1)"
| "fetched_ok h0 h1 (SCatchUp hist hist2) = ((hist = h0 \<or> hist = h1) \<and> (hist2 = h0 \<or> hist2 = h1))"
| "fetched_ok h0 h1 _ = True"

definition before_store :: "pub_pc \<Rightarrow> bool" where
  "before_store b \<longleftrightarrow> (case b of PCheck \<Rightarrow> True | PSnap \<Rightarrow> True | PStore _ \<Rightarrow> True | _ \<Rightarrow> False)"

definition race_inv :: "('r \<Rightarrow> keyspace) \<Rightarrow> race_conf \<Rightarrow> storedMsg list \<Rightarrow> 'r server \<Rightarrow> sub_pc \<Rightarrow> pub_pc \<Rightarrow> bool" where
  "race_inv ks cf h0 s a b \<longleftrightarrow>
     (let h = topic_history ks (store s) (rc_topic cf); h1 = h0 @ [race_msg cf] in
      store_ok ks (store s) \<and> server_ok s \<and> rc_sub cf < next_sid s
      \<and> (h = h0 \<or> h = h1) \<and> (before_store b \<longrightarrow> h = h0) \<and> fetched_ok h0 h1 a
      \<and> \<not> ch_closed (sub_queue cf s)
      \<and> length (ch_buf (sub_queue cf s)) + sub_need (length h0) a + pub_need (rc_sub cf) b \<le> ch_cap (sub_queue cf s))"

text \<open>The conditions under which the race is looked at.\<close>

definition race_conf_ok :: "race_conf \<Rightarrow> storedMsg list \<Rightarrow> bool" where
  "race_conf_ok cf h0 \<longleftrightarrow> map_order_ok (rc_env cf) \<and> rc_topic cf \<noteq> [] \<and> rc_payload cf \<noteq> []
     \<and> rc_pub cf \<noteq> rc_sub cf \<and> rc_sub_sender cf \<noteq> rc_pub_sender cf
     \<and> \<not> is_terminal (rc_env cf) (rc_payload cf) \<and> length h0 < 100"

text \<open>Putting responses into the subscriber's queue while there is room appends them.\<close>

lemma sub_queue_prims [simp]:
  "sub_queue cf (set_store rs s) = sub_queue cf s"
  "sub_queue cf (set_replaying i b s) = sub_queue cf s"
  "sub_queue cf (ensureTopicBucket t s) = sub_queue cf s"
  "sub_queue cf (addToTopic t i s) = sub_queue cf s"
  "sub_queue cf (publish_store t p u s) = sub_queue cf s"
  "sub_queue cf (subscribe_leave i t s) = sub_queue cf s"
  by (auto simp: sub_queue_def set_replaying_def leave_sessions)

lemma sub_queue_enqueues:
  assumes "\<not> ch_closed (sub_queue cf s)"
    and "length (ch_buf (sub_queue cf s)) + length rs \<le> ch_cap (sub_queue cf s)"
  shows "sub_queue cf (fold (tryEnqueue (rc_sub cf)) rs s) = (sub_queue cf s)\<lparr>ch_buf := ch_buf (sub_queue cf s) @ rs\<rparr>"
  using enqueue_all [of "sessions s (rc_sub cf)" rs] assms by (simp add: sub_queue_def)

lemma length_replayed: "length (replayed u t ms) \<le> length ms"
  by (simp add: replayed_def)

lemma length_catch_up: "length (catch_up hist hist2) = length hist2 - length hist"
  by (simp add: catch_up_def)

lemma race_inv_sub:
  assumes inv: "race_inv ks cf h0 s a b" and cf: "race_conf_ok cf h0" and st: "sub_step cf (s, a) = (s', a')"
  shows "race_inv ks cf h0 s' a' b \<and> (got_message cf s \<longrightarrow> got_message cf s')
    \<and> topic_history ks (store s') (rc_topic cf) = topic_history ks (store s) (rc_topic cf)"
proof -
  let ?t = "rc_topic cf" and ?q = "sub_queue cf s"
  have st0: "store_ok ks (store s)" and ok: "server_ok s" and nx: "rc_sub cf < next_sid s"
    using inv by (auto simp: race_inv_def Let_def)
  note inv' = inv [unfolded race_inv_def Let_def]
  have same: ?thesis if "sub_queue cf s' = sub_queue cf s" "store_ok ks (store s')"
      "topic_history ks (store s') ?t = topic_history ks (store s) ?t"
      "fetched_ok h0 (h0 @ [race_msg cf]) a'" "sub_need (length h0) a' \<le> sub_need (length h0) a"
      "server_ok s'" "next_sid s' = next_sid s"
    using that inv' by (auto simp: race_inv_def got_message_def Let_def)
  have enq: "?thesis" if "s' = replay (rc_sub cf) u ?t ms s" "fetched_ok h0 (h0 @ [race_msg cf]) a'"
      "sub_need (length h0) a' + length ms \<le> sub_need (length h0) a" for u ms
  proof -
    let ?rs = "replayed u ?t ms"
    have "length (ch_buf ?q) + length ?rs \<le> ch_cap ?q"
      using inv' that(3) length_replayed [of u ?t ms] by linarith
    then have "sub_queue cf s' = ?q\<lparr>ch_buf := ch_buf ?q @ ?rs\<rparr>"
      using inv' by (simp add: that(1) replay_eq sub_queue_enqueues)
    then show ?thesis using inv' that length_replayed [of u ?t ms] replay_ok [OF ok]
      by (auto simp: race_inv_def got_message_def Let_def)
  qed
  obtain f where f: "fetch_history ?t s = (topic_history ks (store s) ?t, f)"
    "store_ok ks (store f)" "topic_history ks (store f) = topic_history ks (store s)"
    "sessions f = sessions s"
    using fetch_history_effect [OF st0, of ?t] by blast
  have f': "server_ok f" "next_sid f = next_sid s"
    using fetch_history_ok [OF ok, of ?t] next_sid_fetch [of ?t s] by (simp_all add: f)
  show ?thesis
  proof (cases a)
    case SOpen
    with st show ?thesis using subscribe_open_effect [OF st0, of ?t] subscribe_open_ok [OF ok, of ?t]
      by (intro same) (auto simp: sub_queue_def)
  next
    case SLeave
    with st show ?thesis using st0 subscribe_leave_ok [OF ok] by (intro same) auto
  next
    case SMark
    with st show ?thesis using st0 ok by (intro same) auto
  next
    case SFetch
    with st show ?thesis using inv' f f' by (intro same) (auto simp: sub_queue_def)
  next
    case (SJoin hist)
    with st show ?thesis using inv' st0 cf by (intro same) (auto simp: addToTopic_ok race_conf_ok_def)
  next
    case (SReplay hist)
    with st inv' show ?thesis by (intro enq [of "rc_sub_sender cf" hist]) auto
  next
    case (SFetch2 hist)
    with st show ?thesis using inv' f f' by (intro same) (auto simp: sub_queue_def)
  next
    case (SCatchUp hist hist2)
    with st inv' show ?thesis
      by (intro enq [of "rc_sub_sender cf" "catch_up hist hist2"]) (auto simp: length_catch_up)
  next
    case SUnmark
    with st show ?thesis using st0 ok by (intro same) auto
  next
    case SDone
    with st show ?thesis using st0 ok by (intro same) auto
  qed
qed

lemma count_list_distinct: "distinct xs \<Longrightarrow> count_list xs x \<le> Suc 0"
  by (induction xs) (auto simp: count_list_0_iff)

lemma race_inv_pub:
  assumes inv: "race_inv ks cf h0 s a b" and cf: "race_conf_ok cf h0" and st: "pub_step cf (s, b) = (s', b')"
  shows "race_inv ks cf h0 s' a b' \<and> (got_message cf s \<longrightarrow> got_message cf s')
    \<and> (topic_history ks (store s) (rc_topic cf) = h0 @ [race_msg cf] \<longrightarrow>
       topic_history ks (store s') (rc_topic cf) = h0 @ [race_msg cf])"
proof -
  let ?t = "rc_topic cf" and ?q = "sub_queue cf s"
  have st0: "store_ok ks (store s)" and ok: "server_ok s" using inv by (auto simp: race_inv_def Let_def)
  note inv' = inv [unfolded race_inv_def Let_def]
  have same: ?thesis if "sub_queue cf s' = sub_queue cf s" "store_ok ks (store s')"
      "topic_history ks (store s') ?t = topic_history ks (store s) ?t"
      "before_store b' \<longrightarrow> before_store b" "pub_need (rc_sub cf) b' \<le> pub_need (rc_sub cf) b"
      "server_ok s'" "next_sid s' = next_sid s"
    using that inv' by (auto simp: race_inv_def got_message_def Let_def)
  show ?thesis
  proof (cases b)
    case PCheck
    obtain e s1 where e: "topicExists ?t s = (e, s1)" by (cases "topicExists ?t s")
    have s1: "sessions s1 = sessions s" "next_sid s1 = next_sid s" "store_ok ks (store s1)"
        "topic_history ks (store s1) = topic_history ks (store s)" "server_ok s1"
      using topicExists_frame [of ?t s] topicExists_store [OF st0, of ?t] topicExists_ok [OF ok, of ?t]
      by (simp_all add: e)
    have "sub_queue cf (sendError (rc_pub cf) c m ?t s1) = sub_queue cf s" for c m
      using cf s1 by (simp add: race_conf_ok_def sub_queue_def sendError_def tryEnqueue_def)
    moreover have "sub_queue cf s1 = sub_queue cf s" using s1 by (simp add: sub_queue_def)
    ultimately show ?thesis using PCheck st e s1
      by (intro same) (auto simp: before_store_def split: bool.splits)
  next
    case PSnap
    have "distinct (publish_recipients (rc_env cf) ?t s)"
      using recipients_subscribed(1) ok cf by (auto simp: race_conf_ok_def)
    with PSnap st st0 ok show ?thesis
      by (intro same) (auto simp: before_store_def count_list_distinct)
  next
    case (PStore subs)
    have h: "topic_history ks (store s) ?t = h0" using inv' by (simp add: PStore before_store_def)
    have s': "s' = publish_store ?t (rc_payload cf) (rc_pub_sender cf) s" "b' = PDeliver subs"
      using st cf by (auto simp: PStore race_conf_ok_def)
    have "topic_history ks (store s') ?t = h0 @ [race_msg cf]" "store_ok ks (store s')"
      using rstore.store_below [OF st0, of ?t "rc_payload cf" "rc_pub_sender cf"] cf h
        rstore.store_invar [OF st0, of ?t "rc_payload cf" "rc_pub_sender cf"]
      by (simp_all add: s' publish_store_def race_msg_def race_conf_ok_def)
    then show ?thesis using inv' s' PStore ok
      by (auto simp: race_inv_def got_message_def before_store_def Let_def)
  next
    case (PDeliver subs)
    show ?thesis
    proof (cases subs)
      case Nil
      with PDeliver st st0 ok show ?thesis by (intro same) (auto simp: before_store_def)
    next
      case (Cons j js)
      have s': "s' = deliver (rc_pub cf) ?t (rc_payload cf) j s" "b' = PDeliver js"
        using st by (auto simp: PDeliver Cons)
      show ?thesis
      proof (cases "j = rc_sub cf \<and> \<not> replaying (sessions s j)")
        case False
        then have "sub_queue cf s' = sub_queue cf s"
          by (auto simp: s' sub_queue_def deliver_sessions)
        with s' st0 ok show ?thesis by (intro same) (auto simp: PDeliver Cons before_store_def)
      next
        case True
        have "length (ch_buf ?q) < ch_cap ?q" using inv' True by (simp add: PDeliver Cons)
        then have "sub_queue cf s' = ?q\<lparr>ch_buf := ch_buf ?q @ [event_response ?t (rc_payload cf)]\<rparr>"
          using True inv' cf
          by (auto simp: s' sub_queue_def deliver_sessions enqueue_session_def try_send_def race_conf_ok_def)
        then show ?thesis using inv' True s' ok
          by (auto simp: race_inv_def got_message_def before_store_def PDeliver Cons Let_def)
      qed
    qed
  next
    case PClear
    with st st0 ok cf show ?thesis by (intro same) (auto simp: before_store_def race_conf_ok_def)
  next
    case PDone
    with st st0 ok show ?thesis by (intro same) (auto simp: before_store_def)
  qed
qed

lemma race_inv_step:
  assumes "race cf (s, a, b) (s', a', b')" and "race_inv ks cf h0 s a b" and "race_conf_ok cf h0"
  shows "race_inv ks cf h0 s' a' b'"
  using assms(1) by (cases rule: raceE) (auto dest: race_inv_sub [OF assms(2,3)] race_inv_pub [OF assms(2,3)])

lemma race_inv_reach:
  assumes "(race cf)\<^sup>*\<^sup>* (s, a, b) (s', a', b')" and "race_inv ks cf h0 s a b" and "race_conf_ok cf h0"
  shows "race_inv ks cf h0 s' a' b'"
  using assms(1)
proof (induction "(s', a', b')" arbitrary: s' a' b' rule: rtranclp_induct)
  case base
  with assms(2) show ?case by simp
next
  case (step y)
  then show ?case by (cases y) (auto intro: race_inv_step assms(3))
qed

text \<open>
  What the subscriber has by way of the replay. With \<open>fl\<close> the message was stored before the catch-up
  fetch, and then it is on its way to the subscriber.
\<close>

definition on_course :: "('r \<Rightarrow> keyspace) \<Rightarrow> race_conf \<Rightarrow> storedMsg list \<Rightarrow> bool \<Rightarrow> 'r server \<Rightarrow> sub_pc \<Rightarrow> pub_pc \<Rightarrow> bool" where
  "on_course ks cf h0 fl s a b \<longleftrightarrow> race_inv ks cf h0 s a b
     \<and> (fl \<longrightarrow> topic_history ks (store s) (rc_topic cf) = h0 @ [race_msg cf])
     \<and> (case a of
          SFetch2 hist \<Rightarrow> hist = h0 \<or> got_message cf s
        | SCatchUp hist hist2 \<Rightarrow> (fl \<longrightarrow> hist2 = h0 @ [race_msg cf]) \<and> (hist = h0 \<or> got_message cf s)
        | SUnmark \<Rightarrow> fl \<longrightarrow> got_message cf s
        | SDone \<Rightarrow> fl \<longrightarrow> got_message cf s
        | _ \<Rightarrow> True)"

lemma replay_got:
  assumes "race_conf_ok cf h0" and "\<not> ch_closed (sub_queue cf s)"
    and "length (ch_buf (sub_queue cf s)) + length ms \<le> ch_cap (sub_queue cf s)"
    and "race_msg cf \<in> set ms"
  shows "got_message cf (replay (rc_sub cf) (rc_sub_sender cf) (rc_topic cf) ms s)"
proof -
  let ?rs = "replayed (rc_sub_sender cf) (rc_topic cf) ms"
  have "length (ch_buf (sub_queue cf s)) + length ?rs \<le> ch_cap (sub_queue cf s)"
    using assms(3) length_replayed [of "rc_sub_sender cf" "rc_topic cf" ms] by linarith
  moreover have "event_response (rc_topic cf) (rc_payload cf) \<in> set ?rs"
    using assms(1,4) by (force simp: replayed_def race_msg_def race_conf_ok_def)
  ultimately show ?thesis
    using sub_queue_enqueues [OF assms(2), of ?rs] by (simp add: got_message_def replay_eq)
qed

lemma on_course_sub:
  assumes st: "sub_step cf (s, a) = (s', a')" and oc: "on_course ks cf h0 fl s a b" and cf: "race_conf_ok cf h0"
  shows "on_course ks cf h0 fl s' a' b"
proof -
  have inv: "race_inv ks cf h0 s a b" using oc by (simp add: on_course_def)
  note sub = race_inv_sub [OF inv cf st]
  have open': "\<not> ch_closed (sub_queue cf s)"
    and room: "length (ch_buf (sub_queue cf s)) + sub_need (length h0) a \<le> ch_cap (sub_queue cf s)"
    and fetched: "fetched_ok h0 (h0 @ [race_msg cf]) a"
    using inv by (auto simp: race_inv_def Let_def)
  have st0: "store_ok ks (store s)" using inv by (simp add: race_inv_def Let_def)
  obtain f where f: "fetch_history (rc_topic cf) s = (topic_history ks (store s) (rc_topic cf), f)"
    using fetch_history_effect [OF st0, of "rc_topic cf"] by blast
  show ?thesis
  proof (cases a)
    case (SReplay hist)
    have "got_message cf s'" if "hist = h0 @ [race_msg cf]"
      using replay_got [OF cf open', of hist] st room that by (auto simp: SReplay)
    then show ?thesis using sub st oc fetched by (auto simp: SReplay on_course_def)
  next
    case (SFetch2 hist)
    then show ?thesis using sub st oc f by (auto simp: on_course_def)
  next
    case (SCatchUp hist hist2)
    have "got_message cf s'" if "hist = h0" "fl"
      using replay_got [OF cf open', of "catch_up hist hist2"] st room that oc
      by (auto simp: SCatchUp on_course_def length_catch_up) (auto simp: catch_up_def)
    then show ?thesis using sub st oc by (auto simp: SCatchUp on_course_def)
  next
    case SOpen
    then show ?thesis using sub st oc by (auto simp: on_course_def)
  next
    case SLeave
    then show ?thesis using sub st oc by (auto simp: on_course_def)
  next
    case SMark
    then show ?thesis using sub st oc by (auto simp: on_course_def)
  next
    case SFetch
    then show ?thesis using sub st oc f by (auto simp: on_course_def)
  next
    case (SJoin hist)
    then show ?thesis using sub st oc by (auto simp: on_course_def)
  next
    case SUnmark
    have "fl \<longrightarrow> got_message cf s" "a' = SDone" using oc st by (simp_all add: on_course_def SUnmark)
    then show ?thesis using sub oc by (simp add: on_course_def)
  next
    case SDone
    have "s' = s" "a' = a" using st by (simp_all add: SDone)
    then show ?thesis using oc by simp
  qed
qed

lemma on_course_pub:
  assumes st: "pub_step cf (s, b) = (s', b')" and oc: "on_course ks cf h0 fl s a b" and cf: "race_conf_ok cf h0"
  shows "on_course ks cf h0 fl s' a b'"
proof -
  have inv: "race_inv ks cf h0 s a b" using oc by (simp add: on_course_def)
  show ?thesis using race_inv_pub [OF inv cf st] oc by (auto simp: on_course_def split: sub_pc.splits)
qed

lemma race_iff:
  "race cf (s, a, b) (s', a', b') \<longleftrightarrow>
     b' = b \<and> sub_step cf (s, a) = (s', a') \<or> a' = a \<and> pub_step cf (s, b) = (s', b')"
  by (auto elim: raceE intro: race.intros)

lemma on_course_reach:
  assumes "(race cf)\<^sup>*\<^sup>* r r'" and "race_conf_ok cf h0"
  shows "(case r of (s, a, b) \<Rightarrow> on_course ks cf h0 fl s a b) \<Longrightarrow> (case r' of (s, a, b) \<Rightarrow> on_course ks cf h0 fl s a b)"
  using assms(1)
proof (induction rule: rtranclp_induct)
  case (step y z)
  then show ?case
    using on_course_sub [OF _ _ assms(2)] on_course_pub [OF _ _ assms(2)]
    by (cases y; cases z) (auto simp: race_iff)
qed

fun before_catch_up_fetch :: "sub_pc \<Rightarrow> bool" where
  "before_catch_up_fetch (SCatchUp hist hist2) = False"
| "before_catch_up_fetch SUnmark = False"
| "before_catch_up_fetch SDone = False"
| "before_catch_up_fetch _ = True"


definition race_mid :: "keyspace server \<times> sub_pc \<times> pub_pc" where
  "race_mid = run_schedule demo_race ([True] @ replicate 3 False @ replicate 5 True) (demo_server, SOpen, PCheck)"

definition race_end :: "keyspace server \<times> sub_pc \<times> pub_pc" where
  "race_end = run_schedule demo_race (replicate 5 True) race_mid"


end
