(* ===== verification/Subscriber.thy ===== *)
theory Subscriber
  imports RelayServer
begin

text \<open>
  \<^verbatim>\<open>internal/subscriber\<close>: the client's side of the relay. A \<^verbatim>\<open>Session\<close> holds one topic over one stream at a
  time: callers put requests into \<^verbatim>\<open>sendQ\<close>, the goroutine \<^verbatim>\<open>writerPump\<close> of the current stream sends them, and
  \<^verbatim>\<open>tunnelLoop\<close> dials, subscribes, reads and reconnects. Here the loop is a program counter, each goroutine
  moves by a step function whose arguments are what gRPC answers and which ready case a \<^verbatim>\<open>select\<close> picks, and
  \<open>attempts\<close> is the trace of the calls of \<^verbatim>\<open>stream.Send\<close>.
\<close>

section \<open>State\<close>

type_synonym stream_id = nat

datatype rpc_error = EOF | Status code | PlainError error

datatype loop_pc = NotStarted | Dialing nat | Subscribing nat stream_id | Reading nat stream_id
  | Sleeping nat | Exited

datatype pump = NoPump | Pumping | PumpCancelled | PumpExited

record client_session =
  cl_topic :: string
  cl_ticket :: bytes
  cl_senderID :: string
  cl_closed :: bool
  cl_cancelled :: bool
  cl_sendQ :: "relay_request chan"
  cl_stream :: "stream_id option"
  cl_next :: stream_id
  cl_loop :: loop_pc
  cl_pumps :: "stream_id \<Rightarrow> pump"
  cl_handler :: bool
  attempts :: "(stream_id \<times> relay_request) list"
  received :: "bytes list"

definition NewSession :: "string \<Rightarrow> bytes \<Rightarrow> string \<Rightarrow> client_session" where
  "NewSession topic ticket senderID = \<lparr>cl_topic = topic, cl_ticket = ticket, cl_senderID = senderID,
     cl_closed = False, cl_cancelled = False, cl_sendQ = make_chan 256, cl_stream = None, cl_next = 0,
     cl_loop = NotStarted, cl_pumps = (\<lambda>_. NoPump), cl_handler = False, attempts = [], received = []\<rparr>"

text \<open>Milliseconds.\<close>

definition retryBackoff :: "nat list" where
  "retryBackoff = [0, 500, 1000, 2000, 5000]"

section \<open>Building a request\<close>

definition client_mac_data :: "enum32 \<Rightarrow> string \<Rightarrow> bytes \<Rightarrow> bytes" where
  "client_mac_data reqType topic payload = [char_of (unat reqType)] @ topic @ payload"

text \<open>\<^verbatim>\<open>dia.CreateMessageMAC\<close> is the argument \<open>mk\<close> (token, data).\<close>

definition buildMacTicket ::
  "(bytes \<Rightarrow> bytes \<Rightarrow> bytes result) \<Rightarrow> client_session \<Rightarrow> enum32 \<Rightarrow> string \<Rightarrow> bytes \<Rightarrow> bytes \<Rightarrow> bytes result" where
  "buildMacTicket mk s reqType topic payload token0 =
     (let token = (if length token0 = 0 then cl_ticket s else token0) in
      if length token < macTokenPreimageLen then Inl ''ticket too short''
      else (case mk token (client_mac_data reqType topic payload) of
              Inl e \<Rightarrow> Inl e
            | Inr mac \<Rightarrow> Inr (take macTokenPreimageLen token @ mac)))"

definition build_request ::
  "(bytes \<Rightarrow> bytes \<Rightarrow> bytes result) \<Rightarrow> client_session \<Rightarrow> enum32 \<Rightarrow> string \<Rightarrow> bytes \<Rightarrow> bytes \<Rightarrow> relay_request result" where
  "build_request mk s ty topic payload token =
     (case buildMacTicket mk s ty topic payload token of
        Inl e \<Rightarrow> Inl e
      | Inr t \<Rightarrow> Inr \<lparr>rq_sender = cl_senderID s, rq_type = ty, rq_topic = topic, rq_payload = payload, rq_ticket = t\<rparr>)"

section \<open>The callers' operations\<close>

datatype api_outcome = Returned | Failed error | Blocks | Panics

text \<open>
  \<^verbatim>\<open>enqueue\<close>: the check of \<^verbatim>\<open>closed\<close>, then the \<^verbatim>\<open>select\<close>; \<open>pick\<close> says which case it takes when both are ready. A send
  on the closed queue is ready, and panics.
\<close>

definition enqueue_select :: "bool \<Rightarrow> relay_request \<Rightarrow> client_session \<Rightarrow> api_outcome \<times> client_session" where
  "enqueue_select pick req s =
     (let q = cl_sendQ s; send_ready = (ch_closed q \<or> length (ch_buf q) < ch_cap q) in
      if send_ready \<and> (pick \<or> \<not> cl_cancelled s)
      then (case try_send req q of
              (Sent, q') \<Rightarrow> (Returned, s\<lparr>cl_sendQ := q'\<rparr>)
            | (_, q') \<Rightarrow> (Panics, s))
      else if cl_cancelled s then (Failed ''context canceled'', s)
      else (Blocks, s))"

definition enqueue :: "bool \<Rightarrow> relay_request \<Rightarrow> client_session \<Rightarrow> api_outcome \<times> client_session" where
  "enqueue pick req s =
     (if cl_closed s then (Failed ''session closed'', s) else enqueue_select pick req s)"

definition Send :: "(bytes \<Rightarrow> bytes \<Rightarrow> bytes result) \<Rightarrow> bool \<Rightarrow> bytes \<Rightarrow> client_session \<Rightarrow> api_outcome \<times> client_session" where
  "Send mk pick payload s =
     (if cl_closed s then (Failed ''session closed'', s)
      else if length payload = 0 then (Failed ''empty payload'', s)
      else (case build_request mk s PUBLISH (cl_topic s) payload (cl_ticket s) of
              Inl e \<Rightarrow> (Failed e, s)
            | Inr req \<Rightarrow> enqueue pick req s))"

text \<open>\<^verbatim>\<open>SendImmediate\<close>; \<open>sent\<close> is what \<^verbatim>\<open>stream.Send\<close> returns.\<close>

definition SendImmediate ::
  "(bytes \<Rightarrow> bytes \<Rightarrow> bytes result) \<Rightarrow> unit result \<Rightarrow> bool \<Rightarrow> bytes \<Rightarrow> client_session \<Rightarrow> api_outcome \<times> client_session" where
  "SendImmediate mk sent pick payload s =
     (if cl_closed s then (Failed ''session closed'', s)
      else if length payload = 0 then (Failed ''empty payload'', s)
      else (case build_request mk s PUBLISH (cl_topic s) payload (cl_ticket s) of
              Inl e \<Rightarrow> (Failed e, s)
            | Inr req \<Rightarrow>
               (case cl_stream s of
                  Some st \<Rightarrow> (case sent of Inl e \<Rightarrow> Failed e | Inr _ \<Rightarrow> Returned, s\<lparr>attempts := attempts s @ [(st, req)]\<rparr>)
                | None \<Rightarrow> enqueue pick req s)))"

definition SendToTopic ::
  "(bytes \<Rightarrow> bytes \<Rightarrow> bytes result) \<Rightarrow> bool \<Rightarrow> string \<Rightarrow> bytes \<Rightarrow> bytes \<Rightarrow> client_session \<Rightarrow> api_outcome \<times> client_session" where
  "SendToTopic mk pick topic payload ticket s =
     (if cl_closed s then (Failed ''session closed'', s)
      else if topic = [] \<or> length payload = 0 then (Failed ''missing topic or payload'', s)
      else (case build_request mk s PUBLISH topic payload ticket of
              Inl e \<Rightarrow> (Failed e, s)
            | Inr req \<Rightarrow> enqueue pick req s))"

definition SubscribeToNewTopicWithPayload ::
  "(bytes \<Rightarrow> bytes \<Rightarrow> bytes result) \<Rightarrow> bool \<Rightarrow> string \<Rightarrow> bytes \<Rightarrow> bytes \<Rightarrow> client_session \<Rightarrow> api_outcome \<times> client_session" where
  "SubscribeToNewTopicWithPayload mk pick newTopic payload ticket s =
     (if cl_closed s then (Failed ''session closed'', s)
      else if newTopic = [] then (Failed ''empty topic'', s)
      else if length ticket = 0 then (Failed ''missing ticket'', s)
      else (case build_request mk s SUBSCRIBE newTopic payload ticket of
              Inl e \<Rightarrow> (Failed e, s)
            | Inr req \<Rightarrow> enqueue pick req (s\<lparr>cl_topic := newTopic\<rparr>)))"

definition Start :: "client_session \<Rightarrow> client_session" where
  "Start s = (if cl_closed s then s else s\<lparr>cl_handler := True, cl_loop := Dialing 0\<rparr>)"

text \<open>\<^verbatim>\<open>Close\<close>, up to its waiting for the goroutines.\<close>

definition Close :: "client_session \<Rightarrow> client_session" where
  "Close s = (if cl_closed s then s
     else s\<lparr>cl_closed := True, cl_cancelled := True, cl_sendQ := close_chan (cl_sendQ s)\<rparr>)"

section \<open>The goroutines\<close>

definition transient :: "rpc_error \<Rightarrow> client_session \<Rightarrow> bool" where
  "transient err s =
     (if cl_cancelled s then False
      else case err of
        Status c \<Rightarrow> c = Unavailable \<or> c = ResourceExhausted \<or> c = Canceled \<or> c = DeadlineExceeded
      | _ \<Rightarrow> True)"

text \<open>How long \<^verbatim>\<open>sleepBackoff\<close> waits, and where the loop is when it begins to.\<close>

definition backoff_ms :: "nat \<Rightarrow> nat" where
  "backoff_ms idx = retryBackoff ! (if idx \<ge> length retryBackoff then length retryBackoff - 1 else idx)"

definition begin_sleep :: "nat \<Rightarrow> client_session \<Rightarrow> client_session" where
  "begin_sleep idx s = s\<lparr>cl_loop := (if cl_cancelled s then Exited else Sleeping idx)\<rparr>"

definition retry_or_exit :: "rpc_error \<Rightarrow> nat \<Rightarrow> client_session \<Rightarrow> client_session" where
  "retry_or_exit err idx s =
     (if transient err s then begin_sleep idx s else s\<lparr>cl_loop := Exited\<rparr>)"

datatype loop_event =
    DialResult "rpc_error option"
  | SubscribeSent "rpc_error option"
  | RecvResult "relay_response option + rpc_error"
  | BackoffOver
  | ContextDone

text \<open>\<^verbatim>\<open>tunnelLoop\<close>, one call at a time; an event that the loop is not waiting for changes nothing.\<close>

fun loop_step :: "(bytes \<Rightarrow> bytes \<Rightarrow> bytes result) \<Rightarrow> loop_event \<Rightarrow> client_session \<Rightarrow> client_session" where
  "loop_step mk ev s = (case cl_loop s of
     Dialing idx \<Rightarrow>
       (if cl_cancelled s then s\<lparr>cl_loop := Exited\<rparr>
        else case ev of
          DialResult (Some err) \<Rightarrow> retry_or_exit err idx s
        | DialResult None \<Rightarrow>
            s\<lparr>cl_stream := Some (cl_next s), cl_next := Suc (cl_next s), cl_loop := Subscribing idx (cl_next s)\<rparr>
        | _ \<Rightarrow> s)
   | Subscribing idx st \<Rightarrow>
       (case build_request mk s SUBSCRIBE (cl_topic s) [] (cl_ticket s) of
          Inl e \<Rightarrow> retry_or_exit (PlainError e) idx s
        | Inr sub \<Rightarrow>
           (case ev of
              SubscribeSent res \<Rightarrow>
               (let s1 = s\<lparr>attempts := attempts s @ [(st, sub)]\<rparr> in
                case res of
                  Some err \<Rightarrow> retry_or_exit err idx s1
                | None \<Rightarrow> s1\<lparr>cl_pumps := (cl_pumps s1)(st := Pumping), cl_loop := Reading 0 st\<rparr>)
            | _ \<Rightarrow> s))
   | Reading idx st \<Rightarrow>
       (case ev of
          RecvResult (Inl None) \<Rightarrow> s
        | RecvResult (Inl (Some resp)) \<Rightarrow>
            (if rp_type resp = EVENT \<and> cl_handler s then s\<lparr>received := received s @ [rp_payload resp]\<rparr> else s)
        | RecvResult (Inr err) \<Rightarrow>
           (let s1 = s\<lparr>cl_pumps := (cl_pumps s)(st := (if cl_pumps s st = Pumping then PumpCancelled else cl_pumps s st))\<rparr> in
            case err of
              Status c \<Rightarrow> if c = Canceled \<or> c = DeadlineExceeded then s1\<lparr>cl_loop := Exited\<rparr> else begin_sleep idx s1
            | _ \<Rightarrow> begin_sleep idx s1)
        | _ \<Rightarrow> s)
   | Sleeping idx \<Rightarrow>
       (case ev of
          BackoffOver \<Rightarrow> s\<lparr>cl_loop := Dialing (Suc idx)\<rparr>
        | ContextDone \<Rightarrow> (if cl_cancelled s then s\<lparr>cl_loop := Exited\<rparr> else s)
        | _ \<Rightarrow> s)
   | _ \<Rightarrow> s)"

text \<open>
  \<^verbatim>\<open>writerPump\<close>: one round of the pump of a stream. Its context is done once the stream has ended or the
  session is cancelled; \<open>pick\<close> says whether the \<^verbatim>\<open>select\<close> takes that case, \<open>ok\<close> whether \<^verbatim>\<open>stream.Send\<close> succeeds.
\<close>

definition fill_request :: "client_session \<Rightarrow> relay_request \<Rightarrow> relay_request" where
  "fill_request s req =
     (let r1 = (if rq_sender req = [] then req\<lparr>rq_sender := cl_senderID s\<rparr> else req)
      in if rq_type r1 = PUBLISH \<and> rq_topic r1 = [] then r1\<lparr>rq_topic := cl_topic s\<rparr> else r1)"

definition set_pump :: "stream_id \<Rightarrow> pump \<Rightarrow> client_session \<Rightarrow> client_session" where
  "set_pump st p s = s\<lparr>cl_pumps := (cl_pumps s)(st := p)\<rparr>"

definition pump_step :: "stream_id \<Rightarrow> bool \<Rightarrow> bool \<Rightarrow> client_session \<Rightarrow> client_session" where
  "pump_step st pick ok s =
     (if cl_pumps s st \<noteq> Pumping \<and> cl_pumps s st \<noteq> PumpCancelled then s
      else if pick \<and> (cl_cancelled s \<or> cl_pumps s st = PumpCancelled) then set_pump st PumpExited s
      else (case recv (cl_sendQ s) of
              (Received req, q) \<Rightarrow>
                (let s1 = s\<lparr>cl_sendQ := q, attempts := attempts s @ [(st, fill_request s req)]\<rparr>
                 in if ok then s1 else set_pump st PumpExited s1)
            | (RecvClosed, q) \<Rightarrow> set_pump st PumpExited s
            | (RecvBlocks, q) \<Rightarrow> s))"

section \<open>The controller\<close>

text \<open>What \<^verbatim>\<open>NewController\<close> asks of the DIA library's call state.\<close>

record call_view =
  cv_topic :: "string result"
  cv_ticket :: "bytes result"
  cv_sender :: "string result"

record controller_config =
  RelayServerAddr :: string
  UseTLS :: bool
  InitialTopic :: string
  InitialTicket :: bytes

text \<open>
  \<^verbatim>\<open>internal/subscriber/client.go\<close>: the options of the gRPC connection, which \<open>grpc\<close> (\<^verbatim>\<open>grpc.NewClient\<close>) only sets up. Times are
  nanoseconds, sizes bytes; \<open>'o\<close> are options of the caller.
\<close>

datatype 'o dial_option = WithSystemTLS | WithPlaintext | WithKeepalive int int bool | WithMessageSizes int int | ExtraOption 'o

record 'c relay_client =
  rc_addr :: string
  rc_conn :: 'c

definition NewRelayClient :: "(string \<Rightarrow> 'o dial_option list \<Rightarrow> 'c result) \<Rightarrow> string \<Rightarrow> bool \<Rightarrow> 'o list \<Rightarrow> 'c relay_client result" where
  "NewRelayClient grpc addr useTLS extraOpts =
     (let creds = (if useTLS then WithSystemTLS else WithPlaintext);
          opts = [creds, WithKeepalive (5 * 60 * 10 ^ 9) (20 * 10 ^ 9) False,
                  WithMessageSizes (4 * 1024 * 1024) (4 * 1024 * 1024)] @ map ExtraOption extraOpts
      in case grpc addr opts of Inl e \<Rightarrow> Inl e | Inr c \<Rightarrow> Inr \<lparr>rc_addr = addr, rc_conn = c\<rparr>)"

text \<open>The result's second part says whether the client that was made is closed again.\<close>

definition NewController ::
  "(string \<Rightarrow> unit dial_option list \<Rightarrow> 'c result) \<Rightarrow> call_view option \<Rightarrow> controller_config option \<Rightarrow> client_session result \<times> bool" where
  "NewController grpc callState cfg0 =
     (case (callState, cfg0) of
        (Some v, Some cfg) \<Rightarrow>
         (case NewRelayClient grpc (RelayServerAddr cfg) (UseTLS cfg) [] of
            Inl e \<Rightarrow> (Inl e, False)
          | Inr _ \<Rightarrow>
           (case (if InitialTopic cfg = [] then cv_topic v else Inr (InitialTopic cfg)) of
              Inl e \<Rightarrow> (Inl (''failed to get current topic: '' @ e), True)
            | Inr topic \<Rightarrow>
           (case (if length (InitialTicket cfg) = 0 then cv_ticket v else Inr (InitialTicket cfg)) of
              Inl e \<Rightarrow> (Inl (''failed to get ticket: '' @ e), True)
            | Inr ticket \<Rightarrow>
           (case cv_sender v of
              Inl e \<Rightarrow> (Inl (''failed to get sender ID: '' @ e), True)
            | Inr senderID \<Rightarrow> (Inr (NewSession topic ticket senderID), False)))))
      | _ \<Rightarrow> (Inl ''callState and config are required'', False))"

end
