(* ===== verification/SubscriberProps.thy ===== *)
theory SubscriberProps
  imports Subscriber RelayDelivery "HOL-Library.Sublist"
begin

text \<open>
  What the subscriber's session guarantees: its requests pass the relay's MAC check, its frames reach a stream in
  the order in which they were queued, a stream begins with a SUBSCRIBE, a closed session dials no
  more, and the backoff of the reconnects; and where the goroutines get into each other's way.
\<close>

section \<open>Runs of a session\<close>

datatype client_event =
    CSend bool bytes
  | CSendImmediate "unit result" bool bytes
  | CSendToTopic bool string bytes bytes
  | CSubscribe bool string bytes bytes
  | CStart
  | CClose
  | CLoop loop_event
  | CPump stream_id bool bool

fun client_step :: "(bytes \<Rightarrow> bytes \<Rightarrow> bytes result) \<Rightarrow> client_session \<Rightarrow> client_event \<Rightarrow> client_session" where
  "client_step mk s (CSend pick payload) = snd (Send mk pick payload s)"
| "client_step mk s (CSendImmediate sent pick payload) = snd (SendImmediate mk sent pick payload s)"
| "client_step mk s (CSendToTopic pick topic payload ticket) = snd (SendToTopic mk pick topic payload ticket s)"
| "client_step mk s (CSubscribe pick topic payload ticket) =
     snd (SubscribeToNewTopicWithPayload mk pick topic payload ticket s)"
| "client_step mk s CStart = (if cl_loop s = NotStarted then Start s else s)"
| "client_step mk s CClose = Close s"
| "client_step mk s (CLoop ev) = loop_step mk ev s"
| "client_step mk s (CPump st pick ok) = pump_step st pick ok s"

abbreviation client_run :: "(bytes \<Rightarrow> bytes \<Rightarrow> bytes result) \<Rightarrow> client_session \<Rightarrow> client_event list \<Rightarrow> client_session" where
  "client_run mk s es \<equiv> foldl (client_step mk) s es"

declare loop_step.simps [simp del]

lemmas loop_defs = loop_step.simps retry_or_exit_def begin_sleep_def

lemmas api_defs = Send_def SendImmediate_def SendToTopic_def SubscribeToNewTopicWithPayload_def enqueue_def
  enqueue_select_def try_send_def Let_def

section \<open>The session's invariant\<close>

text \<open>
  The queue is closed exactly when the session is, a closed session is cancelled, the queue keeps its
  bound, and a stream's pump runs only once the loop has sent its SUBSCRIBE.
\<close>

definition client_ok :: "client_session \<Rightarrow> bool" where
  "client_ok s \<longleftrightarrow> (ch_closed (cl_sendQ s) \<longleftrightarrow> cl_closed s) \<and> (cl_closed s \<longrightarrow> cl_cancelled s)
     \<and> chan_ok (cl_sendQ s) \<and> ch_cap (cl_sendQ s) = 256"

lemma client_ok_new: "client_ok (NewSession t k u)"
  by (simp add: client_ok_def NewSession_def make_chan_def chan_ok_def)

lemma enqueue_select_ok: "client_ok s \<Longrightarrow> \<not> cl_closed s \<Longrightarrow> client_ok (snd (enqueue_select p r s))"
  by (auto simp: client_ok_def enqueue_select_def try_send_def chan_ok_def Let_def)

lemma loop_step_frame [simp]:
  "cl_sendQ (loop_step mk ev s) = cl_sendQ s" "cl_closed (loop_step mk ev s) = cl_closed s"
  "cl_cancelled (loop_step mk ev s) = cl_cancelled s" "cl_topic (loop_step mk ev s) = cl_topic s"
  "cl_ticket (loop_step mk ev s) = cl_ticket s" "cl_senderID (loop_step mk ev s) = cl_senderID s"
  by (auto simp: loop_defs Let_def split: loop_pc.splits loop_event.splits option.splits sum.splits rpc_error.splits)

lemma pump_step_ok: "client_ok s \<Longrightarrow> client_ok (pump_step st p ok s)"
  by (auto simp: client_ok_def pump_step_def set_pump_def recv_def chan_ok_def Let_def split: list.splits)

lemma client_step_ok: "client_ok s \<Longrightarrow> client_ok (client_step mk s e)"
proof (cases e)
  case (CSubscribe p t b k)
  assume "client_ok s"
  then have "client_ok (s\<lparr>cl_topic := t\<rparr>)" by (simp add: client_ok_def)
  with CSubscribe \<open>client_ok s\<close> show ?thesis
    by (auto simp: SubscribeToNewTopicWithPayload_def enqueue_def enqueue_select_ok split: sum.splits)
qed (auto simp: Send_def SendImmediate_def SendToTopic_def enqueue_def enqueue_select_ok pump_step_ok
    split: sum.splits option.splits, auto simp: client_ok_def Start_def Close_def close_chan_def chan_ok_def)

interpretation client: invariant_machine "client_step mk" client_ok for mk
  by unfold_locales (rule client_step_ok)

section \<open>The client's requests pass the relay's check\<close>

text \<open>
  What is documented of the DIA library: a MAC made with a valid token has 32 bytes, and the relay's key
  verifies it against the token's first 32 bytes and the same data.
\<close>

definition token_valid :: "(bytes \<Rightarrow> bytes \<Rightarrow> bytes result) \<Rightarrow> relay_env \<Rightarrow> bytes \<Rightarrow> bytes \<Rightarrow> bool" where
  "token_valid mk env key token \<longleftrightarrow> (\<forall>data mac. mk token data = Inr mac \<longrightarrow>
     length mac = macLen \<and> VerifyMessageMAC env key (take macTokenPreimageLen token) data mac = Inr True)"

lemma built_request_verifies:
  assumes "token_valid mk env (srv_key srv) (if length token = 0 then cl_ticket s else token)"
    and "build_request mk s ty topic payload token = Inr req"
  shows "verifyRequestMAC env i req srv = (True, srv)"
proof -
  let ?tok = "if length token = 0 then cl_ticket s else token"
  obtain mac where mac: "mk ?tok (client_mac_data ty topic payload) = Inr mac" "macTokenPreimageLen \<le> length ?tok"
    "req = \<lparr>rq_sender = cl_senderID s, rq_type = ty, rq_topic = topic, rq_payload = payload,
       rq_ticket = take macTokenPreimageLen ?tok @ mac\<rparr>"
    using assms(2)
    by (auto simp: build_request_def buildMacTicket_def Let_def not_less split: sum.splits if_splits)
  have data: "macDataForReq req = client_mac_data ty topic payload"
    by (simp add: mac(3) macDataForReq_def mac_data_def client_mac_data_def)
  have "length mac = macLen" "VerifyMessageMAC env (srv_key srv) (take macTokenPreimageLen ?tok)
      (client_mac_data ty topic payload) mac = Inr True"
    using assms(1) mac(1) by (auto simp: token_valid_def)
  moreover have "take macTokenPreimageLen (rq_ticket req) = take macTokenPreimageLen ?tok"
    "drop macTokenPreimageLen (rq_ticket req) = mac" "length (rq_ticket req) = macTokenPreimageLen + length mac"
    using mac(2,3) by simp_all
  moreover have "macTokenPreimageLen + macLen \<noteq> 0" by (simp add: macLen_def)
  ultimately show ?thesis
    by (simp only: verifyRequestMAC_def data Let_def) simp
qed

lemma fill_request_topic: "rq_topic req \<noteq> [] \<Longrightarrow> fill_request s req = req\<lparr>rq_sender := rq_sender (fill_request s req)\<rparr>"
  by (simp add: fill_request_def Let_def)

lemma verify_ignores_sender: "verifyRequestMAC env i (req\<lparr>rq_sender := u\<rparr>) srv = verifyRequestMAC env i req srv"
proof -
  have "macDataForReq (req\<lparr>rq_sender := u\<rparr>) = macDataForReq req" by (simp add: macDataForReq_def)
  then show ?thesis by (simp add: verifyRequestMAC_def Let_def)
qed

text \<open>
  C17. A payload that \<^verbatim>\<open>Send\<close> accepts becomes the last frame of the queue, addressed to the session's topic, and
  the relay accepts the frame's MAC ticket as the pump sends it, whatever else the session has done in
  between: client and server build the same MAC data and split the ticket at the same place.
\<close>

theorem sent_request_passes_relay:
  assumes "token_valid mk env key (cl_ticket s)" and "cl_topic s \<noteq> []"
    and "Send mk pick payload s = (Returned, s')"
  shows "\<exists>req. ch_buf (cl_sendQ s') = ch_buf (cl_sendQ s) @ [req] \<and> rq_type req = PUBLISH
    \<and> rq_topic req = cl_topic s \<and> rq_payload req = payload
    \<and> (\<forall>srv i later. srv_key srv = key \<longrightarrow> verifyRequestMAC env i (fill_request later req) srv = (True, srv))"
proof -
  obtain req where req: "build_request mk s PUBLISH (cl_topic s) payload (cl_ticket s) = Inr req"
    "enqueue pick req s = (Returned, s')"
    using assms(3) by (auto simp: Send_def split: if_splits sum.splits)
  have fields: "rq_type req = PUBLISH" "rq_topic req = cl_topic s" "rq_payload req = payload"
    using req(1) by (auto simp: build_request_def split: sum.splits)
  have "ch_buf (cl_sendQ s') = ch_buf (cl_sendQ s) @ [req]"
    using req(2) by (auto simp: enqueue_def enqueue_select_def try_send_def Let_def split: if_splits)
  moreover have "verifyRequestMAC env i (fill_request later req) srv = (True, srv)" if "srv_key srv = key" for srv i later
    using built_request_verifies [of mk env srv "cl_ticket s" s, OF _ req(1)] assms(1,2) that fields
    by (subst fill_request_topic) (simp_all add: verify_ignores_sender)
  ultimately show ?thesis using fields by blast
qed

definition demo_mk :: "bytes \<Rightarrow> bytes \<Rightarrow> bytes result" where
  "demo_mk token data = Inr (replicate 32 (CHR ''m''))"

definition demo_client :: client_session where
  "demo_client = NewSession ''t'' (replicate 40 (CHR ''k'')) ''a''"

theorem sent_request_passes_relay_witness:
  "\<exists>req. ch_buf (cl_sendQ (snd (Send demo_mk True ''hi'' demo_client))) = ch_buf (cl_sendQ demo_client) @ [req]
    \<and> rq_type req = PUBLISH \<and> rq_topic req = ''t'' \<and> rq_payload req = ''hi''
    \<and> (\<forall>srv i later. srv_key srv = ''k'' \<longrightarrow> verifyRequestMAC demo_env i (fill_request later req) srv = (True, srv))"
proof -
  have "token_valid demo_mk demo_env ''k'' (cl_ticket demo_client)"
    by (simp add: token_valid_def demo_mk_def demo_env_def macLen_def)
  moreover have "fst (Send demo_mk True ''hi'' demo_client) = Returned" by code_simp
  then have "Send demo_mk True ''hi'' demo_client = (Returned, snd (Send demo_mk True ''hi'' demo_client))"
    by (metis prod.collapse)
  ultimately show ?thesis
    using sent_request_passes_relay [of demo_mk demo_env "''k''" demo_client True "''hi''"]
    by (simp add: demo_client_def NewSession_def)
qed

text \<open>
  The MAC does not bind the boundary between topic and payload: a request that passes also passes with any
  first part of its payload moved to the end of its topic, under the same ticket.
\<close>

lemma mac_does_not_bind_topic:
  "fst (verifyRequestMAC env i (req\<lparr>rq_topic := rq_topic req @ take k (rq_payload req),
       rq_payload := drop k (rq_payload req)\<rparr>) srv) = fst (verifyRequestMAC env i req srv)"
  by (simp add: verifyRequestMAC_def macDataForReq_def mac_data_def Let_def split: sum.split bool.split)

section \<open>The queue of frames\<close>

text \<open>The frames that a run puts into the queue: what each event of a caller appends to it.\<close>

fun queued :: "(bytes \<Rightarrow> bytes \<Rightarrow> bytes result) \<Rightarrow> client_session \<Rightarrow> client_event list \<Rightarrow> relay_request list" where
  "queued mk s [] = []"
| "queued mk s (e # es) =
     (case e of CPump _ _ _ \<Rightarrow> []
      | _ \<Rightarrow> drop (length (ch_buf (cl_sendQ s))) (ch_buf (cl_sendQ (client_step mk s e))))
     @ queued mk (client_step mk s e) es"

text \<open>The payloads that were handed to streams since a state.\<close>

definition handed_over :: "client_session \<Rightarrow> client_session \<Rightarrow> bytes list" where
  "handed_over s s' = map (\<lambda>(st, r). rq_payload r) (drop (length (attempts s)) (attempts s'))"

lemma enqueue_buf:
  "\<exists>x. ch_buf (cl_sendQ (snd (enqueue p r s))) = ch_buf (cl_sendQ s) @ x \<and> attempts (snd (enqueue p r s)) = attempts s"
  by (auto simp: enqueue_def enqueue_select_def try_send_def Let_def)

lemma client_step_queue:
  assumes "\<forall>st p ok. e \<noteq> CPump st p ok"
  shows "\<exists>x y. ch_buf (cl_sendQ (client_step mk s e)) = ch_buf (cl_sendQ s) @ x
    \<and> attempts (client_step mk s e) = attempts s @ y"
proof (cases e)
  case (CSend p b)
  then show ?thesis using enqueue_buf by (auto simp: Send_def split: sum.splits)
next
  case (CSendImmediate r p b)
  then show ?thesis using enqueue_buf
    by (auto simp: SendImmediate_def split: sum.splits option.splits)
next
  case (CSendToTopic p t b k)
  then show ?thesis using enqueue_buf by (auto simp: SendToTopic_def split: sum.splits)
next
  case (CSubscribe p t b k)
  then show ?thesis using enqueue_buf [of p _ "s\<lparr>cl_topic := t\<rparr>"]
    by (auto simp: SubscribeToNewTopicWithPayload_def split: sum.splits)
next
  case (CLoop ev)
  then show ?thesis
    by (auto simp: loop_defs Let_def split: loop_pc.splits loop_event.splits option.splits sum.splits rpc_error.splits)
qed (use assms in \<open>auto simp: Start_def Close_def close_chan_def\<close>)

lemma rq_payload_fill [simp]: "rq_payload (fill_request s r) = rq_payload r"
  by (simp add: fill_request_def Let_def)

lemma pump_step_queue:
  "(ch_buf (cl_sendQ (pump_step st p ok s)) = ch_buf (cl_sendQ s) \<and> attempts (pump_step st p ok s) = attempts s)
   \<or> (\<exists>r rs. ch_buf (cl_sendQ s) = r # rs \<and> ch_buf (cl_sendQ (pump_step st p ok s)) = rs
        \<and> attempts (pump_step st p ok s) = attempts s @ [(st, fill_request s r)])"
  by (auto simp: pump_step_def set_pump_def recv_def Let_def split: list.splits)

text \<open>
  C19. Frames reach a stream in the order in which they were queued, each once and none overtaking or
  skipping another: over any run of any goroutines, what was in the queue and what was put into it is what has
  left it followed by what it still holds, and the payloads of what has left it are a subsequence of the
  payloads handed to streams.
\<close>

theorem frames_leave_in_order:
  "\<exists>left. ch_buf (cl_sendQ s) @ queued mk s es = left @ ch_buf (cl_sendQ (client_run mk s es))
    \<and> subseq (map rq_payload left) (handed_over s (client_run mk s es))
    \<and> (\<exists>new. attempts (client_run mk s es) = attempts s @ new)"
proof (induction es arbitrary: s)
  case Nil
  then show ?case by (simp add: handed_over_def)
next
  case (Cons e es)
  let ?s1 = "client_step mk s e"
  obtain left new where IH: "ch_buf (cl_sendQ ?s1) @ queued mk ?s1 es = left @ ch_buf (cl_sendQ (client_run mk ?s1 es))"
    "subseq (map rq_payload left) (handed_over ?s1 (client_run mk ?s1 es))"
    "attempts (client_run mk ?s1 es) = attempts ?s1 @ new"
    using Cons.IH [of ?s1] by blast
  have sub: "subseq (map rq_payload left) (map (\<lambda>(st, r). rq_payload r) new)"
    using IH(2,3) by (simp add: handed_over_def)
  show ?case
  proof (cases "\<exists>st p ok. e = CPump st p ok")
    case False
    then obtain x y where xy: "ch_buf (cl_sendQ ?s1) = ch_buf (cl_sendQ s) @ x" "attempts ?s1 = attempts s @ y"
      using client_step_queue [of e mk s] by blast
    moreover have "queued mk s (e # es) = x @ queued mk ?s1 es"
      using False xy(1) by (cases e) simp_all
    ultimately show ?thesis
      using IH sub by (auto simp: handed_over_def intro!: exI [of _ left] list_emb_append2)
  next
    case True
    then obtain st p ok where e: "e = CPump st p ok" by blast
    from pump_step_queue [of st p ok s] show ?thesis
    proof
      assume "ch_buf (cl_sendQ (pump_step st p ok s)) = ch_buf (cl_sendQ s) \<and> attempts (pump_step st p ok s) = attempts s"
      then show ?thesis using IH by (auto simp: e handed_over_def intro: exI [of _ left])
    next
      assume "\<exists>r rs. ch_buf (cl_sendQ s) = r # rs \<and> ch_buf (cl_sendQ (pump_step st p ok s)) = rs
        \<and> attempts (pump_step st p ok s) = attempts s @ [(st, fill_request s r)]"
      then obtain r rs where "ch_buf (cl_sendQ s) = r # rs" "ch_buf (cl_sendQ ?s1) = rs"
        "attempts ?s1 = attempts s @ [(st, fill_request s r)]"
        by (auto simp: e)
      then show ?thesis using IH sub by (auto simp: e handed_over_def intro!: exI [of _ "r # left"])
    qed
  qed
qed

section \<open>Closing\<close>

lemma demo_client_ok: "client_ok demo_client"
  by (simp add: demo_client_def client_ok_new)

lemma demo_client_open [simp]: "\<not> cl_closed demo_client" "cl_next demo_client = 0"
  by (simp_all add: demo_client_def NewSession_def)

text \<open>
  A caller's \<^verbatim>\<open>enqueue\<close> that runs without interruption never sends on a closed queue. But its check of
  \<^verbatim>\<open>closed\<close> and its \<^verbatim>\<open>select\<close> are two steps: when \<^verbatim>\<open>Close\<close> comes between them, both cases of the \<^verbatim>\<open>select\<close> are ready, and the
  one that sends panics.
\<close>

lemma enqueue_close_race:
  assumes "client_ok s"
  shows "fst (enqueue pick req s) \<noteq> Panics
    \<and> (\<not> cl_closed s \<longrightarrow> fst (enqueue_select True req (Close s)) = Panics
        \<and> fst (enqueue_select False req (Close s)) = Failed ''context canceled'')"
  using assms
  by (auto simp: client_ok_def enqueue_def enqueue_select_def try_send_def Close_def close_chan_def Let_def)

lemma enqueue_close_race_example:
  "(let req = \<lparr>rq_sender = [], rq_type = PUBLISH, rq_topic = ''t'', rq_payload = ''hi'', rq_ticket = []\<rparr>
    in fst (enqueue True req demo_client) \<noteq> Panics \<and> fst (enqueue_select True req (Close demo_client)) = Panics)"
  using enqueue_close_race [OF demo_client_ok, of True "\<lparr>rq_sender = [], rq_type = PUBLISH, rq_topic = ''t'',
      rq_payload = ''hi'', rq_ticket = []\<rparr>"] demo_client_open by simp

lemma cancelled_keeps:
  "cl_cancelled s \<Longrightarrow> cl_cancelled (client_step mk s e) \<and> cl_next (client_step mk s e) = cl_next s"
proof (cases e)
  case (CLoop ev)
  assume "cl_cancelled s"
  with CLoop show ?thesis
    by (auto simp: loop_defs transient_def Let_def
        split: loop_pc.splits loop_event.splits option.splits sum.splits rpc_error.splits)
qed (auto simp: api_defs Start_def Close_def pump_step_def set_pump_def split: sum.splits option.splits prod.splits recv_outcome.splits)

lemma cancelled_run: "cl_cancelled s \<Longrightarrow> cl_cancelled (client_run mk s es) \<and> cl_next (client_run mk s es) = cl_next s"
  using cancelled_keeps by (induction es arbitrary: s) simp_all

lemma retry_or_exit_loop:
  "retry_or_exit err i t = t\<lparr>cl_loop := (if transient err t \<and> \<not> cl_cancelled t then Sleeping i else Exited)\<rparr>"
  by (simp add: retry_or_exit_def begin_sleep_def)

text \<open>Stages of a cancelled loop: each kind of failure leaves fewer places where it can be.\<close>

fun is_stage :: "nat \<Rightarrow> loop_pc \<Rightarrow> bool" where
  "is_stage n (Reading idx st) = (n \<le> 1)"
| "is_stage n (Sleeping idx) = (n \<le> 2)"
| "is_stage n Exited = True"
| "is_stage n NotStarted = True"
| "is_stage n _ = (n = 0)"

lemma cancelled_stages:
  assumes "cl_cancelled s"
  shows "is_stage 1 (cl_loop (loop_step mk (SubscribeSent (Some err)) s))"
    and "is_stage 1 (cl_loop s) \<Longrightarrow> is_stage 2 (cl_loop (loop_step mk (RecvResult (Inr err)) s))"
    and "is_stage 2 (cl_loop s) \<Longrightarrow> cl_loop (loop_step mk ContextDone s) \<in> {Exited, NotStarted}"
  using assms
  by (cases "cl_loop s"; simp add: loop_step.simps retry_or_exit_loop transient_def begin_sleep_def Let_def
      split: sum.split rpc_error.split; fail)+

lemma cancelled_loop_ends:
  assumes "cl_cancelled s"
  shows "cl_loop (client_run mk s [CLoop (SubscribeSent (Some err)), CLoop (RecvResult (Inr err')), CLoop ContextDone])
    \<in> {Exited, NotStarted}"
  using cancelled_stages(3) [OF _ cancelled_stages(2) [OF _ cancelled_stages(1) [OF assms]]] assms by simp

lemma close_cancels: "client_ok s \<Longrightarrow> cl_cancelled (Close s)" "cl_next (Close s) = cl_next s"
  by (auto simp: client_ok_def Close_def)



section \<open>What a stream carries first\<close>

definition frames :: "client_session \<Rightarrow> stream_id \<Rightarrow> relay_request list" where
  "frames s st = map snd (filter (\<lambda>(i, r). i = st) (attempts s))"

definition subscribe_first :: "client_session \<Rightarrow> bool" where
  "subscribe_first s \<longleftrightarrow>
     (\<forall>st. (frames s st \<noteq> [] \<longrightarrow> rq_type (hd (frames s st)) = SUBSCRIBE)
        \<and> (frames s st = [] \<longrightarrow> cl_pumps s st = NoPump)
        \<and> (cl_next s \<le> st \<longrightarrow> frames s st = []))
   \<and> (\<forall>idx st. cl_loop s = Subscribing idx st \<longrightarrow> frames s st = [] \<and> st < cl_next s)"

lemma frames_cong: "attempts s' = attempts s \<Longrightarrow> frames s' = frames s"
  by (simp add: frames_def fun_eq_iff)

lemma subscribe_firstD:
  assumes "subscribe_first s"
  shows "cl_pumps s st \<noteq> NoPump \<Longrightarrow> frames s st \<noteq> []" "frames s st \<noteq> [] \<Longrightarrow> st < cl_next s"
  using assms by (auto simp: subscribe_first_def not_le [symmetric])

lemma subscribe_first_cong:
  assumes "subscribe_first s" and "attempts s' = attempts s" "cl_next s' = cl_next s"
    and "\<And>j. cl_pumps s' j \<noteq> NoPump \<Longrightarrow> cl_pumps s j \<noteq> NoPump"
    and "\<And>idx st. cl_loop s' = Subscribing idx st \<Longrightarrow> cl_loop s = Subscribing idx st"
  shows "subscribe_first s'"
  using assms(1,3-5) frames_cong [OF assms(2)] by (auto simp: subscribe_first_def)

lemma subscribe_first_snoc:
  assumes "subscribe_first s" and att: "attempts s' = attempts s @ [(st, r)]" and "cl_next s' = cl_next s"
    and "st < cl_next s" and "frames s st = [] \<Longrightarrow> rq_type r = SUBSCRIBE"
    and "\<And>j. j \<noteq> st \<Longrightarrow> cl_pumps s' j \<noteq> NoPump \<Longrightarrow> cl_pumps s j \<noteq> NoPump"
    and "\<And>i j. cl_loop s' = Subscribing i j \<Longrightarrow> cl_loop s = Subscribing i j \<and> j \<noteq> st"
  shows "subscribe_first s'"
proof -
  have "frames s' j = frames s j @ (if j = st then [r] else [])" for j
    by (auto simp: frames_def att)
  moreover have "cl_pumps s' j = NoPump" if "j \<noteq> st" "cl_pumps s j = NoPump" for j
    using assms(6) that by blast
  ultimately show ?thesis using assms(1,3-5,7) by (auto simp: subscribe_first_def hd_append)
qed

lemma subscribe_first_set_loop:
  "subscribe_first s \<Longrightarrow> \<forall>i j. p \<noteq> Subscribing i j \<Longrightarrow> subscribe_first (s\<lparr>cl_loop := p\<rparr>)"
  by (erule subscribe_first_cong) auto

lemma subscribe_first_loop:
  assumes sf: "subscribe_first s"
  shows "subscribe_first (loop_step mk ev s)"
proof (cases "cl_loop s")
  case (Dialing idx)
  have "subscribe_first (s\<lparr>cl_stream := Some (cl_next s), cl_next := Suc (cl_next s), cl_loop := Subscribing idx (cl_next s)\<rparr>)"
    using sf by (auto simp: subscribe_first_def frames_def)
  then show ?thesis using sf
    by (simp add: loop_step.simps Dialing retry_or_exit_loop subscribe_first_set_loop split: loop_event.split option.split)
next
  case (Subscribing idx st)
  then have st: "frames s st = []" "st < cl_next s" using sf by (auto simp: subscribe_first_def)
  have sub: "rq_type r = SUBSCRIBE" if "build_request mk s SUBSCRIBE (cl_topic s) [] (cl_ticket s) = Inr r" for r
    using that by (auto simp: build_request_def split: sum.splits)
  have s1: "subscribe_first (s\<lparr>attempts := attempts s @ [(st, r)], cl_loop := p\<rparr>)"
    if "rq_type r = SUBSCRIBE" "\<forall>i j. p \<noteq> Subscribing i j" for r p
    using sf by (rule subscribe_first_snoc [of s _ st r]) (use st that in auto)
  have s2: "subscribe_first (s\<lparr>attempts := attempts s @ [(st, r)], cl_pumps := (cl_pumps s)(st := Pumping), cl_loop := Reading 0 st\<rparr>)"
    if "rq_type r = SUBSCRIBE" for r
    using sf by (rule subscribe_first_snoc [of s _ st r]) (use st that in auto)
  show ?thesis
  proof (cases "build_request mk s SUBSCRIBE (cl_topic s) [] (cl_ticket s)")
    case (Inl e)
    then show ?thesis using sf
      by (simp add: loop_step.simps Subscribing retry_or_exit_loop subscribe_first_set_loop)
  next
    case (Inr r)
    then show ?thesis using sf s1 [OF sub [OF Inr]] s2 [OF sub [OF Inr]]
      by (simp add: loop_step.simps Subscribing retry_or_exit_loop Let_def split: loop_event.split option.split)
  qed
next
  case (Reading idx st)
  have r: "subscribe_first (s\<lparr>cl_pumps := (cl_pumps s)(st := PumpCancelled), cl_loop := p\<rparr>)"
    if "\<forall>i j. p \<noteq> Subscribing i j" "cl_pumps s st = Pumping" for p
    using sf by (rule subscribe_first_cong) (auto simp: that split: if_splits)
  have "subscribe_first (s\<lparr>received := x\<rparr>)" for x
    using sf by (rule subscribe_first_cong) auto
  with r sf subscribe_first_set_loop [OF sf] show ?thesis
    by (simp add: loop_step.simps begin_sleep_def Reading Let_def
        split: sum.split loop_event.split option.split rpc_error.split)
next
  case (Sleeping idx)
  then show ?thesis using sf subscribe_first_set_loop [OF sf]
    by (simp add: loop_step.simps split: loop_event.split)
qed (use sf in \<open>auto simp: loop_step.simps\<close>)

lemma subscribe_first_pump:
  assumes sf: "subscribe_first s"
  shows "subscribe_first (pump_step st p ok s)"
proof (cases "cl_pumps s st = NoPump")
  case True
  with sf show ?thesis by (simp add: pump_step_def)
next
  case False
  note ne = subscribe_firstD(1) [OF sf False]
  have lt: "st < cl_next s" by (rule subscribe_firstD(2) [OF sf ne])
  have idle: "\<And>i j. cl_loop s = Subscribing i j \<Longrightarrow> j \<noteq> st" using sf ne by (auto simp: subscribe_first_def)
  show ?thesis
  proof (cases "attempts (pump_step st p ok s) = attempts s")
    case True
    show ?thesis using sf
      by (rule subscribe_first_cong)
        (use True False in \<open>auto simp: pump_step_def set_pump_def Let_def split: prod.splits recv_outcome.splits if_splits\<close>)
  next
    case changed: False
    then obtain r where "attempts (pump_step st p ok s) = attempts s @ [(st, r)]"
      using pump_step_queue [of st p ok s] by auto
    with sf show ?thesis
      by (rule subscribe_first_snoc)
        (use lt ne idle in \<open>auto simp: pump_step_def set_pump_def Let_def split: prod.splits recv_outcome.splits if_splits\<close>)
  qed
qed

lemma enqueue_frame [simp]:
  "cl_pumps (snd (enqueue p r s)) = cl_pumps s" "cl_loop (snd (enqueue p r s)) = cl_loop s"
  "cl_next (snd (enqueue p r s)) = cl_next s" "attempts (snd (enqueue p r s)) = attempts s"
  by (simp_all add: enqueue_def enqueue_select_def try_send_def Let_def)

lemmas api_frame_defs = Send_def SendToTopic_def SubscribeToNewTopicWithPayload_def

lemma subscribe_first_api:
  assumes "subscribe_first s" and "\<forall>r p b. e \<noteq> CSendImmediate r p b"
  shows "subscribe_first (client_step mk s e)"
proof (cases e)
  case (CLoop ev)
  then show ?thesis using assms(1) by (simp add: subscribe_first_loop)
next
  case (CPump st p ok)
  then show ?thesis using assms(1) by (simp add: subscribe_first_pump)
next
  case CStart
  show ?thesis using assms(1) by (rule subscribe_first_cong) (auto simp: CStart Start_def split: if_splits)
next
  case CClose
  show ?thesis using assms(1) by (rule subscribe_first_cong) (auto simp: CClose Close_def split: if_splits)
next
  case (CSend p b)
  show ?thesis using assms(1)
    by (rule subscribe_first_cong) (auto simp: CSend api_frame_defs split: sum.splits if_splits)
next
  case (CSendToTopic p t b k)
  show ?thesis using assms(1)
    by (rule subscribe_first_cong) (auto simp: CSendToTopic api_frame_defs split: sum.splits if_splits)
next
  case (CSubscribe p t b k)
  show ?thesis using assms(1)
    by (rule subscribe_first_cong) (auto simp: CSubscribe api_frame_defs split: sum.splits if_splits)
qed (use assms in auto)

text \<open>
  C32. Every stream of a session begins with a SUBSCRIBE, reconnects included, in any run of the callers, the
  loop and the pumps in which \<^verbatim>\<open>SendImmediate\<close> is not used.
\<close>

theorem stream_begins_with_subscribe:
  assumes "\<forall>e \<in> set es. \<forall>r p b. e \<noteq> CSendImmediate r p b"
    and "frames (client_run mk (NewSession topic ticket u) es) st \<noteq> []"
  shows "rq_type (hd (frames (client_run mk (NewSession topic ticket u) es) st)) = SUBSCRIBE"
proof -
  have "subscribe_first (NewSession topic ticket u)"
    by (simp add: subscribe_first_def frames_def NewSession_def)
  then have "subscribe_first (client_run mk (NewSession topic ticket u) es)"
    using assms(1) by (induction es rule: rev_induct) (simp_all add: subscribe_first_api)
  then show ?thesis using assms(2) by (simp add: subscribe_first_def)
qed

definition demo_events :: "client_event list" where
  "demo_events = [CStart, CSend True ''hi'', CLoop (DialResult None), CLoop (SubscribeSent None), CPump 0 False True]"

theorem stream_begins_with_subscribe_witness:
  "rq_type (hd (frames (client_run demo_mk (NewSession ''t'' (replicate 40 (CHR ''k'')) ''a'') demo_events) 0)) = SUBSCRIBE"
proof (rule stream_begins_with_subscribe)
  show "\<forall>e \<in> set demo_events. \<forall>r p b. e \<noteq> CSendImmediate r p b" by (simp add: demo_events_def)
qed code_simp

text \<open>
  With \<^verbatim>\<open>SendImmediate\<close> it is not so: the loop publishes the stream in the session before it sends its
  SUBSCRIBE, and a caller in between puts a PUBLISH on the stream first.
\<close>

lemma immediate_send_can_come_first:
  "let s = client_run demo_mk (NewSession ''t'' (replicate 40 (CHR ''k'')) ''a'')
      [CStart, CLoop (DialResult None), CSendImmediate (Inr ()) True ''hi'', CLoop (SubscribeSent None)]
   in map rq_type (frames s 0) = [PUBLISH, SUBSCRIBE]"
  by code_simp

section \<open>The backoff\<close>

lemma backoff_ms_eq: "backoff_ms n = (if n = 0 then 0 else if n = 1 then 500 else if n = 2 then 1000
    else if n = 3 then 2000 else 5000)"
  by (auto simp: backoff_ms_def retryBackoff_def nth_Cons' split: nat.splits)

text \<open>
  As long as dialing fails with transient errors, the n-th failure puts the loop into a wait of 0, 500,
  1000, 2000 and from then on 5000 milliseconds, after which it dials again; it never gives up.
\<close>

lemma dial_backoff_schedule:
  assumes "cl_loop s = Dialing 0" and "\<not> cl_cancelled s"
    and "\<And>t. cl_cancelled t = cl_cancelled s \<Longrightarrow> transient err t"
  shows "let t = client_run mk s (concat (replicate n [CLoop (DialResult (Some err)), CLoop BackoffOver])) in
    t = s\<lparr>cl_loop := Dialing n\<rparr> \<and> loop_step mk (DialResult (Some err)) t = s\<lparr>cl_loop := Sleeping n\<rparr>
    \<and> backoff_ms n = (if n = 0 then 0 else if n = 1 then 500 else if n = 2 then 1000 else if n = 3 then 2000 else 5000)"
proof -
  have st: "loop_step mk (DialResult (Some err)) (s\<lparr>cl_loop := Dialing k\<rparr>) = s\<lparr>cl_loop := Sleeping k\<rparr>" for k
    using assms(2) assms(3) [of "s\<lparr>cl_loop := Dialing k\<rparr>"] by (simp add: loop_step.simps retry_or_exit_loop)
  have bo: "loop_step mk BackoffOver (s\<lparr>cl_loop := Sleeping k\<rparr>) = s\<lparr>cl_loop := Dialing (Suc k)\<rparr>" for k
    by (simp add: loop_step.simps)
  have run: "client_run mk (s\<lparr>cl_loop := Dialing k\<rparr>) (concat (replicate n [CLoop (DialResult (Some err)), CLoop BackoffOver]))
      = s\<lparr>cl_loop := Dialing (k + n)\<rparr>" for k
    by (induction n arbitrary: k) (simp_all add: st bo)
  have "s\<lparr>cl_loop := Dialing 0\<rparr> = s" using assms(1) by (cases s) simp
  then show ?thesis using run [of 0] st [of n] by (simp add: backoff_ms_eq Let_def)
qed

lemma dial_backoff_schedule_example:
  "loop_step demo_mk (DialResult (Some EOF)) (client_run demo_mk (Start demo_client)
     (concat (replicate 7 [CLoop (DialResult (Some EOF)), CLoop BackoffOver]))) = (Start demo_client)\<lparr>cl_loop := Sleeping 7\<rparr>"
proof -
  have "cl_loop (Start demo_client) = Dialing 0" "\<not> cl_cancelled (Start demo_client)"
    by code_simp+
  then have "let t = client_run demo_mk (Start demo_client) (concat (replicate 7 [CLoop (DialResult (Some EOF)), CLoop BackoffOver])) in
    t = (Start demo_client)\<lparr>cl_loop := Dialing 7\<rparr>
    \<and> loop_step demo_mk (DialResult (Some EOF)) t = (Start demo_client)\<lparr>cl_loop := Sleeping 7\<rparr>
    \<and> backoff_ms 7 = (if (7::nat) = 0 then 0 else if (7::nat) = 1 then 500 else if (7::nat) = 2 then 1000 else if (7::nat) = 3 then 2000 else 5000)"
    by (rule dial_backoff_schedule) (simp_all add: transient_def \<open>\<not> cl_cancelled (Start demo_client)\<close>)
  then show ?thesis unfolding Let_def by blast
qed

end
