(* ===== verification/CallManager.thy ===== *)
theory CallManager
  imports DiaTypes
begin

text \<open>
  \<^verbatim>\<open>internal/sipcontroller/callmanager.go\<close>: the call sessions and the manager that finds them. A \<^verbatim>\<open>*CallSession\<close> is an
  index into the heap \<open>calls\<close>; \<open>byAttempt\<close> is an association list, because the code iterates over it (in any
  order: the argument \<open>ord\<close>), the other two maps are functions. A zero \<^verbatim>\<open>time.Time\<close> is \<^const>\<open>None\<close>, other times are
  nanoseconds; a timer is armed, has fired, or is not there. \<open>'d\<close> is the DIA library's call state and \<open>'k\<close> the
  relay connection of a session.
\<close>

section \<open>Sessions\<close>

datatype call_state = StateIdle | StateDIAInitializing | StateDIAAKEInProgress | StateDIARUAInProgress
  | StateDIAComplete | StateBaresipDialing | StateBaresipRinging | StateBaresipEstablished
  | StateODAActive | StateHangingUp | StateClosed

fun state_string :: "call_state \<Rightarrow> string" where
  "state_string StateIdle = ''Idle''"
| "state_string StateDIAInitializing = ''DIA_Initializing''"
| "state_string StateDIAAKEInProgress = ''DIA_AKE_InProgress''"
| "state_string StateDIARUAInProgress = ''DIA_RUA_InProgress''"
| "state_string StateDIAComplete = ''DIA_Complete''"
| "state_string StateBaresipDialing = ''Baresip_Dialing''"
| "state_string StateBaresipRinging = ''Baresip_Ringing''"
| "state_string StateBaresipEstablished = ''Baresip_Established''"
| "state_string StateODAActive = ''ODA_Active''"
| "state_string StateHangingUp = ''HangingUp''"
| "state_string StateClosed = ''Closed''"

datatype timer = NoTimer | Armed | Fired

record remote_party =
  rp_name :: string
  rp_phone :: string
  rp_verified :: bool
  rp_logo :: string

record ('d, 'k) call_session =
  AttemptID :: string
  CallID :: string
  AccountAOR :: string
  PeerPhone :: string
  PeerURI :: string
  PeerName :: string
  Direction :: string
  ProtocolEnabled :: bool
  DialSentAt :: "int option"
  AnsweredAt :: "int option"
  ODARequestedAt :: "int option"
  ODACompletedAt :: "int option"
  ODATimeout :: timer
  State :: call_state
  DIAComplete :: bool
  SIPEstablished :: bool
  BaselineHangupScheduled :: bool
  AnsweredResultEmitted :: bool
  ODARequestScheduled :: bool
  HangupAfterODARequested :: bool
  ODATerminalEmitted :: bool
  ODATerminalOutcome :: string
  ODATerminalError :: string
  DIAState :: "'d option"
  DIAController :: "'k option"
  RemoteParty :: "remote_party option"
  CreatedAt :: int
  DIATimeout :: timer
  LastError :: "error option"

definition NewCallSession :: "int \<Rightarrow> string \<Rightarrow> string \<Rightarrow> string \<Rightarrow> ('d, 'k) call_session" where
  "NewCallSession now peerPhone peerURI direction =
     \<lparr>AttemptID = [], CallID = [], AccountAOR = [], PeerPhone = peerPhone, PeerURI = peerURI, PeerName = [],
      Direction = direction, ProtocolEnabled = False, DialSentAt = None, AnsweredAt = None,
      ODARequestedAt = None, ODACompletedAt = None, ODATimeout = NoTimer, State = StateIdle,
      DIAComplete = False, SIPEstablished = False, BaselineHangupScheduled = False,
      AnsweredResultEmitted = False, ODARequestScheduled = False, HangupAfterODARequested = False,
      ODATerminalEmitted = False, ODATerminalOutcome = [], ODATerminalError = [], DIAState = None,
      DIAController = None, RemoteParty = None, CreatedAt = now, DIATimeout = NoTimer, LastError = None\<rparr>"

definition SetState :: "call_state \<Rightarrow> ('d, 'k) call_session \<Rightarrow> ('d, 'k) call_session" where
  "SetState st c = c\<lparr>State := st\<rparr>"

definition IsOutgoing :: "('d, 'k) call_session \<Rightarrow> bool" where
  "IsOutgoing c \<longleftrightarrow> Direction c = ''outgoing''"

definition IsIncoming :: "('d, 'k) call_session \<Rightarrow> bool" where
  "IsIncoming c \<longleftrightarrow> Direction c = ''incoming''"

definition CancelTimeout :: "('d, 'k) call_session \<Rightarrow> ('d, 'k) call_session" where
  "CancelTimeout c = c\<lparr>DIATimeout := NoTimer\<rparr>"

definition CancelODATimeout :: "('d, 'k) call_session \<Rightarrow> ('d, 'k) call_session" where
  "CancelODATimeout c = c\<lparr>ODATimeout := NoTimer\<rparr>"

definition Cleanup :: "('d, 'k) call_session \<Rightarrow> ('d, 'k) call_session" where
  "Cleanup c = (CancelODATimeout (CancelTimeout c))\<lparr>DIAController := None, DIAState := None\<rparr>"

section \<open>Phone numbers and URIs\<close>

definition TrimPrefix :: "string \<Rightarrow> string \<Rightarrow> string" where
  "TrimPrefix s p = (if take (length p) s = p then drop (length p) s else s)"

definition cut_at :: "char \<Rightarrow> string \<Rightarrow> string" where
  "cut_at c s = (case index_byte c s of Some i \<Rightarrow> take i s | None \<Rightarrow> s)"

definition is_phone_char :: "char \<Rightarrow> bool" where
  "is_phone_char c \<longleftrightarrow> is_digit c \<or> c = CHR ''+''"

definition ExtractPhoneFromURI :: "string \<Rightarrow> string" where
  "ExtractPhoneFromURI uri0 =
     (let uri1 = TrimPrefix (TrimPrefix uri0 ''sip:'') ''tel:'';
          uri2 = cut_at (CHR ''@'') uri1;
          uri3 = cut_at (CHR '';'') uri2
      in filter is_phone_char uri3)"

definition FormatSIPURI :: "string \<Rightarrow> string \<Rightarrow> string" where
  "FormatSIPURI phone domain = ''sip:'' @ phone @ ''@'' @ (if domain = [] then ''localhost'' else domain)"

section \<open>The manager\<close>

type_synonym call = nat

record ('d, 'k) call_manager =
  calls :: "call \<Rightarrow> ('d, 'k) call_session"
  next_call :: call
  attemptCounter :: "64 word"
  byAttempt :: "(string \<times> call) list"
  byCallID :: "string \<Rightarrow> call option"
  pendingByPeer :: "string \<Rightarrow> call list option"

definition NewCallManager :: "('d, 'k) call_manager" where
  "NewCallManager = \<lparr>calls = (\<lambda>_. NewCallSession 0 [] [] []), next_call = 0, attemptCounter = 0,
     byAttempt = [], byCallID = Map.empty, pendingByPeer = Map.empty\<rparr>"

definition upd_call :: "call \<Rightarrow> (('d, 'k) call_session \<Rightarrow> ('d, 'k) call_session) \<Rightarrow> ('d, 'k) call_manager \<Rightarrow> ('d, 'k) call_manager" where
  "upd_call i f m = m\<lparr>calls := (calls m)(i := f (calls m i))\<rparr>"

text \<open>Allocating a session under the next attempt's identity.\<close>

definition attempt_id :: "64 word \<Rightarrow> string" where
  "attempt_id n = ''a'' @ show_nat (unat n)"

definition new_call :: "('d, 'k) call_session \<Rightarrow> ('d, 'k) call_manager \<Rightarrow> call \<times> ('d, 'k) call_manager" where
  "new_call c m =
     (let n = attemptCounter m + 1; a = attempt_id n; i = next_call m
      in (i, m\<lparr>calls := (calls m)(i := c\<lparr>AttemptID := a\<rparr>), next_call := Suc i, attemptCounter := n,
               byAttempt := AList.update a i (byAttempt m)\<rparr>))"

definition pending :: "('d, 'k) call_manager \<Rightarrow> string \<Rightarrow> call list" where
  "pending m peer = (case pendingByPeer m peer of None \<Rightarrow> [] | Some q \<Rightarrow> q)"

definition set_pending :: "string \<Rightarrow> call list \<Rightarrow> ('d, 'k) call_manager \<Rightarrow> ('d, 'k) call_manager" where
  "set_pending peer q m = m\<lparr>pendingByPeer := (pendingByPeer m)(peer := (if q = [] then None else Some q))\<rparr>"

definition set_callid :: "string \<Rightarrow> call option \<Rightarrow> ('d, 'k) call_manager \<Rightarrow> ('d, 'k) call_manager" where
  "set_callid k v m = m\<lparr>byCallID := (byCallID m)(k := v)\<rparr>"

definition NewOutgoingAttempt ::
  "int \<Rightarrow> string \<Rightarrow> string \<Rightarrow> bool \<Rightarrow> ('d, 'k) call_manager \<Rightarrow> call \<times> ('d, 'k) call_manager" where
  "NewOutgoingAttempt now peerPhone peerURI protocolEnabled m =
     (case new_call ((NewCallSession now peerPhone peerURI ''outgoing'')\<lparr>ProtocolEnabled := protocolEnabled\<rparr>) m of
        (i, m1) \<Rightarrow> (i, set_pending peerPhone (pending m1 peerPhone @ [i]) m1))"

definition NewIncomingSession ::
  "int \<Rightarrow> string \<Rightarrow> string \<Rightarrow> string \<Rightarrow> string \<Rightarrow> ('d, 'k) call_manager \<Rightarrow> call \<times> ('d, 'k) call_manager" where
  "NewIncomingSession now callID peerURI peerName accountAOR m =
     (case new_call ((NewCallSession now (ExtractPhoneFromURI peerURI) peerURI ''incoming'')
              \<lparr>CallID := callID, PeerName := peerName, AccountAOR := accountAOR\<rparr>) m of
        (i, m1) \<Rightarrow> (i, if callID \<noteq> [] then set_callid callID (Some i) m1 else m1))"

definition BindOutgoingCallID ::
  "string \<Rightarrow> string \<Rightarrow> string \<Rightarrow> string \<Rightarrow> ('d, 'k) call_manager \<Rightarrow> call option \<times> ('d, 'k) call_manager" where
  "BindOutgoingCallID peerPhone callID peerURI accountAOR m =
     (case pending m peerPhone of
        [] \<Rightarrow> (None, m)
      | i # queue \<Rightarrow>
         (let m1 = set_pending peerPhone queue m;
              m2 = upd_call i (\<lambda>c. c\<lparr>CallID := callID, PeerURI := peerURI, AccountAOR := accountAOR\<rparr>) m1
          in (Some i, if callID \<noteq> [] then set_callid callID (Some i) m2 else m2)))"

definition GetByCallID :: "string \<Rightarrow> ('d, 'k) call_manager \<Rightarrow> call option" where
  "GetByCallID callID m = byCallID m callID"

definition GetByAttemptID :: "string \<Rightarrow> ('d, 'k) call_manager \<Rightarrow> call option" where
  "GetByAttemptID attemptID m = map_of (byAttempt m) attemptID"

definition GetAllSessions :: "(call list \<Rightarrow> call list) \<Rightarrow> ('d, 'k) call_manager \<Rightarrow> call list" where
  "GetAllSessions ord m = ord (map snd (byAttempt m))"

definition Count :: "('d, 'k) call_manager \<Rightarrow> nat" where
  "Count m = length (byAttempt m)"

definition GetActiveSessionByPeer :: "(call list \<Rightarrow> call list) \<Rightarrow> string \<Rightarrow> ('d, 'k) call_manager \<Rightarrow> call option" where
  "GetActiveSessionByPeer ord peerPhone m =
     find (\<lambda>i. PeerPhone (calls m i) = peerPhone \<and> State (calls m i) \<noteq> StateClosed) (GetAllSessions ord m)"

definition RemoveSession :: "call \<Rightarrow> ('d, 'k) call_manager \<Rightarrow> ('d, 'k) call_manager" where
  "RemoveSession i m =
     (let c = calls m i;
          m1 = (if AttemptID c \<noteq> [] then m\<lparr>byAttempt := AList.delete (AttemptID c) (byAttempt m)\<rparr> else m);
          m2 = (if CallID c \<noteq> [] then set_callid (CallID c) None m1 else m1)
      in if PeerPhone c \<noteq> [] \<and> pending m2 (PeerPhone c) \<noteq> []
         then set_pending (PeerPhone c) (removeAll i (pending m2 (PeerPhone c))) m2
         else m2)"

end
