(* ===== verification/CallManagerProps.thy ===== *)
theory CallManagerProps
  imports CallManager
begin

text \<open>
  What the call manager guarantees: its three maps agree with the sessions in every reachable manager, a call-id goes
  to the oldest pending attempt of its peer, a removed session is no longer found, and the
  phone number of a URI.
\<close>

section \<open>Phone numbers\<close>

lemma TrimPrefix_prefix [simp]: "TrimPrefix (p @ s) p = s"
  by (simp add: TrimPrefix_def)

lemma cut_at_append: "c \<notin> set p \<Longrightarrow> cut_at c (p @ c # s) = p"
  by (simp add: cut_at_def index_byte_append)

lemma cut_at_none: "c \<notin> set p \<Longrightarrow> cut_at c p = p"
  by (simp add: cut_at_def index_byte_None [THEN iffD2])

definition phone_ok :: "string \<Rightarrow> bool" where
  "phone_ok p \<longleftrightarrow> list_all is_phone_char p"

lemma phone_ok_chars:
  "phone_ok p \<Longrightarrow> CHR ''@'' \<notin> set p" "phone_ok p \<Longrightarrow> CHR '';'' \<notin> set p" "phone_ok p \<Longrightarrow> CHR ''t'' \<notin> set p"
  by (auto simp: phone_ok_def list_all_iff is_phone_char_def is_digit_def)

lemma TrimPrefix_tel: "CHR ''t'' \<notin> set p \<Longrightarrow> TrimPrefix (p @ CHR ''@'' # s) ''tel:'' = p @ CHR ''@'' # s"
  by (cases p) (auto simp: TrimPrefix_def)

lemma filter_phone: "phone_ok p \<Longrightarrow> filter is_phone_char p = p"
  by (simp add: phone_ok_def list_all_iff)

text \<open>
  The phone number is recovered from the URI that \<^verbatim>\<open>FormatSIPURI\<close> builds of it, whatever the domain, and from
  the URI with parameters after the number.
\<close>

lemma extract_format_roundtrip:
  assumes "list_all is_phone_char phone"
  shows "ExtractPhoneFromURI (FormatSIPURI phone domain) = phone
    \<and> ExtractPhoneFromURI (FormatSIPURI (phone @ '';user=phone'') domain) = phone"
proof -
  have ok: "phone_ok phone" using assms by (simp add: phone_ok_def)
  note ch = phone_ok_chars [OF ok]
  let ?d = "if domain = [] then ''localhost'' else domain"
  have "TrimPrefix ((phone @ '';user=phone'') @ CHR ''@'' # ?d) ''tel:'' = (phone @ '';user=phone'') @ CHR ''@'' # ?d"
    using ch(3) by (cases phone) (auto simp: TrimPrefix_def)
  moreover have "cut_at (CHR ''@'') ((phone @ '';user=phone'') @ CHR ''@'' # ?d) = phone @ '';user=phone''"
    using ch(1) by (intro cut_at_append) simp
  moreover have "cut_at (CHR '';'') (phone @ '';user=phone'') = phone"
    using ch(2) cut_at_append [of "CHR '';''" phone "''user=phone''"] by simp
  ultimately have "ExtractPhoneFromURI (FormatSIPURI (phone @ '';user=phone'') domain) = phone"
    unfolding ExtractPhoneFromURI_def FormatSIPURI_def Let_def
    by (simp add: filter_phone [OF ok] TrimPrefix_prefix [of "''sip:''", simplified])
  moreover have "ExtractPhoneFromURI (FormatSIPURI phone domain) = phone"
    unfolding ExtractPhoneFromURI_def FormatSIPURI_def Let_def
    by (simp add: filter_phone [OF ok] TrimPrefix_prefix [of "''sip:''", simplified] TrimPrefix_tel [OF ch(3)]
        cut_at_append [OF ch(1)] cut_at_none [OF ch(2)])
  ultimately show ?thesis by blast
qed

lemma extract_format_roundtrip_example:
  "ExtractPhoneFromURI (FormatSIPURI ''+15551234567'' []) = ''+15551234567''"
  using extract_format_roundtrip [of "''+15551234567''" "[]"] by (simp add: is_phone_char_def is_digit_def)

section \<open>The manager's invariant\<close>

definition manager_ok :: "('d, 'k) call_manager \<Rightarrow> bool" where
  "manager_ok m \<longleftrightarrow>
     distinct (map fst (byAttempt m))
   \<and> (\<forall>a i. map_of (byAttempt m) a = Some i \<longrightarrow> i < next_call m \<and> AttemptID (calls m i) = a)
   \<and> (\<forall>k i. byCallID m k = Some i \<longrightarrow> i < next_call m \<and> k \<noteq> [] \<and> CallID (calls m i) = k)
   \<and> (\<forall>p. pendingByPeer m p \<noteq> Some [] \<and> distinct (pending m p))
   \<and> (\<forall>p i. i \<in> set (pending m p) \<longrightarrow> i < next_call m \<and> PeerPhone (calls m i) = p
        \<and> IsOutgoing (calls m i) \<and> CallID (calls m i) = [])"

lemma manager_okD:
  assumes "manager_ok m"
  shows "distinct (map fst (byAttempt m))"
    and "map_of (byAttempt m) a = Some i \<Longrightarrow> i < next_call m \<and> AttemptID (calls m i) = a"
    and "byCallID m k = Some i \<Longrightarrow> i < next_call m \<and> k \<noteq> [] \<and> CallID (calls m i) = k"
    and "distinct (pending m p)"
    and "i \<in> set (pending m p) \<Longrightarrow> i < next_call m \<and> PeerPhone (calls m i) = p
        \<and> IsOutgoing (calls m i) \<and> CallID (calls m i) = []"
  using assms by (auto simp: manager_ok_def)

lemma manager_ok_new [simp]: "manager_ok NewCallManager"
  by (simp add: manager_ok_def NewCallManager_def pending_def)

lemma set_pending_simps [simp]:
  "calls (set_pending p q m) = calls m" "next_call (set_pending p q m) = next_call m"
  "attemptCounter (set_pending p q m) = attemptCounter m"
  "byAttempt (set_pending p q m) = byAttempt m" "byCallID (set_pending p q m) = byCallID m"
  "pending (set_pending p q m) p' = (if p' = p then q else pending m p')"
  "pendingByPeer (set_pending p q m) p' = (if p' = p then if q = [] then None else Some q else pendingByPeer m p')"
  by (auto simp: set_pending_def pending_def)

lemma set_callid_simps [simp]:
  "calls (set_callid k v m) = calls m" "next_call (set_callid k v m) = next_call m"
  "attemptCounter (set_callid k v m) = attemptCounter m"
  "byAttempt (set_callid k v m) = byAttempt m" "byCallID (set_callid k v m) = (byCallID m)(k := v)"
  "pending (set_callid k v m) = pending m" "pendingByPeer (set_callid k v m) = pendingByPeer m"
  by (auto simp: set_callid_def pending_def fun_eq_iff)

lemma upd_call_simps [simp]:
  "calls (upd_call i f m) j = (if j = i then f (calls m i) else calls m j)" "next_call (upd_call i f m) = next_call m"
  "attemptCounter (upd_call i f m) = attemptCounter m"
  "byAttempt (upd_call i f m) = byAttempt m" "byCallID (upd_call i f m) = byCallID m"
  "pending (upd_call i f m) = pending m" "pendingByPeer (upd_call i f m) = pendingByPeer m"
  by (auto simp: upd_call_def pending_def fun_eq_iff)

text \<open>Changing a session in any way that keeps what the maps are keyed by.\<close>

definition same_identity :: "('d, 'k) call_session \<Rightarrow> ('d, 'k) call_session \<Rightarrow> bool" where
  "same_identity c c' \<longleftrightarrow> AttemptID c' = AttemptID c \<and> CallID c' = CallID c \<and> PeerPhone c' = PeerPhone c
     \<and> Direction c' = Direction c"

lemma upd_call_ok: "manager_ok m \<Longrightarrow> same_identity (calls m i) (f (calls m i)) \<Longrightarrow> manager_ok (upd_call i f m)"
  by (auto simp: manager_ok_def same_identity_def IsOutgoing_def)

lemma new_call_pending [simp]: "pending (snd (new_call c m)) = pending m"
  by (simp add: new_call_def pending_def Let_def fun_eq_iff)

lemma new_call_simps [simp]:
  "fst (new_call c m) = next_call m" "next_call (snd (new_call c m)) = Suc (next_call m)"
  "byCallID (snd (new_call c m)) = byCallID m" "pendingByPeer (snd (new_call c m)) = pendingByPeer m"
  "attemptCounter (snd (new_call c m)) = attemptCounter m + 1"
  "byAttempt (snd (new_call c m)) = AList.update (attempt_id (attemptCounter m + 1)) (next_call m) (byAttempt m)"
  "calls (snd (new_call c m)) i = (if i = next_call m then c\<lparr>AttemptID := attempt_id (attemptCounter m + 1)\<rparr> else calls m i)"
  by (simp_all add: new_call_def Let_def)

lemma new_call_ok: "manager_ok m \<Longrightarrow> manager_ok (snd (new_call c m))"
  by (auto simp: manager_ok_def distinct_update update_conv' fun_upd_def split: if_splits)
     (meson less_SucI less_irrefl)+

lemma NewOutgoingAttempt_eq:
  "NewOutgoingAttempt now p u e m = (next_call m, set_pending p (pending m p @ [next_call m])
     (snd (new_call ((NewCallSession now p u ''outgoing'')\<lparr>ProtocolEnabled := e\<rparr>) m)))"
  by (simp add: NewOutgoingAttempt_def split: prod.split)
     (metis new_call_simps(1) new_call_pending fst_conv snd_conv)

lemma NewIncomingSession_eq:
  "NewIncomingSession now k u n aor m = (next_call m,
     (let m1 = snd (new_call ((NewCallSession now (ExtractPhoneFromURI u) u ''incoming'')
              \<lparr>CallID := k, PeerName := n, AccountAOR := aor\<rparr>) m)
      in if k \<noteq> [] then set_callid k (Some (next_call m)) m1 else m1))"
  by (simp add: NewIncomingSession_def Let_def split: prod.split)
     (metis new_call_simps(1) fst_conv snd_conv)

lemma NewOutgoingAttempt_ok:
  assumes "manager_ok m"
  shows "manager_ok (snd (NewOutgoingAttempt now p u e m))"
proof -
  let ?c = "(NewCallSession now p u ''outgoing'')\<lparr>ProtocolEnabled := e\<rparr>"
  have ok: "manager_ok (snd (new_call ?c m))" by (rule new_call_ok [OF assms])
  have fresh: "next_call m \<notin> set (pending m p')" for p'
    using manager_okD(5) [OF assms, of "next_call m" p'] by auto
  have c: "PeerPhone ?c = p" "IsOutgoing ?c" "CallID ?c = []"
    by (simp_all add: NewCallSession_def IsOutgoing_def)
  have "manager_ok (set_pending p (pending m p @ [next_call m]) (snd (new_call ?c m)))"
    using ok fresh c manager_okD(4,5) [OF ok]
    unfolding manager_ok_def by (auto simp: IsOutgoing_def)
  then show ?thesis by (simp add: NewOutgoingAttempt_eq)
qed

lemma NewIncomingSession_ok:
  assumes "manager_ok m"
  shows "manager_ok (snd (NewIncomingSession now k u n aor m))"
proof -
  let ?c = "(NewCallSession now (ExtractPhoneFromURI u) u ''incoming'')\<lparr>CallID := k, PeerName := n, AccountAOR := aor\<rparr>"
  have ok: "manager_ok (snd (new_call ?c m))" by (rule new_call_ok [OF assms])
  have "manager_ok (set_callid k (Some (next_call m)) (snd (new_call ?c m)))" if "k \<noteq> []"
    using ok that unfolding manager_ok_def by auto
  with ok show ?thesis by (cases "k = []") (simp_all add: NewIncomingSession_eq Let_def)
qed

lemma BindOutgoingCallID_ok:
  assumes "manager_ok m"
  shows "manager_ok (snd (BindOutgoingCallID p k u aor m))"
proof (cases "pending m p")
  case Nil
  with assms show ?thesis by (simp add: BindOutgoingCallID_def)
next
  case (Cons i queue)
  let ?f = "\<lambda>c. c\<lparr>CallID := k, PeerURI := u, AccountAOR := aor\<rparr>"
  let ?m2 = "upd_call i ?f (set_pending p queue m)"
  have i: "i < next_call m" "PeerPhone (calls m i) = p" "CallID (calls m i) = []" "i \<notin> set queue" "distinct queue"
    using manager_okD(4) [OF assms, of p] manager_okD(5) [OF assms, of i p] Cons by auto
  have "i \<notin> set (pending m p')" if "p' \<noteq> p" for p'
    using manager_okD(5) [OF assms, of i p'] i that by auto
  moreover have "byCallID m k' \<noteq> Some i" for k'
    using manager_okD(3) [OF assms, of k' i] i by auto
  moreover have "j < next_call m \<and> PeerPhone (calls m j) = p \<and> Direction (calls m j) = ''outgoing'' \<and> CallID (calls m j) = []"
    if "j \<in> set queue" for j
    using manager_okD(5) [OF assms, of j p] Cons that by (auto simp: IsOutgoing_def)
  ultimately have ok: "manager_ok ?m2"
    using assms i Cons unfolding manager_ok_def by (auto simp: IsOutgoing_def)
  have "manager_ok (set_callid k (Some i) ?m2)" if "k \<noteq> []"
    using ok i that unfolding manager_ok_def by auto
  with ok show ?thesis by (cases "k = []") (simp_all add: BindOutgoingCallID_def Cons Let_def)
qed

lemma manager_ok_byAttempt:
  assumes "manager_ok m" and "distinct (map fst xs)"
    and "\<And>a i. map_of xs a = Some i \<Longrightarrow> map_of (byAttempt m) a = Some i"
  shows "manager_ok (m\<lparr>byAttempt := xs\<rparr>)"
proof -
  have "pending (m\<lparr>byAttempt := xs\<rparr>) = pending m" by (simp add: pending_def fun_eq_iff)
  then show ?thesis using assms unfolding manager_ok_def
    by (simp del: map_of_eq_Some_iff) blast
qed

lemma manager_ok_forget: "manager_ok m \<Longrightarrow> manager_ok (set_callid k None m)"
  unfolding manager_ok_def by (simp add: fun_upd_def)

lemma manager_ok_unqueue:
  assumes "manager_ok m"
  shows "manager_ok (set_pending p (removeAll i (pending m p)) m)"
  using assms unfolding manager_ok_def by (simp add: distinct_removeAll) blast

lemma RemoveSession_ok:
  fixes m :: "('d, 'k) call_manager"
  assumes "manager_ok m"
  shows "manager_ok (RemoveSession i m)"
proof -
  let ?c = "calls m i"
  let ?m1 = "if AttemptID ?c \<noteq> [] then m\<lparr>byAttempt := AList.delete (AttemptID ?c) (byAttempt m)\<rparr> else m"
  let ?m2 = "if CallID ?c \<noteq> [] then set_callid (CallID ?c) None ?m1 else ?m1"
  have "manager_ok (m\<lparr>byAttempt := AList.delete a (byAttempt m)\<rparr>)" for a
    by (rule manager_ok_byAttempt [OF assms])
      (use manager_okD(1) [OF assms] in \<open>simp_all add: distinct_delete delete_conv' split: if_splits del: map_of_eq_Some_iff\<close>)
  then have 1: "manager_ok ?m1" using assms by simp
  then have 2: "manager_ok ?m2" using manager_ok_forget [OF 1] by (cases "CallID ?c = []") simp_all
  have split: "P (if c then x else y)" if "P x" "P y" for P and c and x y :: "('d, 'k) call_manager"
    using that by simp
  show ?thesis unfolding RemoveSession_def Let_def by (rule split [OF manager_ok_unqueue [OF 2] 2])
qed

text \<open>A manager's operations as steps, with the session updates of its clients that keep a session's identity.\<close>

datatype manager_op =
    OpOutgoing int string string bool
  | OpIncoming int string string string string
  | OpBind string string string string
  | OpRemove call
  | OpSetState call call_state
  | OpCleanup call

fun manager_step :: "('d, 'k) call_manager \<Rightarrow> manager_op \<Rightarrow> ('d, 'k) call_manager" where
  "manager_step m (OpOutgoing now p u e) = snd (NewOutgoingAttempt now p u e m)"
| "manager_step m (OpIncoming now k u n aor) = snd (NewIncomingSession now k u n aor m)"
| "manager_step m (OpBind p k u aor) = snd (BindOutgoingCallID p k u aor m)"
| "manager_step m (OpRemove i) = RemoveSession i m"
| "manager_step m (OpSetState i st) = upd_call i (SetState st) m"
| "manager_step m (OpCleanup i) = upd_call i Cleanup m"

lemma manager_step_ok: "manager_ok m \<Longrightarrow> manager_ok (manager_step m e)"
  by (cases e) (auto simp: NewOutgoingAttempt_ok NewIncomingSession_ok BindOutgoingCallID_ok RemoveSession_ok
      same_identity_def SetState_def Cleanup_def CancelTimeout_def CancelODATimeout_def intro!: upd_call_ok)

interpretation manager: invariant_machine manager_step manager_ok
  by unfold_locales (rule manager_step_ok)

text \<open>
  C26. In every manager that operations reach from the empty one: a session found by its call-id or its
  attempt has that identity, and a session that waits for its call-id is outgoing, has none yet and
  waits only once, under its own peer.
\<close>

theorem reachable_manager_consistent:
  fixes m :: "('d, 'k) call_manager"
  assumes "m = foldl manager_step NewCallManager ops"
  shows "(\<forall>k i. GetByCallID k m = Some i \<longrightarrow> k \<noteq> [] \<and> CallID (calls m i) = k)
    \<and> (\<forall>a i. GetByAttemptID a m = Some i \<longrightarrow> AttemptID (calls m i) = a)
    \<and> (\<forall>p. distinct (pending m p) \<and> (\<forall>i \<in> set (pending m p).
          PeerPhone (calls m i) = p \<and> IsOutgoing (calls m i) \<and> CallID (calls m i) = []))"
proof -
  have ok: "manager_ok m" unfolding assms by (rule manager.run_inv) simp
  show ?thesis
    using manager_okD(2-5) [OF ok] by (auto simp: GetByCallID_def GetByAttemptID_def)
qed

definition demo_ops :: "manager_op list" where
  "demo_ops = [OpOutgoing 5 ''+1'' [] True, OpBind ''+1'' ''c1'' ''sip:+1@h'' [], OpIncoming 9 ''c2'' ''sip:+2@h'' [] []]"

theorem reachable_manager_consistent_witness:
  "GetByCallID ''c2'' (foldl manager_step NewCallManager demo_ops :: (unit, unit) call_manager) = Some 1
   \<and> CallID (calls (foldl manager_step NewCallManager demo_ops :: (unit, unit) call_manager) 1) = ''c2''"
proof -
  have g: "GetByCallID ''c2'' (foldl manager_step NewCallManager demo_ops :: (unit, unit) call_manager) = Some 1"
    by code_simp
  with reachable_manager_consistent [of "foldl manager_step NewCallManager demo_ops :: (unit, unit) call_manager" demo_ops]
  show ?thesis by blast
qed

section \<open>Binding call-ids\<close>

text \<open>Attempts to one peer, and then call-ids for that peer, one after the other.\<close>

fun attempts_to :: "string \<Rightarrow> (int \<times> bool) list \<Rightarrow> ('d, 'k) call_manager \<Rightarrow> call list \<times> ('d, 'k) call_manager" where
  "attempts_to p [] m = ([], m)"
| "attempts_to p ((now, e) # xs) m =
     (case NewOutgoingAttempt now p [] e m of (i, m1) \<Rightarrow>
      (case attempts_to p xs m1 of (is, m2) \<Rightarrow> (i # is, m2)))"

fun bind_ids :: "string \<Rightarrow> (string \<times> string \<times> string) list \<Rightarrow> ('d, 'k) call_manager \<Rightarrow> call option list \<times> ('d, 'k) call_manager" where
  "bind_ids p [] m = ([], m)"
| "bind_ids p ((k, u, aor) # xs) m =
     (case BindOutgoingCallID p k u aor m of (r, m1) \<Rightarrow>
      (case bind_ids p xs m1 of (rs, m2) \<Rightarrow> (r # rs, m2)))"

lemma attempts_to_pending:
  "pending (snd (attempts_to p xs m)) p = pending m p @ fst (attempts_to p xs m)"
  by (induction p xs m rule: attempts_to.induct) (auto simp: NewOutgoingAttempt_eq split: prod.splits)

lemma BindOutgoingCallID_cases:
  "fst (BindOutgoingCallID p k u aor m) = (case pending m p of [] \<Rightarrow> None | i # q \<Rightarrow> Some i)"
  "pending (snd (BindOutgoingCallID p k u aor m)) p' = (if p' = p then tl (pending m p) else pending m p')"
  by (auto simp: BindOutgoingCallID_def Let_def split: list.split)

lemma bind_ids_pending:
  "length ks \<le> length (pending m p) \<Longrightarrow> fst (bind_ids p ks m) = map Some (take (length ks) (pending m p))
     \<and> pending (snd (bind_ids p ks m)) p = drop (length ks) (pending m p)"
proof (induction p ks m rule: bind_ids.induct)
  case (2 p k u aor xs m)
  obtain r m1 where b: "BindOutgoingCallID p k u aor m = (r, m1)" by (cases "BindOutgoingCallID p k u aor m")
  obtain i q where q: "pending m p = i # q" using 2(2) by (cases "pending m p") auto
  have "r = Some i" "pending m1 p = q"
    using BindOutgoingCallID_cases [of p k u aor m] by (simp_all add: b q)
  with 2 b q show ?case by (auto split: prod.splits)
qed simp



section \<open>Removing a session\<close>

text \<open>
  A removed session is found neither by its attempt nor by its call-id nor among its peer's pending
  attempts, as long as the peer has a phone number; other sessions stay pending. An attempt to a peer without digits in its
  URI, whose phone number is empty, stays pending although it was removed.
\<close>

lemma remove_session_forgets:
  assumes "manager_ok m" and "AttemptID (calls m i) \<noteq> []"
  shows "GetByAttemptID (AttemptID (calls m i)) (RemoveSession i m) = None
    \<and> (CallID (calls m i) \<noteq> [] \<longrightarrow> GetByCallID (CallID (calls m i)) (RemoveSession i m) = None)
    \<and> (\<forall>p. PeerPhone (calls m i) \<noteq> [] \<longrightarrow> i \<notin> set (pending (RemoveSession i m) p))
    \<and> (\<forall>p j. j \<noteq> i \<longrightarrow> (j \<in> set (pending (RemoveSession i m) p) \<longleftrightarrow> j \<in> set (pending m p)))
    \<and> (PeerPhone (calls m i) = [] \<longrightarrow> pending (RemoveSession i m) = pending m)"
proof -
  have "i \<in> set (pending m p) \<Longrightarrow> p = PeerPhone (calls m i)" for p
    using manager_okD(5) [OF assms(1), of i p] by auto
  moreover have "pending (m\<lparr>byAttempt := x\<rparr>) = pending m" for x by (simp add: pending_def fun_eq_iff)
  ultimately show ?thesis using assms(2)
    by (auto simp: RemoveSession_def GetByAttemptID_def GetByCallID_def Let_def delete_conv')
qed

lemma remove_session_forgets_example:
  "pending (RemoveSession 0 (snd (NewOutgoingAttempt 1 (ExtractPhoneFromURI ''sip:alice@host'') [] True
     (NewCallManager :: (unit, unit) call_manager)))) [] = [0]"
proof -
  let ?m = "snd (NewOutgoingAttempt 1 (ExtractPhoneFromURI ''sip:alice@host'') [] True (NewCallManager :: (unit, unit) call_manager))"
  have "AttemptID (calls ?m 0) \<noteq> []" "PeerPhone (calls ?m 0) = []" "pending ?m [] = [0]" by code_simp+
  then show ?thesis
    using remove_session_forgets [OF NewOutgoingAttempt_ok [OF manager_ok_new, of 1 "ExtractPhoneFromURI ''sip:alice@host''" "[]" True], of 0]
    by metis
qed

end
