(* ===== verification/SipConfig.thy ===== *)
theory SipConfig
  imports CallManager
begin

text \<open>
  \<^verbatim>\<open>internal/sipcontroller/config.go\<close>: the controller's configuration, what \<^verbatim>\<open>ParseFlags\<close> makes of the parsed flags,
  and the own phone number in a DIA env file; with the functions of Go's \<^verbatim>\<open>strings\<close> that they use.
\<close>

section \<open>strings.TrimSpace and strings.Split\<close>

text \<open>The UTF-8 encodings of the runes that \<^verbatim>\<open>unicode.IsSpace\<close> accepts.\<close>

definition white_runes :: "string list" where
  "white_runes = [[CHR 0x09], [CHR 0x0A], [CHR 0x0B], [CHR 0x0C], [CHR 0x0D], [CHR 0x20], [CHR 0xC2, CHR 0x85],
     [CHR 0xC2, CHR 0xA0], [CHR 0xE1, CHR 0x9A, CHR 0x80], [CHR 0xE2, CHR 0x80, CHR 0x80],
     [CHR 0xE2, CHR 0x80, CHR 0x81], [CHR 0xE2, CHR 0x80, CHR 0x82], [CHR 0xE2, CHR 0x80, CHR 0x83],
     [CHR 0xE2, CHR 0x80, CHR 0x84], [CHR 0xE2, CHR 0x80, CHR 0x85], [CHR 0xE2, CHR 0x80, CHR 0x86],
     [CHR 0xE2, CHR 0x80, CHR 0x87], [CHR 0xE2, CHR 0x80, CHR 0x88], [CHR 0xE2, CHR 0x80, CHR 0x89],
     [CHR 0xE2, CHR 0x80, CHR 0x8A], [CHR 0xE2, CHR 0x80, CHR 0xA8], [CHR 0xE2, CHR 0x80, CHR 0xA9],
     [CHR 0xE2, CHR 0x80, CHR 0xAF], [CHR 0xE2, CHR 0x81, CHR 0x9F], [CHR 0xE3, CHR 0x80, CHR 0x80]]"

function trim_with :: "string list \<Rightarrow> string \<Rightarrow> string" where
  "trim_with ps s =
     (case find (\<lambda>p. p \<noteq> [] \<and> p = take (length p) s) ps of
        None \<Rightarrow> s
      | Some p \<Rightarrow> trim_with ps (drop (length p) s))"
  by pat_completeness auto
termination
proof (relation "measure (\<lambda>(ps, s). length s)")
  fix ps s and p :: string
  assume "find (\<lambda>p. p \<noteq> [] \<and> p = take (length p) s) ps = Some p"
  then have "p \<noteq> []" "p = take (length p) s" by (auto simp: find_Some_iff)
  then have "s \<noteq> []" by auto
  with \<open>p \<noteq> []\<close> show "((ps, drop (length p) s), ps, s) \<in> measure (\<lambda>(ps, s). length s)" by auto
qed simp

declare trim_with.simps [simp del]

definition TrimSpace :: "string \<Rightarrow> string" where
  "TrimSpace s = rev (trim_with (map rev white_runes) (rev (trim_with white_runes s)))"

fun split_on :: "char \<Rightarrow> string \<Rightarrow> string list" where
  "split_on c [] = [[]]"
| "split_on c (x # xs) = (if x = c then [] # split_on c xs
     else (case split_on c xs of p # ps \<Rightarrow> (x # p) # ps | [] \<Rightarrow> [[x]]))"

section \<open>The configuration\<close>

record sip_config =
  BaresipAddr :: string
  SipAccount :: string
  DIAEnvFile :: string
  SelfPhone :: string
  RelayAddr :: string
  RelayTLS :: bool
  TimeoutSec :: int
  ODAAttributes :: "string list"
  IncomingMode :: string
  ODATimeoutSec :: int
  OutgoingODADelaySec :: int
  Verbose :: bool
  CacheEnabled :: bool
  RedisAddr :: string
  RedisUser :: string
  RedisPass :: string
  RedisDB :: int
  RedisPrefix :: string
  PeerSessionTTLSeconds :: int
  ClearCache :: bool
  ExperimentMode :: string
  ExperimentPhone :: string
  ExperimentRuns :: int
  ExperimentConcurrency :: int
  ExperimentInterAttemptDelayMs :: int
  OutputCSV :: string

text \<open>The values of the flags that the command line does not set.\<close>

definition flag_defaults :: sip_config where
  "flag_defaults = \<lparr>BaresipAddr = ''localhost:4444'', SipAccount = [], DIAEnvFile = [], SelfPhone = [],
     RelayAddr = ''localhost:50052'', RelayTLS = False, TimeoutSec = 5, ODAAttributes = [],
     IncomingMode = ''baseline'', ODATimeoutSec = 10, OutgoingODADelaySec = -1, Verbose = False,
     CacheEnabled = False, RedisAddr = ''localhost:6379'', RedisUser = [], RedisPass = [], RedisDB = 0,
     RedisPrefix = ''denseid:dia:peer_session:v1'', PeerSessionTTLSeconds = 0, ClearCache = False,
     ExperimentMode = [], ExperimentPhone = [], ExperimentRuns = 1, ExperimentConcurrency = 1,
     ExperimentInterAttemptDelayMs = 0, OutputCSV = []\<rparr>"

text \<open>\<^verbatim>\<open>ParseFlags\<close> after \<^verbatim>\<open>flag.Parse\<close>; \<^const>\<open>None\<close> is the exit with status 1.\<close>

definition ParseFlags :: "sip_config \<Rightarrow> string \<Rightarrow> sip_config option" where
  "ParseFlags cfg odaAttrs =
     (if ClearCache cfg then Some (cfg\<lparr>CacheEnabled := True\<rparr>)
      else if DIAEnvFile cfg = [] then None
      else if odaAttrs \<noteq> [] then Some (cfg\<lparr>ODAAttributes := map TrimSpace (split_on (CHR '','') odaAttrs)\<rparr>)
      else Some cfg)"

text \<open>\<^verbatim>\<open>ExtractSelfPhoneFromDIAEnv\<close>, line by line.\<close>

definition self_phone_line :: "string \<Rightarrow> string option" where
  "self_phone_line line0 =
     (let line = TrimSpace line0 in
      if line = [] \<or> hd line = CHR ''#'' then None
      else (case index_byte (CHR ''='') line of
              None \<Rightarrow> None
            | Some eq \<Rightarrow>
               if eq = 0 then None
               else if TrimSpace (take eq line) = ''MY_PHONE'' then Some (TrimSpace (drop (eq + 1) line))
               else None))"

fun first_self_phone :: "string list \<Rightarrow> string" where
  "first_self_phone [] = []"
| "first_self_phone (l # ls) = (case self_phone_line l of Some v \<Rightarrow> v | None \<Rightarrow> first_self_phone ls)"

definition ExtractSelfPhoneFromDIAEnv :: "string \<Rightarrow> string" where
  "ExtractSelfPhoneFromDIAEnv content = first_self_phone (split_on (CHR 0x0A) content)"

text \<open>\<^verbatim>\<open>LoadDIAConfigAndSelfPhone\<close>; \<open>read\<close> is the file's content, \<open>parse\<close> the library's \<^verbatim>\<open>ConfigFromEnv\<close>.\<close>

definition LoadDIAConfigAndSelfPhone :: "bytes result \<Rightarrow> (bytes \<Rightarrow> 'c result) \<Rightarrow> ('c \<times> string) result" where
  "LoadDIAConfigAndSelfPhone read parse =
     (case read of
        Inl e \<Rightarrow> Inl (''reading env file: '' @ e)
      | Inr content \<Rightarrow>
         (let selfPhone = ExtractSelfPhoneFromDIAEnv content in
          case parse content of Inl e \<Rightarrow> Inl e | Inr cfg \<Rightarrow> Inr (cfg, selfPhone)))"

section \<open>Trimming\<close>

lemma trim_with_decompose: "\<exists>w. s = w @ trim_with ps s"
proof (induction ps s rule: trim_with.induct)
  case (1 ps s)
  show ?case
  proof (cases "find (\<lambda>p. p \<noteq> [] \<and> p = take (length p) s) ps")
    case None
    then show ?thesis by (subst trim_with.simps) simp
  next
    case (Some p)
    then obtain w where w: "drop (length p) s = w @ trim_with ps (drop (length p) s)" using 1 by blast
    have "trim_with ps s = trim_with ps (drop (length p) s)" using Some by (subst trim_with.simps) simp
    moreover have "s = p @ drop (length p) s" using Some by (auto simp: find_Some_iff) (metis append_take_drop_id)
    ultimately have "s = (p @ w) @ trim_with ps s" using w by simp
    then show ?thesis by blast
  qed
qed

text \<open>A text whose first character begins no white rune is not trimmed.\<close>

lemma trim_with_keep:
  assumes "\<forall>p \<in> set ps. p = [] \<or> hd p \<noteq> c"
  shows "trim_with ps (c # s) = c # s"
proof -
  have "find (\<lambda>p. p \<noteq> [] \<and> p = take (length p) (c # s)) ps = None"
    using assms by (auto simp: find_None_iff) (metis list.sel(1) take_Cons' length_0_conv)
  then show ?thesis by (subst trim_with.simps) simp
qed

lemma trim_with_Nil [simp]: "trim_with ps [] = []"
  by (subst trim_with.simps) (auto split: option.splits simp: find_Some_iff)

lemma trim_with_Cons_white:
  assumes "[c] \<in> set ps" "\<forall>p \<in> set ps. hd p = c \<longrightarrow> p = [c]" and "[] \<notin> set ps"
  shows "trim_with ps (c # s) = trim_with ps s"
proof -
  have "find (\<lambda>p. p \<noteq> [] \<and> p = take (length p) (c # s)) ps = Some [c]"
  proof -
    obtain p where p: "find (\<lambda>p. p \<noteq> [] \<and> p = take (length p) (c # s)) ps = Some p"
      using assms(1) by (cases "find (\<lambda>p. p \<noteq> [] \<and> p = take (length p) (c # s)) ps") (auto simp: find_None_iff)
    then have "p \<in> set ps" "p \<noteq> []" "p = take (length p) (c # s)"
      by (auto simp: find_Some_iff in_set_conv_nth)
    then have "hd p = c" by (metis take_Cons' hd_Cons_tl list.sel(1) length_0_conv)
    then show ?thesis using assms(2) \<open>p \<in> set ps\<close> p by auto
  qed
  then show ?thesis by (subst trim_with.simps) simp
qed

text \<open>The printable ASCII characters, which neither begin nor end a white rune.\<close>

definition printable :: "char \<Rightarrow> bool" where
  "printable c \<longleftrightarrow> 33 \<le> (of_char c :: nat) \<and> (of_char c :: nat) < 127"

lemma white_runes_bytes:
  "\<forall>p \<in> set white_runes \<union> set (map rev white_runes). p \<noteq> [] \<and> \<not> printable (hd p)"
  by (simp add: white_runes_def printable_def)

lemma trim_keep_printable: "printable c \<Longrightarrow> trim_with white_runes (c # s) = c # s"
  using white_runes_bytes by (intro trim_with_keep) auto

lemma trim_rev_keep_printable: "printable c \<Longrightarrow> trim_with (map rev white_runes) (c # s) = c # s"
  using white_runes_bytes by (intro trim_with_keep) auto

lemma TrimSpace_keep:
  assumes "s \<noteq> []" "printable (hd s)" "printable (last s)"
  shows "TrimSpace s = s"
proof -
  have "trim_with white_runes s = s" using assms by (cases s) (simp_all add: trim_keep_printable)
  moreover have "trim_with (map rev white_runes) (rev s) = rev s"
    using assms trim_rev_keep_printable [of "last s" "tl (rev s)"]
    by (metis hd_rev list.collapse rev_is_Nil_conv)
  ultimately show ?thesis by (simp add: TrimSpace_def)
qed

lemma TrimSpace_Nil [simp]: "TrimSpace [] = []"
  by (simp add: TrimSpace_def)

lemma TrimSpace_printable: "list_all printable s \<Longrightarrow> TrimSpace s = s"
  by (cases "s = []") (auto simp: list_all_iff intro: TrimSpace_keep)

text \<open>Blanks around such a text are removed.\<close>

lemma blank_white: "[CHR '' ''] \<in> set white_runes" "\<forall>p \<in> set white_runes. hd p = CHR '' '' \<longrightarrow> p = [CHR '' '']"
  "[] \<notin> set white_runes"
  by (simp_all add: white_runes_def)

lemma trim_blanks: "trim_with white_runes (replicate n (CHR '' '') @ s) = trim_with white_runes s"
  by (induction n) (simp_all add: trim_with_Cons_white [OF blank_white])

lemma blank_white_rev: "[CHR '' ''] \<in> set (map rev white_runes)"
  "\<forall>p \<in> set (map rev white_runes). hd p = CHR '' '' \<longrightarrow> p = [CHR '' '']" "[] \<notin> set (map rev white_runes)"
  by (simp_all add: white_runes_def)

lemma trim_blanks_rev:
  "trim_with (map rev white_runes) (replicate n (CHR '' '') @ s) = trim_with (map rev white_runes) s"
  by (induction n) (simp_all only: append.simps replicate.simps trim_with_Cons_white [OF blank_white_rev])

lemma TrimSpace_blanks:
  assumes "s \<noteq> []" "printable (hd s)" "printable (last s)"
  shows "TrimSpace (replicate n (CHR '' '') @ s @ replicate k (CHR '' '')) = s"
proof -
  let ?b = "CHR '' ''"
  have "trim_with white_runes (replicate n ?b @ s @ replicate k ?b) = s @ replicate k ?b"
    using assms by (cases s) (simp_all add: trim_blanks trim_keep_printable)
  moreover have "trim_with (map rev white_runes) (rev (s @ replicate k ?b)) = rev s"
    using assms trim_rev_keep_printable [of "last s" "tl (rev s)"] trim_blanks_rev [of k "rev s"]
    by (simp add: rev_replicate) (metis hd_rev list.collapse rev_is_Nil_conv)
  ultimately show ?thesis by (simp add: TrimSpace_def)
qed

end
