(* ===== verification/PeerCache.thy ===== *)
theory PeerCache
  imports RedisClient SipConfig
begin

text \<open>
  The caches of DIA peer sessions in Redis: \<^verbatim>\<open>internal/sipcontroller/peer_session_cache.go\<close> (the SIP controller's)
  and \<^verbatim>\<open>internal/peersessioncache/cache.go\<close> (the command-line client's). A pointer that may be nil is an option. What the
  controllers rely on is the locale \<open>session_cache\<close>, which both are shown to implement; they also
  read each other's entries.
\<close>

section \<open>The SIP controller's cache\<close>

record 'r peer_cache =
  pc_enabled :: bool
  pc_client :: "'r redis option"
  pc_prefix :: string
  pc_ttl :: int

text \<open>\<open>connect addr user pass db\<close> is \<^verbatim>\<open>redis.NewClient\<close>.\<close>

definition newPeerSessionCache ::
  "(string \<Rightarrow> string \<Rightarrow> string \<Rightarrow> int \<Rightarrow> 'r redis) \<Rightarrow> sip_config option \<Rightarrow> 'r peer_cache result" where
  "newPeerSessionCache connect cfg0 =
     (case cfg0 of
        None \<Rightarrow> Inr \<lparr>pc_enabled = False, pc_client = None, pc_prefix = [], pc_ttl = 0\<rparr>
      | Some cfg \<Rightarrow>
         if \<not> CacheEnabled cfg then Inr \<lparr>pc_enabled = False, pc_client = None, pc_prefix = [], pc_ttl = 0\<rparr>
         else (let addr = TrimSpace (RedisAddr cfg) in
          if addr = [] then Inl ''--redis is required when --cache is enabled''
          else (let prefix0 = TrimSpace (RedisPrefix cfg);
                    prefix = (if prefix0 = [] then ''denseid:dia:peer_session:v1'' else prefix0);
                    ttl = (if PeerSessionTTLSeconds cfg > 0 then int64 (PeerSessionTTLSeconds cfg * 1000000000) else 0);
                    c = connect addr (TrimSpace (RedisUser cfg)) (RedisPass cfg) (RedisDB cfg)
                in case rcall rd_ping c of
                     (Some e, _) \<Rightarrow> Inl (''redis ping failed: '' @ redis_msg e)
                   | (None, c1) \<Rightarrow> Inr \<lparr>pc_enabled = True, pc_client = Some c1, pc_prefix = prefix, pc_ttl = ttl\<rparr>)))"

definition cache_key :: "string \<Rightarrow> string \<Rightarrow> string \<Rightarrow> string" where
  "cache_key prefix selfPhone peerPhone = prefix @ '':'' @ TrimSpace selfPhone @ '':'' @ TrimSpace peerPhone"

text \<open>What both caches make of the answer to a GET.\<close>

fun get_answer :: "redis_error + bytes \<Rightarrow> bytes option result" where
  "get_answer (Inl RedisNil) = Inr None"
| "get_answer (Inl e) = Inl (redis_msg e)"
| "get_answer (Inr b) = (if length b = 0 then Inr None else Inr (Some b))"

definition PeerGet :: "'r peer_cache option \<Rightarrow> string \<Rightarrow> string \<Rightarrow> bytes option result \<times> 'r peer_cache option" where
  "PeerGet c0 selfPhone peerPhone =
     (case c0 of None \<Rightarrow> (Inr None, c0)
      | Some c \<Rightarrow>
         (case (pc_enabled c, pc_client c) of
            (True, Some r) \<Rightarrow>
              (case rcall (\<lambda>r. rd_get r (cache_key (pc_prefix c) selfPhone peerPhone)) r of
                 (a, r1) \<Rightarrow> (get_answer a, Some (c\<lparr>pc_client := Some r1\<rparr>)))
          | _ \<Rightarrow> (Inr None, c0)))"

definition PeerSet :: "'r peer_cache option \<Rightarrow> string \<Rightarrow> string \<Rightarrow> bytes \<Rightarrow> error option \<times> 'r peer_cache option" where
  "PeerSet c0 selfPhone peerPhone blob =
     (case c0 of None \<Rightarrow> (None, c0)
      | Some c \<Rightarrow>
         (case (pc_enabled c, pc_client c) of
            (True, Some r) \<Rightarrow>
              if length blob = 0 then (Some ''empty peer session blob'', c0)
              else (case rcall (\<lambda>r. rd_set r (cache_key (pc_prefix c) selfPhone peerPhone) blob (pc_ttl c)) r of
                      (e, r1) \<Rightarrow> (map_option redis_msg e, Some (c\<lparr>pc_client := Some r1\<rparr>)))
          | _ \<Rightarrow> (None, c0)))"

text \<open>
  \<^verbatim>\<open>ClearAll\<close>: the loop over the cursors of SCAN, which ends only if Redis returns cursor 0 at some time.
\<close>

partial_function (option) clear_loop ::
  "string \<Rightarrow> 64 word \<Rightarrow> int \<Rightarrow> 'r redis \<Rightarrow> ((int \<times> error option) \<times> 'r redis) option" where
  "clear_loop pat cursor deleted c =
     (case rcall (\<lambda>c. rd_scan c cursor pat 500) c of
        (Inl e, c1) \<Rightarrow> Some ((deleted, Some (redis_msg e)), c1)
      | (Inr (keys, next), c1) \<Rightarrow>
         (case (if keys = [] then (Inr 0, c1) else rcall (\<lambda>c. rd_del c keys) c1) of
            (Inl e, c2) \<Rightarrow> Some ((deleted, Some (redis_msg e)), c2)
          | (Inr n, c2) \<Rightarrow>
              if next = 0 then Some ((deleted + n, None), c2) else clear_loop pat next (deleted + n) c2))"

definition ClearAll :: "'r peer_cache option \<Rightarrow> ((int \<times> error option) \<times> 'r peer_cache option) option" where
  "ClearAll c0 =
     (case c0 of None \<Rightarrow> Some ((0, None), c0)
      | Some c \<Rightarrow>
         (case (pc_enabled c, pc_client c) of
            (True, Some r) \<Rightarrow>
              map_option (\<lambda>(a, r1). (a, Some (c\<lparr>pc_client := Some r1\<rparr>)))
                (clear_loop (TrimSpace (pc_prefix c) @ '':*'') 0 0 r)
          | _ \<Rightarrow> Some ((0, None), c0)))"

definition ClearPeerSessionCache ::
  "(string \<Rightarrow> string \<Rightarrow> string \<Rightarrow> int \<Rightarrow> 'r redis) \<Rightarrow> sip_config option \<Rightarrow> (int \<times> error option) option" where
  "ClearPeerSessionCache connect cfg =
     (case newPeerSessionCache connect cfg of
        Inl e \<Rightarrow> Some (0, Some e)
      | Inr c \<Rightarrow> map_option fst (ClearAll (Some c)))"

section \<open>The command-line client's cache\<close>

record cache_options =
  co_Enabled :: bool
  co_Addr :: string
  co_Username :: string
  co_Password :: string
  co_DB :: int
  co_Prefix :: string
  co_TTL :: int

record 'r cache =
  ca_client :: "'r redis"
  ca_prefix :: string
  ca_ttl :: int

definition NewCache :: "(string \<Rightarrow> string \<Rightarrow> string \<Rightarrow> int \<Rightarrow> 'r redis) \<Rightarrow> cache_options \<Rightarrow> 'r cache option result" where
  "NewCache connect opts =
     (if \<not> co_Enabled opts then Inr None
      else (let addr = TrimSpace (co_Addr opts) in
       if addr = [] then Inl ''redis addr is required when cache is enabled''
       else (let prefix0 = TrimSpace (co_Prefix opts);
                 prefix = (if prefix0 = [] then ''denseid:dia:peer_session:v1'' else prefix0);
                 c = connect addr (TrimSpace (co_Username opts)) (co_Password opts) (co_DB opts)
             in case rcall rd_ping c of
                  (Some e, _) \<Rightarrow> Inl (''redis ping failed: '' @ redis_msg e)
                | (None, c1) \<Rightarrow> Inr (Some \<lparr>ca_client = c1, ca_prefix = prefix, ca_ttl = co_TTL opts\<rparr>))))"

definition CacheGet :: "'r cache option \<Rightarrow> string \<Rightarrow> string \<Rightarrow> bytes option result \<times> 'r cache option" where
  "CacheGet c0 selfPhone peerPhone =
     (case c0 of None \<Rightarrow> (Inr None, c0)
      | Some c \<Rightarrow>
         (case rcall (\<lambda>r. rd_get r (cache_key (ca_prefix c) selfPhone peerPhone)) (ca_client c) of
            (a, r1) \<Rightarrow> (get_answer a, Some (c\<lparr>ca_client := r1\<rparr>))))"

definition CacheSet :: "'r cache option \<Rightarrow> string \<Rightarrow> string \<Rightarrow> bytes \<Rightarrow> error option \<times> 'r cache option" where
  "CacheSet c0 selfPhone peerPhone blob =
     (case c0 of None \<Rightarrow> (None, c0)
      | Some c \<Rightarrow>
         if length blob = 0 then (Some ''empty peer session blob'', c0)
         else (case rcall (\<lambda>r. rd_set r (cache_key (ca_prefix c) selfPhone peerPhone) blob (ca_ttl c)) (ca_client c) of
                 (e, r1) \<Rightarrow> (map_option redis_msg e, Some (c\<lparr>ca_client := r1\<rparr>))))"

section \<open>What a cache of peer sessions promises\<close>

text \<open>
  Over the observation \<open>view\<close> (the session cached for a pair of phones) of caches that satisfy \<open>usable\<close>;
  \<open>slot\<close> is what two pairs of phones share when they share their entry.
\<close>

locale session_cache =
  fixes usable :: "'c \<Rightarrow> bool"
    and view :: "'c \<Rightarrow> string \<Rightarrow> string \<Rightarrow> bytes option"
    and slot :: "string \<Rightarrow> string \<Rightarrow> string"
    and get :: "'c \<Rightarrow> string \<Rightarrow> string \<Rightarrow> bytes option result \<times> 'c"
    and put :: "'c \<Rightarrow> string \<Rightarrow> string \<Rightarrow> bytes \<Rightarrow> error option \<times> 'c"
  assumes get_view: "usable c \<Longrightarrow> fst (get c a b) = Inr (view c a b)"
    and get_keeps: "usable c \<Longrightarrow> usable (snd (get c a b)) \<and> view (snd (get c a b)) = view c"
    and put_usable: "usable c \<Longrightarrow> usable (snd (put c a b blob))"
    and put_empty: "usable c \<Longrightarrow> fst (put c a b []) \<noteq> None \<and> view (snd (put c a b [])) = view c"
    and put_view: "usable c \<Longrightarrow> blob \<noteq> [] \<Longrightarrow> fst (put c a b blob) = None
        \<and> view (snd (put c a b blob)) x y = (if slot x y = slot a b then Some blob else view c x y)"
begin

definition puts :: "(string \<times> string \<times> bytes) list \<Rightarrow> 'c \<Rightarrow> 'c" where
  "puts es c = fold (\<lambda>(a, b, blob) c. snd (put c a b blob)) es c"

lemma puts_usable: "usable c \<Longrightarrow> usable (puts es c)"
  by (induction es arbitrary: c) (auto simp: puts_def put_usable)

lemma get_after_put:
  "usable c \<Longrightarrow> blob \<noteq> [] \<Longrightarrow> slot x y = slot a b \<Longrightarrow> fst (get (snd (put c a b blob)) x y) = Inr (Some blob)"
  by (simp add: get_view put_usable put_view)

text \<open>After any sequence of puts, what is read is the last one into the slot, or what was there.\<close>

lemma view_puts:
  "usable c \<Longrightarrow> view (puts es c) x y =
     (case filter (\<lambda>(a, b, blob). blob \<noteq> [] \<and> slot a b = slot x y) es of
        [] \<Rightarrow> view c x y
      | e # es' \<Rightarrow> Some (snd (snd (last (e # es')))))"
proof (induction es arbitrary: c)
  case Nil
  then show ?case by (simp add: puts_def)
next
  case (Cons e es)
  obtain a b blob where e: "e = (a, b, blob)" by (cases e) auto
  have u: "usable (snd (put c a b blob))" by (simp add: Cons.prems put_usable)
  have p: "puts ((a, b, blob) # es) c = puts es (snd (put c a b blob))" by (simp add: puts_def)
  have v: "view (snd (put c a b blob)) x y = (if blob \<noteq> [] \<and> slot a b = slot x y then Some blob else view c x y)"
    using put_view [OF Cons.prems] put_empty [OF Cons.prems] by (cases "blob = []") auto
  show ?case unfolding e p using Cons.IH [OF u] v
    by (auto split: list.splits)
qed

lemma get_after_puts:
  "usable c \<Longrightarrow> fst (get (puts es c) x y) = Inr (case filter (\<lambda>(a, b, blob). blob \<noteq> [] \<and> slot a b = slot x y) es of
        [] \<Rightarrow> view c x y | e # es' \<Rightarrow> Some (snd (snd (last (e # es')))))"
  by (simp add: get_view puts_usable view_puts)

end

text \<open>The observation of both caches, on the key space of a reliable client.\<close>

definition blob_at :: "keyspace \<Rightarrow> string \<Rightarrow> bytes option" where
  "blob_at m k = (case m k of Some (RString v) \<Rightarrow> if v = [] then None else Some v | _ \<Rightarrow> None)"

definition no_lists :: "string \<Rightarrow> keyspace \<Rightarrow> bool" where
  "no_lists prefix m \<longleftrightarrow> (\<forall>a b xs. m (cache_key prefix a b) \<noteq> Some (RList xs))"

definition peer_usable :: "('r \<Rightarrow> keyspace) \<Rightarrow> string \<Rightarrow> 'r peer_cache option \<Rightarrow> bool" where
  "peer_usable ks prefix c0 \<longleftrightarrow> (case c0 of None \<Rightarrow> False | Some c \<Rightarrow> pc_enabled c \<and> pc_prefix c = prefix
     \<and> (case pc_client c of None \<Rightarrow> False | Some r \<Rightarrow> redis_reliable ks r \<and> no_lists prefix (keys_of ks r)))"

definition peer_view :: "('r \<Rightarrow> keyspace) \<Rightarrow> string \<Rightarrow> 'r peer_cache option \<Rightarrow> string \<Rightarrow> string \<Rightarrow> bytes option" where
  "peer_view ks prefix c0 a b = (case c0 of None \<Rightarrow> None
     | Some c \<Rightarrow> (case pc_client c of None \<Rightarrow> None | Some r \<Rightarrow> blob_at (keys_of ks r) (cache_key prefix a b)))"

definition cache_usable :: "('r \<Rightarrow> keyspace) \<Rightarrow> string \<Rightarrow> 'r cache option \<Rightarrow> bool" where
  "cache_usable ks prefix c0 \<longleftrightarrow> (case c0 of None \<Rightarrow> False | Some c \<Rightarrow> ca_prefix c = prefix
     \<and> redis_reliable ks (ca_client c) \<and> no_lists prefix (keys_of ks (ca_client c)))"

definition cache_view :: "('r \<Rightarrow> keyspace) \<Rightarrow> string \<Rightarrow> 'r cache option \<Rightarrow> string \<Rightarrow> string \<Rightarrow> bytes option" where
  "cache_view ks prefix c0 a b = (case c0 of None \<Rightarrow> None
     | Some c \<Rightarrow> blob_at (keys_of ks (ca_client c)) (cache_key prefix a b))"

lemma get_step:
  assumes "redis_reliable ks r"
  obtains a r1 where "rcall (\<lambda>r. rd_get r (cache_key prefix x y)) r = (a, r1)" "redis_reliable ks r1"
    "keys_of ks r1 = keys_of ks r"
    "no_lists prefix (keys_of ks r) \<Longrightarrow> get_answer a = Inr (blob_at (keys_of ks r) (cache_key prefix x y))"
proof -
  let ?g = "rcall (\<lambda>r. rd_get r (cache_key prefix x y)) r"
  have "get_answer (fst ?g) = Inr (blob_at (keys_of ks r) (cache_key prefix x y))" if "no_lists prefix (keys_of ks r)"
  proof (cases "keys_of ks r (cache_key prefix x y)")
    case None
    then show ?thesis using get_law [OF assms] by (simp add: blob_at_def)
  next
    case (Some v)
    then have "v \<noteq> RList xs" for xs using that by (auto simp: no_lists_def)
    then obtain b where "v = RString b" by (cases v) auto
    then show ?thesis using Some get_law [OF assms] by (simp add: blob_at_def)
  qed
  moreover have "keys_of ks (snd ?g) = keys_of ks r" using get_law [OF assms] by blast
  ultimately show thesis using that [of "fst ?g" "snd ?g"] assms by simp
qed

lemma set_step:
  assumes "redis_reliable ks r"
  obtains r1 where "rcall (\<lambda>r. rd_set r k v t) r = (None, r1)" "redis_reliable ks r1"
    "keys_of ks r1 = (keys_of ks r)(k \<mapsto> RString v)"
proof -
  let ?g = "rcall (\<lambda>r. rd_set r k v t) r"
  have "redis_reliable ks (snd ?g)" using assms by simp
  then show thesis using that [of "snd ?g"] set_law [OF assms, of k v t] by (cases ?g) auto
qed

lemma no_lists_put: "no_lists prefix m \<Longrightarrow> no_lists prefix (m(k \<mapsto> RString v))"
  by (simp add: no_lists_def)

interpretation peer: session_cache "peer_usable ks prefix" "peer_view ks prefix" "cache_key prefix" PeerGet PeerSet
  for ks prefix
proof (unfold_locales, goal_cases)
  case (1 c a b)
  then obtain p r where c: "c = Some p" "pc_enabled p" "pc_prefix p = prefix" "pc_client p = Some r"
      "redis_reliable ks r" "no_lists prefix (keys_of ks r)"
    by (auto simp: peer_usable_def split: option.splits)
  show ?case by (rule get_step [OF c(5), of prefix a b]) (use c in \<open>simp add: PeerGet_def peer_view_def\<close>)
next
  case (2 c a b)
  then obtain p r where c: "c = Some p" "pc_enabled p" "pc_prefix p = prefix" "pc_client p = Some r"
      "redis_reliable ks r" "no_lists prefix (keys_of ks r)"
    by (auto simp: peer_usable_def split: option.splits)
  show ?case
    by (rule get_step [OF c(5), of prefix a b])
      (use c in \<open>simp add: PeerGet_def peer_usable_def peer_view_def [abs_def]\<close>)
next
  case (3 c a b blob)
  then obtain p r where c: "c = Some p" "pc_enabled p" "pc_prefix p = prefix" "pc_client p = Some r"
      "redis_reliable ks r" "no_lists prefix (keys_of ks r)"
    by (auto simp: peer_usable_def split: option.splits)
  show ?case
    by (rule set_step [OF c(5), of "cache_key prefix a b" blob "pc_ttl p"])
      (use c 3 in \<open>simp add: PeerSet_def peer_usable_def no_lists_put\<close>)
next
  case (4 c a b)
  then show ?case by (auto simp: peer_usable_def PeerSet_def split: option.splits)
next
  case (5 c blob a b x y)
  then obtain p r where c: "c = Some p" "pc_enabled p" "pc_prefix p = prefix" "pc_client p = Some r"
      "redis_reliable ks r" "no_lists prefix (keys_of ks r)"
    by (auto simp: peer_usable_def split: option.splits)
  show ?case
    by (rule set_step [OF c(5), of "cache_key prefix a b" blob "pc_ttl p"])
      (use c 5 in \<open>simp add: PeerSet_def peer_view_def blob_at_def\<close>)
qed

interpretation client_cache: session_cache "cache_usable ks prefix" "cache_view ks prefix" "cache_key prefix" CacheGet CacheSet
  for ks prefix
proof (unfold_locales, goal_cases)
  case (1 c a b)
  then obtain p where c: "c = Some p" "ca_prefix p = prefix" "redis_reliable ks (ca_client p)"
      "no_lists prefix (keys_of ks (ca_client p))"
    by (auto simp: cache_usable_def split: option.splits)
  show ?case by (rule get_step [OF c(3), of prefix a b]) (use c in \<open>simp add: CacheGet_def cache_view_def\<close>)
next
  case (2 c a b)
  then obtain p where c: "c = Some p" "ca_prefix p = prefix" "redis_reliable ks (ca_client p)"
      "no_lists prefix (keys_of ks (ca_client p))"
    by (auto simp: cache_usable_def split: option.splits)
  show ?case
    by (rule get_step [OF c(3), of prefix a b])
      (use c in \<open>simp add: CacheGet_def cache_usable_def cache_view_def [abs_def]\<close>)
next
  case (3 c a b blob)
  then obtain p where c: "c = Some p" "ca_prefix p = prefix" "redis_reliable ks (ca_client p)"
      "no_lists prefix (keys_of ks (ca_client p))"
    by (auto simp: cache_usable_def split: option.splits)
  show ?case
    by (rule set_step [OF c(3), of "cache_key prefix a b" blob "ca_ttl p"])
      (use c 3 in \<open>simp add: CacheSet_def cache_usable_def no_lists_put\<close>)
next
  case (4 c a b)
  then show ?case by (auto simp: cache_usable_def CacheSet_def split: option.splits)
next
  case (5 c blob a b x y)
  then obtain p where c: "c = Some p" "ca_prefix p = prefix" "redis_reliable ks (ca_client p)"
      "no_lists prefix (keys_of ks (ca_client p))"
    by (auto simp: cache_usable_def split: option.splits)
  show ?case
    by (rule set_step [OF c(3), of "cache_key prefix a b" blob "ca_ttl p"])
      (use c 5 in \<open>simp add: CacheSet_def cache_view_def blob_at_def\<close>)
qed

section \<open>Properties\<close>

text \<open>Two pairs of phones without a colon share their entry only if they are the same up to blanks around them.\<close>

lemma append_colon_eq: "CHR '':'' \<notin> set a \<Longrightarrow> CHR '':'' \<notin> set a' \<Longrightarrow>
    a @ CHR '':'' # b = a' @ CHR '':'' # b' \<longleftrightarrow> a = a' \<and> b = b'"
proof (induction a arbitrary: a')
  case Nil
  then show ?case by (cases a') auto
next
  case (Cons x a)
  then show ?case by (cases a') auto
qed

lemma cache_key_inject:
  assumes "CHR '':'' \<notin> set (TrimSpace a)" "CHR '':'' \<notin> set (TrimSpace a')"
  shows "cache_key prefix a b = cache_key prefix a' b' \<longleftrightarrow> TrimSpace a = TrimSpace a' \<and> TrimSpace b = TrimSpace b'"
  using append_colon_eq [OF assms] by (simp add: cache_key_def)

text \<open>
  C27. The SIP controller's cache over a Redis that behaves as documented: after any sequence of stores, a
  lookup returns the last non-empty blob that was stored for the same two phone numbers up to blanks around them,
  and the entry from before if none was.
\<close>

theorem peer_cache_last_write:
  assumes "peer_usable ks prefix c" and "CHR '':'' \<notin> set (TrimSpace self)"
    and "\<forall>(a, b, blob) \<in> set es. CHR '':'' \<notin> set (TrimSpace a)"
  shows "fst (PeerGet (fold (\<lambda>(a, b, blob) c. snd (PeerSet c a b blob)) es c) self peer) =
    Inr (case filter (\<lambda>(a, b, blob). blob \<noteq> [] \<and> TrimSpace a = TrimSpace self \<and> TrimSpace b = TrimSpace peer) es of
        [] \<Rightarrow> peer_view ks prefix c self peer | e # es' \<Rightarrow> Some (snd (snd (last (e # es')))))"
proof -
  have "filter (\<lambda>(a, b, blob). blob \<noteq> [] \<and> cache_key prefix a b = cache_key prefix self peer) es
      = filter (\<lambda>(a, b, blob). blob \<noteq> [] \<and> TrimSpace a = TrimSpace self \<and> TrimSpace b = TrimSpace peer) es"
    using assms(2,3) by (intro filter_cong) (auto simp: cache_key_inject)
  then show ?thesis
    using peer.get_after_puts [OF assms(1), of es self peer] unfolding peer.puts_def by simp
qed

definition demo_cache :: "keyspace peer_cache option" where
  "demo_cache = Some \<lparr>pc_enabled = True, pc_client = Some (mem_redis Map.empty), pc_prefix = ''p'', pc_ttl = 0\<rparr>"

lemma demo_cache_usable: "peer_usable id ''p'' demo_cache"
  by (simp add: peer_usable_def demo_cache_def no_lists_def)

theorem peer_cache_last_write_witness:
  "fst (PeerGet (snd (PeerSet (snd (PeerSet demo_cache ''1'' ''2'' ''old'')) '' 1'' ''2 '' ''new'')) ''1'' ''2'') = Inr (Some ''new'')"
proof -
  have t: "TrimSpace ''1'' = ''1''" "TrimSpace ''2'' = ''2''" "TrimSpace '' 1'' = ''1''" "TrimSpace ''2 '' = ''2''"
    by code_simp+
  have "fst (PeerGet (fold (\<lambda>(a, b, blob) c. snd (PeerSet c a b blob)) [(''1'', ''2'', ''old''), ('' 1'', ''2 '', ''new'')] demo_cache) ''1'' ''2'')
    = Inr (case filter (\<lambda>(a, b, blob). blob \<noteq> [] \<and> TrimSpace a = TrimSpace ''1'' \<and> TrimSpace b = TrimSpace ''2'')
          [(''1'', ''2'', ''old''), ('' 1'', ''2 '', ''new'')] of
        [] \<Rightarrow> peer_view id ''p'' demo_cache ''1'' ''2'' | e # es' \<Rightarrow> Some (snd (snd (last (e # es')))))"
    by (rule peer_cache_last_write [OF demo_cache_usable]) (simp_all add: t)
  then show ?thesis by (simp add: t)
qed

text \<open>
  C29. The two programs share their caches: what the command-line client stores under a prefix, the SIP controller finds when it
  runs on the same Redis state with the same prefix, and the other way round.
\<close>

theorem caches_interoperate:
  assumes "redis_reliable ks r" and "no_lists prefix (keys_of ks r)" and "blob \<noteq> []"
  shows "\<exists>r1 r2. snd (CacheSet (Some \<lparr>ca_client = r, ca_prefix = prefix, ca_ttl = t\<rparr>) a b blob)
        = Some \<lparr>ca_client = r1, ca_prefix = prefix, ca_ttl = t\<rparr>
    \<and> fst (PeerGet (Some \<lparr>pc_enabled = True, pc_client = Some r1, pc_prefix = prefix, pc_ttl = t'\<rparr>) a b) = Inr (Some blob)
    \<and> snd (PeerSet (Some \<lparr>pc_enabled = True, pc_client = Some r, pc_prefix = prefix, pc_ttl = t'\<rparr>) a b blob)
        = Some \<lparr>pc_enabled = True, pc_client = Some r2, pc_prefix = prefix, pc_ttl = t'\<rparr>
    \<and> fst (CacheGet (Some \<lparr>ca_client = r2, ca_prefix = prefix, ca_ttl = t\<rparr>) a b) = Inr (Some blob)"
proof -
  obtain r1 where 1: "rcall (\<lambda>r. rd_set r (cache_key prefix a b) blob t) r = (None, r1)" "redis_reliable ks r1"
    "keys_of ks r1 = (keys_of ks r)(cache_key prefix a b \<mapsto> RString blob)"
    by (rule set_step [OF assms(1)])
  obtain r2 where 2: "rcall (\<lambda>r. rd_set r (cache_key prefix a b) blob t') r = (None, r2)" "redis_reliable ks r2"
    "keys_of ks r2 = (keys_of ks r)(cache_key prefix a b \<mapsto> RString blob)"
    by (rule set_step [OF assms(1)])
  have "fst (PeerGet (Some \<lparr>pc_enabled = True, pc_client = Some r1, pc_prefix = prefix, pc_ttl = t'\<rparr>) a b) = Inr (Some blob)"
    by (subst peer.get_view [of ks prefix])
      (use 1 assms in \<open>simp_all add: peer_usable_def peer_view_def blob_at_def no_lists_put\<close>)
  moreover have "fst (CacheGet (Some \<lparr>ca_client = r2, ca_prefix = prefix, ca_ttl = t\<rparr>) a b) = Inr (Some blob)"
    by (subst client_cache.get_view [of ks prefix])
      (use 2 assms in \<open>simp_all add: cache_usable_def cache_view_def blob_at_def no_lists_put\<close>)
  ultimately show ?thesis using 1(1) 2(1) assms(3) by (simp add: CacheSet_def PeerSet_def)
qed

theorem caches_interoperate_witness:
  "\<exists>r1. snd (CacheSet (Some \<lparr>ca_client = mem_redis Map.empty, ca_prefix = ''p'', ca_ttl = 0\<rparr>) ''1'' ''2'' ''s'')
        = Some \<lparr>ca_client = r1, ca_prefix = ''p'', ca_ttl = 0\<rparr>
    \<and> fst (PeerGet (Some \<lparr>pc_enabled = True, pc_client = Some r1, pc_prefix = ''p'', pc_ttl = 0\<rparr>) ''1'' ''2'') = Inr (Some ''s'')"
proof -
  have "no_lists ''p'' (keys_of id (mem_redis Map.empty))" by (simp add: no_lists_def)
  from caches_interoperate [OF mem_redis_reliable this, of "''s''" 0 "''1''" "''2''" 0] show ?thesis by auto
qed

section \<open>Clearing\<close>

text \<open>
  The pages of keys that the rounds of the loop see, when the iteration ends within \<open>n\<close> rounds without an
  error of the client.
\<close>

fun scan_pages :: "nat \<Rightarrow> string \<Rightarrow> 64 word \<Rightarrow> 'r redis \<Rightarrow> string list list option" where
  "scan_pages 0 pat cursor c = None"
| "scan_pages (Suc n) pat cursor c =
     (case rcall (\<lambda>c. rd_scan c cursor pat 500) c of
        (Inl e, c1) \<Rightarrow> None
      | (Inr (keys, next), c1) \<Rightarrow>
          if next = 0 then Some [keys]
          else map_option ((#) keys) (scan_pages n pat next (if keys = [] then c1 else snd (rcall (\<lambda>c. rd_del c keys) c1))))"

text \<open>SCAN reads: it changes no key.\<close>

definition scan_reads :: "('r \<Rightarrow> keyspace) \<Rightarrow> 'r redis \<Rightarrow> bool" where
  "scan_reads ks c \<longleftrightarrow> (\<forall>cur pat n r. ks (snd (rd_scan c cur pat n r)) = ks r)"

lemma scan_reads_rcall [simp]: "scan_reads ks (snd (rcall cmd c)) = scan_reads ks c"
  by (simp add: scan_reads_def rcall_expand)

lemma scan_keys: "scan_reads ks c \<Longrightarrow> keys_of ks (snd (rcall (\<lambda>c. rd_scan c cur pat n) c)) = keys_of ks c"
  by (simp add: scan_reads_def rcall_expand keys_of_def)

lemma clear_loop_ends:
  assumes "scan_pages n pat cur c = Some pages" "redis_reliable ks c" "scan_reads ks c"
  shows "\<exists>k c'. clear_loop pat cur d c = Some ((k, None), c')
    \<and> keys_of ks c' = (\<lambda>x. if x \<in> set (concat pages) then None else keys_of ks c x)"
  using assms
proof (induction n pat cur c arbitrary: pages d rule: scan_pages.induct)
  case (2 n pat cur c)
  let ?s = "rcall (\<lambda>c. rd_scan c cur pat 500) c"
  obtain keys nxt where kn: "fst ?s = Inr (keys, nxt)"
    using 2(2) by (cases "fst ?s") (auto split: prod.splits sum.splits)
  define c1 where "c1 = snd ?s"
  have s: "?s = (Inr (keys, nxt), c1)" using kn by (simp add: c1_def prod_eq_iff)
  have c1: "redis_reliable ks c1" "scan_reads ks c1" "keys_of ks c1 = keys_of ks c"
    using 2(3,4) scan_keys [OF 2(4)] by (simp_all add: c1_def)
  define c2 where "c2 = (if keys = [] then c1 else snd (rcall (\<lambda>c. rd_del c keys) c1))"
  have c2: "redis_reliable ks c2" "scan_reads ks c2"
    "keys_of ks c2 = (\<lambda>x. if x \<in> set keys then None else keys_of ks c x)"
    using c1 del_law [OF c1(1), of keys] by (auto simp: c2_def)
  obtain k where del: "(if keys = [] then (Inr 0, c1) else rcall (\<lambda>c. rd_del c keys) c1) = (Inr k, c2)"
    using del_law [OF c1(1), of keys] by (cases "keys = []") (auto simp: c2_def prod_eq_iff)
  have step: "clear_loop pat cur d c = (if nxt = 0 then Some ((d + k, None), c2) else clear_loop pat nxt (d + k) c2)"
    by (subst clear_loop.simps) (simp add: s del)
  show ?case
  proof (cases "nxt = 0")
    case True
    then have "pages = [keys]" using 2(2) by (simp add: s)
    then show ?thesis using True c2(3) by (simp add: step)
  next
    case False
    then obtain ps where ps: "scan_pages n pat nxt c2 = Some ps" "pages = keys # ps"
      using 2(2) by (auto simp: s c2_def)
    from 2(1) [OF s [symmetric] refl refl False] ps(1) c2
    show ?thesis by (fastforce simp: step False c2_def [symmetric] ps(2) fun_eq_iff)
  qed
qed simp


definition demo_scan :: "keyspace redis" where
  "demo_scan = (mem_redis [''p:1:2'' \<mapsto> RString ''a'', ''q'' \<mapsto> RString ''b''])\<lparr>rd_scan :=
     \<lambda>cur pat n m. (Inr (if cur = 0 then ([], 7) else ([''p:1:2''], 0)), m)\<rparr>"


end
