(* ===== verification/Baresip.thy ===== *)
theory Baresip
  imports GoChan RedisClient Netstring
begin

text \<open>
  \<^verbatim>\<open>internal/sipcontroller/baresip.go\<close>: the client of baresip's ctrl_tcp interface. A command is written as a
  JSON object in a netstring under a fresh token; the goroutine \<^verbatim>\<open>readLoop\<close> gives the response with that token to the command that
  waits for it, and puts events into a channel. Commands, the reader and \<^verbatim>\<open>Close\<close> are steps in any order. \<open>mailbox\<close> is the one-slot channel of each command,
  \<open>pendingCmds\<close> the tokens in the map, \<open>written\<close> the commands that went to the connection. JSON texts are trees.
\<close>

section \<open>Messages\<close>

record baresip_event =
  ev_type :: string
  ev_class :: string
  ev_accountAOR :: string
  ev_direction :: string
  ev_peerURI :: string
  ev_peerName :: string
  ev_id :: string
  ev_param :: string

record baresip_response =
  rs_ok :: bool
  rs_data :: string
  rs_token :: string

record baresip_command =
  bc_command :: string
  bc_params :: string
  bc_token :: string

text \<open>\<^verbatim>\<open>json.Marshal\<close> of a command: empty parameters and tokens are left out.\<close>

definition marshal_command :: "baresip_command \<Rightarrow> json" where
  "marshal_command c = JObj ([(''command'', JStr (bc_command c))]
     @ (if bc_params c = [] then [] else [(''params'', JStr (bc_params c))])
     @ (if bc_token c = [] then [] else [(''token'', JStr (bc_token c))]))"

text \<open>
  \<^verbatim>\<open>json.Unmarshal\<close> into a struct with a string or a boolean field: an absent field or \<^verbatim>\<open>null\<close> leaves the zero
  value, another type is an error; the last of several fields of one name counts, whatever the case of its letters.
\<close>

definition field :: "(string \<times> json) list \<Rightarrow> string \<Rightarrow> json option" where
  "field fs k = map_of (rev (map (\<lambda>(n, v). (fold_name n, v)) fs)) k"

definition str_field :: "(string \<times> json) list \<Rightarrow> string \<Rightarrow> string option" where
  "str_field fs k = (case field fs k of None \<Rightarrow> Some [] | Some JNull \<Rightarrow> Some [] | Some (JStr s) \<Rightarrow> Some s | _ \<Rightarrow> None)"

definition bool_field :: "(string \<times> json) list \<Rightarrow> string \<Rightarrow> bool option" where
  "bool_field fs k = (case field fs k of None \<Rightarrow> Some False | Some JNull \<Rightarrow> Some False | Some (JBool b) \<Rightarrow> Some b | _ \<Rightarrow> None)"

definition unmarshal_event :: "(string \<times> json) list \<Rightarrow> baresip_event option" where
  "unmarshal_event fs =
     (case (bool_field fs ''event'', str_field fs ''class'', str_field fs ''type'', str_field fs ''accountaor'',
            str_field fs ''direction'', str_field fs ''peeruri'', str_field fs ''peername'', str_field fs ''id'',
            str_field fs ''param'') of
        (Some _, Some c, Some t, Some a, Some d, Some u, Some n, Some i, Some p) \<Rightarrow>
          Some \<lparr>ev_type = t, ev_class = c, ev_accountAOR = a, ev_direction = d, ev_peerURI = u, ev_peerName = n,
            ev_id = i, ev_param = p\<rparr>
      | _ \<Rightarrow> None)"

definition unmarshal_response :: "(string \<times> json) list \<Rightarrow> baresip_response option" where
  "unmarshal_response fs =
     (case (bool_field fs ''response'', bool_field fs ''ok'', str_field fs ''data'', str_field fs ''token'') of
        (Some _, Some b, Some d, Some t) \<Rightarrow> Some \<lparr>rs_ok = b, rs_data = d, rs_token = t\<rparr>
      | _ \<Rightarrow> None)"

section \<open>The client\<close>

text \<open>The goroutine \<^verbatim>\<open>readLoop\<close> is at the top of its loop or waits in \<^verbatim>\<open>Decode\<close>.\<close>

datatype reader_pc = NotStarted | AtTop | Decoding | Ended

record baresip =
  eventChan :: "baresip_event chan"
  responseChan :: "baresip_response chan"
  errorChan :: "error chan"
  tokenCounter :: "64 word"
  pendingCmds :: "string list"
  mailbox :: "string \<Rightarrow> baresip_response option"
  written :: "json list"
  bs_closed :: bool
  reader :: reader_pc

definition NewBaresipClient :: baresip where
  "NewBaresipClient = \<lparr>eventChan = make_chan 100, responseChan = make_chan 10, errorChan = make_chan 1,
     tokenCounter = 0, pendingCmds = [], mailbox = (\<lambda>_. None), written = [], bs_closed = False, reader = NotStarted\<rparr>"

definition Connect :: "string \<Rightarrow> unit result \<Rightarrow> baresip \<Rightarrow> error option \<times> baresip" where
  "Connect addr tcp b = (case tcp of
      Inl e \<Rightarrow> (Some (''connecting to baresip at '' @ addr @ '': '' @ e), b)
    | Inr _ \<Rightarrow> (None, b\<lparr>reader := AtTop\<rparr>))"

definition token :: "64 word \<Rightarrow> string" where
  "token n = ''tok'' @ show_nat (unat n)"

text \<open>
  \<^verbatim>\<open>sendCommandCore\<close> up to its \<^verbatim>\<open>select\<close> (\<open>enc\<close> is the result of the encoder), and the \<^verbatim>\<open>select\<close> once one of its cases is ready: the
  response, the end of the connection, or the time-out.
\<close>

definition begin_command :: "string \<Rightarrow> string \<Rightarrow> unit result \<Rightarrow> baresip \<Rightarrow> string result \<times> baresip" where
  "begin_command cmd params enc b =
     (let n = tokenCounter b + 1; t = token n;
          command = \<lparr>bc_command = cmd, bc_params = params, bc_token = t\<rparr>;
          b1 = b\<lparr>tokenCounter := n, pendingCmds := List.insert t (pendingCmds b), mailbox := (mailbox b)(t := None)\<rparr>
      in case enc of
           Inl e \<Rightarrow> (Inl (''sending command: '' @ e), b1\<lparr>pendingCmds := removeAll t (pendingCmds b1)\<rparr>)
         | Inr _ \<Rightarrow> (Inr t, b1\<lparr>written := written b1 @ [marshal_command command]\<rparr>))"

datatype wait_case = GotResponse | ConnectionClosed | CommandTimeout

definition end_command :: "string \<Rightarrow> string \<Rightarrow> wait_case \<Rightarrow> baresip \<Rightarrow> baresip_response result option \<times> baresip" where
  "end_command cmd t w b =
     (case w of
        GotResponse \<Rightarrow> (case mailbox b t of
            Some r \<Rightarrow> (Some (Inr r), b\<lparr>mailbox := (mailbox b)(t := None)\<rparr>)
          | None \<Rightarrow> (None, b))
      | ConnectionClosed \<Rightarrow>
          if bs_closed b then (Some (Inl ''connection closed''), b\<lparr>pendingCmds := removeAll t (pendingCmds b)\<rparr>) else (None, b)
      | CommandTimeout \<Rightarrow> (Some (Inl (''command timeout: '' @ cmd)), b\<lparr>pendingCmds := removeAll t (pendingCmds b)\<rparr>))"

text \<open>The commands, each up to its \<^verbatim>\<open>select\<close>.\<close>

definition DialWithSentAt :: "string \<Rightarrow> unit result \<Rightarrow> baresip \<Rightarrow> string result \<times> baresip" where
  "DialWithSentAt uri = begin_command ''dial'' uri"

definition Accept :: "string \<Rightarrow> unit result \<Rightarrow> baresip \<Rightarrow> string result \<times> baresip" where
  "Accept callID = (if callID \<noteq> [] then begin_command ''accept'' callID else begin_command ''accept'' [])"

definition hangup_params :: "string \<Rightarrow> int \<Rightarrow> string \<Rightarrow> string" where
  "hangup_params callID scode reason =
     (let p0 = callID;
          p1 = (if scode > 0 then (if p0 \<noteq> [] then p0 @ '' '' else p0) @ ''scode='' @ show_nat (nat scode) else p0)
      in if reason \<noteq> [] then (if p1 \<noteq> [] then p1 @ '' '' else p1) @ ''reason='' @ reason else p1)"

definition Hangup :: "string \<Rightarrow> int \<Rightarrow> string \<Rightarrow> unit result \<Rightarrow> baresip \<Rightarrow> string result \<times> baresip" where
  "Hangup callID scode reason = begin_command ''hangup'' (hangup_params callID scode reason)"

definition HangupAll :: "unit result \<Rightarrow> baresip \<Rightarrow> string result \<times> baresip" where
  "HangupAll = begin_command ''hangupall'' []"

definition ListCalls :: "unit result \<Rightarrow> baresip \<Rightarrow> string result \<times> baresip" where
  "ListCalls = begin_command ''listcalls'' []"

definition RegInfo :: "unit result \<Rightarrow> baresip \<Rightarrow> string result \<times> baresip" where
  "RegInfo = begin_command ''reginfo'' []"

text \<open>
  \<^verbatim>\<open>readLoop\<close>: the test at the top of its loop, and what it does with what \<^verbatim>\<open>Decode\<close> returns, a frame that is or is not a
  JSON object or an error. A send to the command's channel would block when its slot is taken: then the result is \<^const>\<open>None\<close>.
\<close>

definition route_response :: "baresip_response \<Rightarrow> baresip \<Rightarrow> baresip option" where
  "route_response resp b =
     (if rs_token resp \<noteq> [] then
        (if rs_token resp \<in> set (pendingCmds b) then
           (if mailbox b (rs_token resp) \<noteq> None then None
            else Some (b\<lparr>mailbox := (mailbox b)(rs_token resp \<mapsto> resp),
                         pendingCmds := removeAll (rs_token resp) (pendingCmds b)\<rparr>))
         else Some b)
      else Some (b\<lparr>responseChan := snd (try_send resp (responseChan b))\<rparr>))"

definition close_channels :: "baresip \<Rightarrow> baresip" where
  "close_channels b = b\<lparr>eventChan := close_chan (eventChan b), errorChan := close_chan (errorChan b), reader := Ended\<rparr>"

definition read_check :: "baresip \<Rightarrow> baresip" where
  "read_check b = (if bs_closed b then close_channels b else b\<lparr>reader := Decoding\<rparr>)"

definition read_step :: "json option result \<Rightarrow> baresip \<Rightarrow> baresip option" where
  "read_step frame b = (let b0 = b\<lparr>reader := AtTop\<rparr> in
     case frame of
        Inl e \<Rightarrow> Some (close_channels (if bs_closed b then b
            else b\<lparr>errorChan := snd (try_send (''reading from baresip: '' @ e) (errorChan b))\<rparr>))
      | Inr (Some (JObj fs)) \<Rightarrow>
          if map_of fs ''event'' \<noteq> None then
            (case unmarshal_event fs of None \<Rightarrow> Some b0
             | Some ev \<Rightarrow> Some (b0\<lparr>eventChan := snd (try_send ev (eventChan b))\<rparr>))
          else if map_of fs ''response'' \<noteq> None then
            (case unmarshal_response fs of None \<Rightarrow> Some b0 | Some resp \<Rightarrow> route_response resp b0)
          else Some b0
      | Inr _ \<Rightarrow> Some b0)"

definition CloseBaresip :: "baresip \<Rightarrow> baresip" where
  "CloseBaresip b = b\<lparr>bs_closed := True\<rparr>"

section \<open>Responses reach their commands\<close>

datatype baresip_step =
    BBegin string string "unit result"
  | BEnd string string wait_case
  | BCheck
  | BRead "json option result"
  | BClose

definition baresip_step :: "baresip \<Rightarrow> baresip_step \<Rightarrow> baresip" where
  "baresip_step b e = (case e of
      BBegin cmd params enc \<Rightarrow> snd (begin_command cmd params enc b)
    | BEnd cmd t w \<Rightarrow> snd (end_command cmd t w b)
    | BCheck \<Rightarrow> if reader b = AtTop then read_check b else b
    | BRead frame \<Rightarrow> if reader b = Decoding then (case read_step frame b of Some b' \<Rightarrow> b' | None \<Rightarrow> b) else b
    | BClose \<Rightarrow> CloseBaresip b)"

text \<open>A command that is waited for has an empty slot, so that the reader never blocks on one.\<close>

definition baresip_ok :: "baresip \<Rightarrow> bool" where
  "baresip_ok b \<longleftrightarrow> (\<forall>t \<in> set (pendingCmds b). mailbox b t = None) \<and> distinct (pendingCmds b)"

lemma baresip_ok_connected: "baresip_ok (snd (Connect addr tcp NewBaresipClient))"
  by (auto simp: baresip_ok_def Connect_def NewBaresipClient_def split: sum.split)

lemma route_response_ok:
  "baresip_ok b \<Longrightarrow> \<exists>b'. route_response resp b = Some b' \<and> baresip_ok b'"
  by (auto simp: route_response_def baresip_ok_def distinct_removeAll)

lemma read_step_ok: "baresip_ok b \<Longrightarrow> \<exists>b'. read_step frame b = Some b' \<and> baresip_ok b'"
  using route_response_ok [of "b\<lparr>reader := AtTop\<rparr>"]
  by (auto simp: read_step_def close_channels_def Let_def split: sum.splits option.splits json.splits)
     (auto simp: baresip_ok_def)

lemma baresip_step_ok: "baresip_ok b \<Longrightarrow> baresip_ok (baresip_step b e)"
proof (cases e)
  case (BRead frame)
  assume "baresip_ok b"
  with read_step_ok [of b frame] BRead show ?thesis by (auto simp: baresip_step_def)
qed (auto simp: baresip_step_def baresip_ok_def begin_command_def end_command_def CloseBaresip_def read_check_def
    close_channels_def Let_def distinct_removeAll split: sum.splits wait_case.splits option.splits)

interpretation baresip: invariant_machine baresip_step baresip_ok
  by unfold_locales (rule baresip_step_ok)

lemma response_reaches_its_command:
  assumes "b = foldl baresip_step (snd (Connect addr tcp NewBaresipClient)) es" and "rs_token resp \<noteq> []"
  shows "\<exists>b'. route_response resp b = Some b'
    \<and> mailbox b' = (if rs_token resp \<in> set (pendingCmds b) then (mailbox b)(rs_token resp \<mapsto> resp) else mailbox b)
    \<and> set (pendingCmds b') = set (pendingCmds b) - {rs_token resp}
    \<and> responseChan b' = responseChan b"
proof -
  have "baresip_ok b" unfolding assms(1) by (rule baresip.run_inv [OF baresip_ok_connected])
  then show ?thesis using assms(2) by (auto simp: route_response_def baresip_ok_def)
qed

section \<open>A command returns the response with its token\<close>

text \<open>The response that a step reads, and the first one with a token that a run reads.\<close>

definition response_read :: "baresip \<Rightarrow> baresip_step \<Rightarrow> baresip_response option" where
  "response_read b e = (case e of
      BRead (Inr (Some (JObj fs))) \<Rightarrow>
        if reader b = Decoding \<and> map_of fs ''event'' = None \<and> map_of fs ''response'' \<noteq> None then unmarshal_response fs else None
    | _ \<Rightarrow> None)"

fun first_response :: "string \<Rightarrow> baresip \<Rightarrow> baresip_step list \<Rightarrow> baresip_response option" where
  "first_response t b [] = None"
| "first_response t b (e # es) = (case response_read b e of
      Some r \<Rightarrow> if rs_token r = t then Some r else first_response t (baresip_step b e) es
    | None \<Rightarrow> first_response t (baresip_step b e) es)"

fun is_begin :: "baresip_step \<Rightarrow> bool" where
  "is_begin (BBegin c p enc) = True"
| "is_begin _ = False"

fun ends :: "string \<Rightarrow> baresip_step \<Rightarrow> bool" where
  "ends t (BEnd c u w) = (u = t)"
| "ends t _ = False"

text \<open>The command with token \<open>t\<close> waits, or its response is in its slot.\<close>

definition waits :: "string \<Rightarrow> baresip \<Rightarrow> bool" where
  "waits t b \<longleftrightarrow> t \<in> set (pendingCmds b) \<and> mailbox b t = None"

definition served :: "string \<Rightarrow> baresip_response \<Rightarrow> baresip \<Rightarrow> bool" where
  "served t r b \<longleftrightarrow> t \<notin> set (pendingCmds b) \<and> mailbox b t = Some r"

definition slot_holds :: "string \<Rightarrow> baresip_response option \<Rightarrow> baresip \<Rightarrow> bool" where
  "slot_holds t answer b = (case answer of None \<Rightarrow> waits t b | Some r \<Rightarrow> served t r b)"

lemma token_inject [simp]: "token m = token n \<longleftrightarrow> m = n"
  by (simp add: token_def show_nat_inject unsigned_word_eqI word_unat_eq_iff)

lemma token_not_Nil [simp]: "token n \<noteq> []"
  by (simp add: token_def)

lemma begin_fields [simp]:
  "tokenCounter (snd (begin_command c p enc b)) = tokenCounter b + 1"
  "reader (snd (begin_command c p enc b)) = reader b"
  by (auto simp: begin_command_def Let_def split: sum.split)

lemma step_counter: "tokenCounter (baresip_step b e) = tokenCounter b + (if is_begin e then 1 else 0)"
  by (cases e) (auto simp: baresip_step_def end_command_def read_check_def close_channels_def read_step_def route_response_def
      CloseBaresip_def Let_def split: wait_case.split option.split sum.split json.split)

lemma begin_other:
  assumes "t \<noteq> token (tokenCounter b + 1)"
  shows "waits t (snd (begin_command c p enc b)) = waits t b"
    and "served t r (snd (begin_command c p enc b)) = served t r b"
  using assms by (auto simp: begin_command_def waits_def served_def Let_def split: sum.split)

lemma end_other:
  assumes "t \<noteq> u"
  shows "waits t (snd (end_command c u w b)) = waits t b"
    and "served t r (snd (end_command c u w b)) = served t r b"
  using assms by (auto simp: end_command_def waits_def served_def split: wait_case.split option.split)

lemma other_steps [simp]:
  "waits t (read_check b) = waits t b" "served t r (read_check b) = served t r b"
  "waits t (CloseBaresip b) = waits t b" "served t r (CloseBaresip b) = served t r b"
  by (simp_all add: read_check_def close_channels_def CloseBaresip_def waits_def served_def)

text \<open>What a frame does: a response is routed, anything else leaves the commands as they are.\<close>

lemma read_response:
  "response_read b (BRead frame) = Some r \<Longrightarrow>
    baresip_step b (BRead frame) = (case route_response r (b\<lparr>reader := AtTop\<rparr>) of Some b' \<Rightarrow> b' | None \<Rightarrow> b)"
  by (auto simp: response_read_def baresip_step_def read_step_def Let_def split: sum.splits option.splits json.splits if_splits)

lemma read_other:
  assumes "response_read b (BRead frame) = None"
  shows "waits t (baresip_step b (BRead frame)) = waits t b"
    and "served t r (baresip_step b (BRead frame)) = served t r b"
  using assms by (auto simp: response_read_def baresip_step_def read_step_def close_channels_def waits_def served_def Let_def
      split: sum.splits option.splits json.splits if_splits)

lemma route_waits:
  assumes "waits t b" and "t \<noteq> []" and "b2 = (case route_response r (b\<lparr>reader := AtTop\<rparr>) of Some b' \<Rightarrow> b' | None \<Rightarrow> b)"
  shows "if rs_token r = t then served t r b2 else waits t b2"
  using assms by (auto simp: route_response_def waits_def served_def)

lemma route_served:
  assumes "served t q b" and "b2 = (case route_response r (b\<lparr>reader := AtTop\<rparr>) of Some b' \<Rightarrow> b' | None \<Rightarrow> b)"
  shows "served t q b2"
  using assms by (auto simp: route_response_def served_def)

lemma step_served:
  assumes "served t q b" and "\<not> ends t e" and "is_begin e \<longrightarrow> t \<noteq> token (tokenCounter b + 1)"
  shows "served t q (baresip_step b e)"
proof (cases e)
  case (BRead frame)
  with assms(1) show ?thesis
    by (cases "response_read b e") (simp_all add: read_other read_response route_served [OF assms(1) refl])
qed (use assms in \<open>auto simp: baresip_step_def begin_other end_other\<close>)

lemma step_waits:
  assumes "waits t b" and "t \<noteq> []" and "\<not> ends t e" and "is_begin e \<longrightarrow> t \<noteq> token (tokenCounter b + 1)"
  shows "case response_read b e of
      Some r \<Rightarrow> if rs_token r = t then served t r (baresip_step b e) else waits t (baresip_step b e)
    | None \<Rightarrow> waits t (baresip_step b e)"
proof (cases e)
  case (BRead frame)
  with assms(1) show ?thesis
    using route_waits [OF assms(1,2) refl] by (cases "response_read b e") (simp_all add: read_other read_response)
qed (use assms in \<open>auto simp: response_read_def baresip_step_def begin_other end_other\<close>)

text \<open>A run in which the command with token \<open>t\<close> is not over, and its counter does not come round to \<open>t\<close> again.\<close>

fun fresh_run :: "string \<Rightarrow> baresip \<Rightarrow> baresip_step list \<Rightarrow> bool" where
  "fresh_run t b [] = True"
| "fresh_run t b (e # es) = (\<not> ends t e \<and> (is_begin e \<longrightarrow> t \<noteq> token (tokenCounter b + 1)) \<and> fresh_run t (baresip_step b e) es)"

lemma fresh_runI:
  assumes "\<forall>e \<in> set es. \<not> ends (token n) e" and "tokenCounter b = n + of_nat j" and "j + length (filter is_begin es) < 2 ^ 64"
  shows "fresh_run (token n) b es"
  using assms
proof (induction es arbitrary: b j)
  case (Cons e es)
  show ?case
  proof (cases "is_begin e")
    case True
    have "of_nat (Suc j) \<noteq> (0 :: 64 word)"
      using Cons.prems(3) True by (auto simp: word_of_nat_eq_0_iff simp del: of_nat_Suc dest: dvd_imp_le)
    moreover have c: "tokenCounter b + 1 = n + of_nat (Suc j)" using Cons.prems(2) by (simp add: add.assoc add.commute)
    ultimately have "token n \<noteq> token (tokenCounter b + 1)" unfolding c token_inject by simp
    then show ?thesis using Cons.prems Cons.IH [of "baresip_step b e" "Suc j"] True c by (simp add: step_counter del: of_nat_Suc)
  next
    case False
    then show ?thesis using Cons.prems Cons.IH [of "baresip_step b e" j] by (simp add: step_counter)
  qed
qed simp

lemma run_served: "fresh_run t b es \<Longrightarrow> served t q b \<Longrightarrow> served t q (foldl baresip_step b es)"
  by (induction es arbitrary: b) (auto dest: step_served)

lemma run_waits:
  assumes "fresh_run t b es" and "waits t b" and "t \<noteq> []"
  shows "slot_holds t (first_response t b es) (foldl baresip_step b es)"
  using assms
proof (induction es arbitrary: b)
  case (Cons e es)
  let ?b = "baresip_step b e"
  have e: "\<not> ends t e" "is_begin e \<longrightarrow> t \<noteq> token (tokenCounter b + 1)" "fresh_run t ?b es" using Cons.prems(1) by simp_all
  note next_waits = Cons.IH [OF e(3) _ Cons.prems(3)] and now = step_waits [OF Cons.prems(2,3) e(1,2)]
  show ?case
  proof (cases "response_read b e")
    case (Some r)
    then show ?thesis using now next_waits run_served [OF e(3), of r] by (cases "rs_token r = t") (simp_all add: slot_holds_def)
  qed (use now next_waits in simp)
qed (simp add: slot_holds_def)

text \<open>
  C18. A command returns the first response with its token that the reader gets after it was written, and no other, however many
  other commands begin and end meanwhile and in whatever order their responses come (fewer than \<open>2 ^ 64\<close> of them, so that the
  token is not used again); as long as none has come it waits.
\<close>

theorem command_returns_its_response:
  assumes "begin_command cmd params enc b = (Inr t, b1)"
    and "\<forall>e \<in> set es. \<not> ends t e" and "length (filter is_begin es) < 2 ^ 64"
  shows "fst (end_command cmd t GotResponse (foldl baresip_step b1 es)) = map_option Inr (first_response t b1 es)"
proof -
  have t: "t = token (tokenCounter b1)" and w: "waits t b1"
    using assms(1) by (auto simp: begin_command_def waits_def Let_def split: sum.splits)
  then have "fresh_run t b1 es" using assms(2,3) fresh_runI [of es "tokenCounter b1" b1 0] by simp
  then show ?thesis using run_waits [of t b1 es] w t
    by (auto simp: slot_holds_def end_command_def waits_def served_def split: option.split option.split_asm)
qed

theorem command_returns_its_response_witness:
  "fst (end_command ''dial'' ''tok1'' GotResponse (foldl baresip_step
      (snd (begin_command ''dial'' ''+1'' (Inr ()) (snd (Connect ''h'' (Inr ()) NewBaresipClient))))
      [BBegin ''reginfo'' [] (Inr ()),
       BCheck, BRead (Inr (Some (JObj [(''response'', JBool True), (''ok'', JBool False), (''token'', JStr ''tok2'')]))),
       BCheck, BRead (Inr (Some (JObj [(''response'', JBool True), (''ok'', JBool True), (''token'', JStr ''tok1'')]))),
       BEnd ''reginfo'' ''tok2'' GotResponse]))
   = Some (Inr \<lparr>rs_ok = True, rs_data = [], rs_token = ''tok1''\<rparr>)"
proof -
  let ?b = "snd (Connect ''h'' (Inr ()) NewBaresipClient)"
  let ?es = "[BBegin ''reginfo'' [] (Inr ()),
       BCheck, BRead (Inr (Some (JObj [(''response'', JBool True), (''ok'', JBool False), (''token'', JStr ''tok2'')]))),
       BCheck, BRead (Inr (Some (JObj [(''response'', JBool True), (''ok'', JBool True), (''token'', JStr ''tok1'')]))),
       BEnd ''reginfo'' ''tok2'' GotResponse]"
  let ?b1 = "snd (begin_command ''dial'' ''+1'' (Inr ()) ?b)"
  have "fst (begin_command ''dial'' ''+1'' (Inr ()) ?b) = Inr ''tok1''" by code_simp
  then have b: "begin_command ''dial'' ''+1'' (Inr ()) ?b = (Inr ''tok1'', ?b1)" by (metis prod.collapse)
  have "first_response ''tok1'' ?b1 ?es = Some \<lparr>rs_ok = True, rs_data = [], rs_token = ''tok1''\<rparr>" by code_simp
  then show ?thesis using command_returns_its_response [OF b, of ?es] by simp
qed

end
