(* ===== verification/DiaLibrary.thy ===== *)
theory DiaLibrary
  imports Subscriber CallManager
begin

text \<open>
  What the programs use of the DIA library (\<^verbatim>\<open>github.com/lokingdav/libdia\<close>, not part of the repository) and of a
  relay connection: an operation on a call state returns its result and the state it leaves, and so does
  one on the connection, whose code is \<^verbatim>\<open>internal/subscriber\<close>.
\<close>

record ('d, 'k) dia_env =
  dia_NewCallState :: "string \<Rightarrow> bool \<Rightarrow> 'd result"
  dia_AKEInit :: "'d \<Rightarrow> unit result \<times> 'd"
  dia_ApplyPeerSession :: "bytes \<Rightarrow> 'd \<Rightarrow> unit result \<times> 'd"
  dia_RUADeriveTopic :: "'d \<Rightarrow> string result \<times> 'd"
  dia_RUARequest :: "'d \<Rightarrow> bytes result \<times> 'd"
  dia_TransitionToRUA :: "'d \<Rightarrow> unit result \<times> 'd"
  dia_RUAInit :: "'d \<Rightarrow> unit result \<times> 'd"
  dia_Ticket :: "'d \<Rightarrow> bytes result"
  dia_CurrentTopic :: "'d \<Rightarrow> string result"
  dia_SenderID :: "'d \<Rightarrow> string result"
  dia_AKERequest :: "'d \<Rightarrow> bytes result \<times> 'd"
  dia_AKEResponse :: "bytes \<Rightarrow> 'd \<Rightarrow> bytes result \<times> 'd"
  dia_AKEComplete :: "bytes \<Rightarrow> 'd \<Rightarrow> bytes result \<times> 'd"
  dia_AKEFinalize :: "bytes \<Rightarrow> 'd \<Rightarrow> unit result \<times> 'd"
  dia_RUAResponse :: "bytes \<Rightarrow> 'd \<Rightarrow> bytes result \<times> 'd"
  dia_RUAFinalize :: "bytes \<Rightarrow> 'd \<Rightarrow> unit result \<times> 'd"
  dia_RemoteParty :: "'d \<Rightarrow> remote_party option result"
  dia_ExportPeerSession :: "'d \<Rightarrow> bytes result"
  dia_ODARequest :: "string list \<Rightarrow> 'd \<Rightarrow> bytes result \<times> 'd"
  dia_ODAResponse :: "bytes \<Rightarrow> 'd \<Rightarrow> bytes result \<times> 'd"
  dia_ODAVerify :: "bytes \<Rightarrow> 'd \<Rightarrow> bool result \<times> 'd"
  dia_CreateByeMessage :: "'d \<Rightarrow> bytes result \<times> 'd"
  dia_ParseMessage :: "bytes \<Rightarrow> (dia_type \<times> string result) result"
  relay_new :: "controller_config \<Rightarrow> 'd \<Rightarrow> 'k result"
  relay_start :: "'k \<Rightarrow> 'k"
  relay_send :: "bytes \<Rightarrow> 'k \<Rightarrow> unit result \<times> 'k"
  relay_send_to :: "string \<Rightarrow> bytes \<Rightarrow> bytes \<Rightarrow> 'k \<Rightarrow> unit result \<times> 'k"
  relay_subscribe :: "string \<Rightarrow> bytes \<Rightarrow> bytes \<Rightarrow> 'k \<Rightarrow> unit result \<times> 'k"

text \<open>\<^verbatim>\<open>if err != nil\<close> after an operation: what is done with the error, and how it goes on.\<close>

definition on_ok :: "'a result \<times> 's \<Rightarrow> (error \<Rightarrow> 's \<Rightarrow> 's) \<Rightarrow> ('a \<Rightarrow> 's \<Rightarrow> 's) \<Rightarrow> 's" where
  "on_ok p h k = (case p of (Inl e, s) \<Rightarrow> h e s | (Inr a, s) \<Rightarrow> k a s)"

definition give_up :: "error \<Rightarrow> 's \<Rightarrow> 's" where
  "give_up e s = s"

lemma on_ok_I:
  assumes "I (snd p)" and "\<And>e t. I t \<Longrightarrow> I (h e t)" and "\<And>a t. I t \<Longrightarrow> I (k a t)"
  shows "I (on_ok p h k)"
  using assms by (auto simp: on_ok_def split: prod.splits sum.splits)

text \<open>A string result whose error the code ignores: Go returns the empty string with it.\<close>

fun val :: "string result \<Rightarrow> string" where
  "val (Inl e) = []"
| "val (Inr x) = x"

end
