(* ===== verification/SipController.thy ===== *)
theory SipController
  imports CallManagerProps PeerCache Baresip DiaLibrary
begin

text \<open>
  \<^verbatim>\<open>internal/sipcontroller/controller.go\<close>: the controller that ties baresip's call events to the DIA protocol. The
  DIA library's operations, the relay connection of a session and the answers of baresip are arguments (\<open>ctl_env\<close>). A
  handler is a function on the controller's state that runs at one instant, \<open>clock\<close> (nanoseconds); what it starts
  (goroutines, timers, a dial that waits for its response) is kept in the state and runs as a step of its own.
  \<open>commands\<close> is the trace of the commands given to baresip, \<open>result_log\<close> that of \<^verbatim>\<open>emitResult\<close>.
\<close>

section \<open>State\<close>

record call_result =
  cr_AttemptID :: string
  cr_CallID :: string
  cr_SelfPhone :: string
  cr_PeerPhone :: string
  cr_PeerURI :: string
  cr_Direction :: string
  cr_ProtocolEnabled :: bool
  cr_DialSentAtUnixMs :: int
  cr_AnsweredAtUnixMs :: int
  cr_LatencyMs :: int
  cr_ODAReqUnixMs :: int
  cr_ODADoneUnixMs :: int
  cr_ODALatencyMs :: int
  cr_Outcome :: string
  cr_Error :: string

datatype baresip_cmd = BDial string | BAccept string | BHangup string int string | BRegInfo | BListCalls

datatype task = TOutgoingDIA call | TIncomingDIA call | TOutgoingODA call | TTriggerODA call "string list"
  | TBaselineHangup string | TSnapshot string bool

record ('d, 'k, 'r) controller =
  config :: sip_config
  callMgr :: "('d, 'k) call_manager"
  peerCache :: "'r peer_cache option"
  results :: "call_result chan"
  result_log :: "call_result list"
  commands :: "baresip_cmd list"
  tasks :: "task list"
  dialing :: "(call \<times> int) list"
  clock :: int
  registered :: bool
  stopped :: bool

text \<open>The environment of the controller: besides them, baresip's answer to the n-th command and Go's order of iteration.\<close>

record ('d, 'k) ctl_env = "('d, 'k) dia_env" +
  bs_reply :: "nat \<Rightarrow> baresip_cmd \<Rightarrow> baresip_response result"
  iter_order :: "call list \<Rightarrow> call list"

abbreviation sess :: "('d, 'k, 'r) controller \<Rightarrow> call \<Rightarrow> ('d, 'k) call_session" where
  "sess s i \<equiv> calls (callMgr s) i"

definition upd_sess :: "call \<Rightarrow> (('d, 'k) call_session \<Rightarrow> ('d, 'k) call_session) \<Rightarrow> ('d, 'k, 'r) controller \<Rightarrow> ('d, 'k, 'r) controller" where
  "upd_sess i f s = s\<lparr>callMgr := upd_call i f (callMgr s)\<rparr>"

definition set_state :: "call \<Rightarrow> call_state \<Rightarrow> ('d, 'k, 'r) controller \<Rightarrow> ('d, 'k, 'r) controller" where
  "set_state i st = upd_sess i (SetState st)"

definition set_error :: "call \<Rightarrow> error \<Rightarrow> ('d, 'k, 'r) controller \<Rightarrow> ('d, 'k, 'r) controller" where
  "set_error i e = upd_sess i (\<lambda>c. c\<lparr>LastError := Some e\<rparr>)"

definition cleanup :: "call \<Rightarrow> ('d, 'k, 'r) controller \<Rightarrow> ('d, 'k, 'r) controller" where
  "cleanup i = upd_sess i Cleanup"

definition remove_session :: "call \<Rightarrow> ('d, 'k, 'r) controller \<Rightarrow> ('d, 'k, 'r) controller" where
  "remove_session i s = s\<lparr>callMgr := RemoveSession i (callMgr s)\<rparr>"

definition spawn :: "task \<Rightarrow> ('d, 'k, 'r) controller \<Rightarrow> ('d, 'k, 'r) controller" where
  "spawn t s = s\<lparr>tasks := tasks s @ [t]\<rparr>"

text \<open>Giving baresip a command and waiting for its response.\<close>

definition command :: "('d, 'k) ctl_env \<Rightarrow> baresip_cmd \<Rightarrow> ('d, 'k, 'r) controller \<Rightarrow> baresip_response result \<times> ('d, 'k, 'r) controller" where
  "command env cmd s = (bs_reply env (length (commands s)) cmd, s\<lparr>commands := commands s @ [cmd]\<rparr>)"

text \<open>An operation on a session's call state or relay connection; \<^verbatim>\<open>if err != nil\<close> after it.\<close>

definition dia_op :: "('d \<Rightarrow> 'a result \<times> 'd) \<Rightarrow> call \<Rightarrow> ('d, 'k, 'r) controller \<Rightarrow> 'a result \<times> ('d, 'k, 'r) controller" where
  "dia_op f i s = (case DIAState (sess s i) of
      None \<Rightarrow> (Inl ''nil call state'', s)
    | Some d \<Rightarrow> (case f d of (r, d') \<Rightarrow> (r, upd_sess i (\<lambda>c. c\<lparr>DIAState := Some d'\<rparr>) s)))"

definition dia_get :: "('d \<Rightarrow> 'a result) \<Rightarrow> call \<Rightarrow> ('d, 'k, 'r) controller \<Rightarrow> 'a result \<times> ('d, 'k, 'r) controller" where
  "dia_get f i s = (case DIAState (sess s i) of None \<Rightarrow> (Inl ''nil call state'', s) | Some d \<Rightarrow> (f d, s))"

definition relay_op :: "('k \<Rightarrow> unit result \<times> 'k) \<Rightarrow> call \<Rightarrow> ('d, 'k, 'r) controller \<Rightarrow> unit result \<times> ('d, 'k, 'r) controller" where
  "relay_op f i s = (case DIAController (sess s i) of
      None \<Rightarrow> (Inl ''nil controller'', s)
    | Some k \<Rightarrow> (case f k of (r, k') \<Rightarrow> (r, upd_sess i (\<lambda>c. c\<lparr>DIAController := Some k'\<rparr>) s)))"

section \<open>Cache and results\<close>

definition cacheEnabled :: "('d, 'k, 'r) controller \<Rightarrow> bool" where
  "cacheEnabled s \<longleftrightarrow> CacheEnabled (config s) \<and> (case peerCache s of None \<Rightarrow> False | Some c \<Rightarrow> pc_enabled c)"

definition cacheGetPeerSession :: "string \<Rightarrow> string \<Rightarrow> ('d, 'k, 'r) controller \<Rightarrow> bytes option \<times> ('d, 'k, 'r) controller" where
  "cacheGetPeerSession self peer s =
     (if \<not> cacheEnabled s then (None, s)
      else (case PeerGet (peerCache s) self peer of
              (Inl e, c) \<Rightarrow> (None, s\<lparr>peerCache := c\<rparr>)
            | (Inr b, c) \<Rightarrow> (b, s\<lparr>peerCache := c\<rparr>)))"

definition cacheStorePeerSession :: "string \<Rightarrow> string \<Rightarrow> bytes \<Rightarrow> ('d, 'k, 'r) controller \<Rightarrow> ('d, 'k, 'r) controller" where
  "cacheStorePeerSession self peer blob s =
     (if \<not> cacheEnabled s then s
      else if length blob = 0 then s
      else s\<lparr>peerCache := snd (PeerSet (peerCache s) self peer blob)\<rparr>)"

definition emitResult :: "call_result \<Rightarrow> ('d, 'k, 'r) controller \<Rightarrow> ('d, 'k, 'r) controller" where
  "emitResult r s = s\<lparr>results := snd (try_send r (results s)), result_log := result_log s @ [r]\<rparr>"

text \<open>\<^verbatim>\<open>Time.UnixMilli\<close> rounds down, \<^verbatim>\<open>Duration.Milliseconds\<close> towards zero.\<close>

definition UnixMilli :: "int \<Rightarrow> int" where
  "UnixMilli t = t div 1000000"

definition Milliseconds :: "int \<Rightarrow> int" where
  "Milliseconds d = (if d < 0 then - ((- d) div 1000000) else d div 1000000)"

text \<open>The fields of a result that every emission fills from the session.\<close>

definition base_result :: "('d, 'k, 'r) controller \<Rightarrow> call \<Rightarrow> call_result" where
  "base_result s i = (let c = sess s i in
     \<lparr>cr_AttemptID = AttemptID c, cr_CallID = CallID c, cr_SelfPhone = SelfPhone (config s),
      cr_PeerPhone = PeerPhone c, cr_PeerURI = PeerURI c, cr_Direction = Direction c,
      cr_ProtocolEnabled = ProtocolEnabled c, cr_DialSentAtUnixMs = 0, cr_AnsweredAtUnixMs = 0,
      cr_LatencyMs = 0, cr_ODAReqUnixMs = 0, cr_ODADoneUnixMs = 0, cr_ODALatencyMs = 0,
      cr_Outcome = [], cr_Error = []\<rparr>)"

text \<open>The dial and answer times that \<^verbatim>\<open>handleCallClosed\<close> and the ODA result add where they are known.\<close>

definition with_times :: "('d, 'k) call_session \<Rightarrow> call_result \<Rightarrow> call_result" where
  "with_times c r0 =
     (let r1 = (case DialSentAt c of Some t \<Rightarrow> r0\<lparr>cr_DialSentAtUnixMs := UnixMilli t\<rparr> | None \<Rightarrow> r0)
      in case AnsweredAt c of None \<Rightarrow> r1
         | Some a \<Rightarrow> (let r2 = r1\<lparr>cr_AnsweredAtUnixMs := UnixMilli a\<rparr> in
             case DialSentAt c of Some t \<Rightarrow> r2\<lparr>cr_LatencyMs := Milliseconds (a - t)\<rparr> | None \<Rightarrow> r2))"

definition maybeEmitAnsweredResult :: "call \<Rightarrow> ('d, 'k, 'r) controller \<Rightarrow> ('d, 'k, 'r) controller" where
  "maybeEmitAnsweredResult i s =
     (let c = sess s i in
      if \<not> IsOutgoing c then s
      else if AnsweredResultEmitted c then s
      else (case (DialSentAt c, AnsweredAt c) of
          (Some t, Some a) \<Rightarrow>
            upd_sess i (\<lambda>c. c\<lparr>AnsweredResultEmitted := True\<rparr>)
              (emitResult ((base_result s i)\<lparr>cr_DialSentAtUnixMs := UnixMilli t, cr_AnsweredAtUnixMs := UnixMilli a,
                  cr_LatencyMs := Milliseconds (a - t), cr_Outcome := ''answered''\<rparr>) s)
        | _ \<Rightarrow> s))"

definition maybeEmitODATerminalResult :: "call \<Rightarrow> ('d, 'k, 'r) controller \<Rightarrow> ('d, 'k, 'r) controller" where
  "maybeEmitODATerminalResult i s =
     (let c = sess s i in
      if ODATerminalEmitted c \<or> ODATerminalOutcome c = [] then s
      else (case (ODARequestedAt c, ODACompletedAt c) of
          (Some q, Some d) \<Rightarrow>
            if CallID c = [] then s
            else (let res = with_times c ((base_result s i)\<lparr>cr_ODAReqUnixMs := UnixMilli q, cr_ODADoneUnixMs := UnixMilli d,
                        cr_ODALatencyMs := Milliseconds (d - q), cr_Outcome := ODATerminalOutcome c, cr_Error := ODATerminalError c\<rparr>)
                  in emitResult res (upd_sess i (\<lambda>c. c\<lparr>ODATerminalEmitted := True\<rparr>) s))
        | _ \<Rightarrow> s))"

section \<open>Answering and rejecting\<close>

definition answerCall :: "('d, 'k) ctl_env \<Rightarrow> call \<Rightarrow> ('d, 'k, 'r) controller \<Rightarrow> ('d, 'k, 'r) controller" where
  "answerCall env i s = snd (command env (BAccept (CallID (sess s i))) s)"

definition rejectCall :: "('d, 'k) ctl_env \<Rightarrow> call \<Rightarrow> int \<Rightarrow> string \<Rightarrow> ('d, 'k, 'r) controller \<Rightarrow> ('d, 'k, 'r) controller" where
  "rejectCall env i scode reason s =
     (let s1 = upd_sess i CancelTimeout s;
          s2 = (if CallID (sess s1 i) \<noteq> [] then snd (command env (BHangup (CallID (sess s1 i)) scode reason) s1) else s1);
          s3 = set_state i StateClosed s2
      in remove_session i (cleanup i s3))"

definition handleDIATimeout :: "('d, 'k) ctl_env \<Rightarrow> call \<Rightarrow> ('d, 'k, 'r) controller \<Rightarrow> ('d, 'k, 'r) controller" where
  "handleDIATimeout env i s = rejectCall env i 603 ''Authentication Timeout'' s"

definition reject_on :: "('d, 'k) ctl_env \<Rightarrow> call \<Rightarrow> string \<Rightarrow> error \<Rightarrow> ('d, 'k, 'r) controller \<Rightarrow> ('d, 'k, 'r) controller" where
  "reject_on env i reason e s = rejectCall env i 500 reason s"

section \<open>Running DIA\<close>

definition apply_cache :: "('d, 'k) ctl_env \<Rightarrow> call \<Rightarrow> ('d, 'k, 'r) controller \<Rightarrow> bool \<times> ('d, 'k, 'r) controller" where
  "apply_cache env i s =
     (case cacheGetPeerSession (SelfPhone (config s)) (PeerPhone (sess s i)) s of
        (None, s1) \<Rightarrow> (False, s1)
      | (Some blob, s1) \<Rightarrow> (case dia_op (dia_ApplyPeerSession env blob) i s1 of
            (Inl e, s2) \<Rightarrow> (False, s2)
          | (Inr _, s2) \<Rightarrow> (True, s2)))"

text \<open>\<^verbatim>\<open>subscriber.NewController\<close> and \<^verbatim>\<open>Start\<close>, with the initial topic and ticket.\<close>

definition connect_relay :: "('d, 'k) ctl_env \<Rightarrow> call \<Rightarrow> string \<Rightarrow> bytes \<Rightarrow> ('d, 'k, 'r) controller \<Rightarrow> unit result \<times> ('d, 'k, 'r) controller" where
  "connect_relay env i topic ticket s =
     (case DIAState (sess s i) of
        None \<Rightarrow> (Inl ''callState and config are required'', s)
      | Some d \<Rightarrow>
         (case relay_new env \<lparr>RelayServerAddr = RelayAddr (config s), UseTLS = RelayTLS (config s),
                 InitialTopic = topic, InitialTicket = ticket\<rparr> d of
            Inl e \<Rightarrow> (Inl e, s)
          | Inr k \<Rightarrow> (Inr (), upd_sess i (\<lambda>c. c\<lparr>DIAController := Some (relay_start env k)\<rparr>) s)))"

definition outgoing_rua :: "('d, 'k) ctl_env \<Rightarrow> call \<Rightarrow> ('d, 'k, 'r) controller \<Rightarrow> ('d, 'k, 'r) controller" where
  "outgoing_rua env i s =
     on_ok (dia_op (dia_RUADeriveTopic env) i s) (set_error i) (\<lambda>ruaTopic s.
     on_ok (dia_op (dia_RUARequest env) i s) (set_error i) (\<lambda>ruaRequest s.
     on_ok (dia_op (dia_TransitionToRUA env) i s) (set_error i) (\<lambda>_ s.
     on_ok (dia_get (dia_Ticket env) i (set_state i StateDIARUAInProgress s)) (set_error i) (\<lambda>ticket s.
     on_ok (connect_relay env i ruaTopic ticket s) (set_error i) (\<lambda>_ s.
     on_ok (relay_op (relay_send env ruaRequest) i s) (set_error i) (\<lambda>_ s. s))))))"

definition outgoing_ake :: "('d, 'k) ctl_env \<Rightarrow> call \<Rightarrow> ('d, 'k, 'r) controller \<Rightarrow> ('d, 'k, 'r) controller" where
  "outgoing_ake env i s =
     on_ok (connect_relay env i [] [] (set_state i StateDIAAKEInProgress s)) (set_error i) (\<lambda>_ s.
     on_ok (dia_op (dia_AKERequest env) i s) (set_error i) (\<lambda>request s.
     on_ok (relay_op (relay_send env request) i s) (set_error i) (\<lambda>_ s. s)))"

definition runOutgoingDIA :: "('d, 'k) ctl_env \<Rightarrow> call \<Rightarrow> ('d, 'k, 'r) controller \<Rightarrow> ('d, 'k, 'r) controller" where
  "runOutgoingDIA env i s =
     (case dia_NewCallState env (PeerPhone (sess s i)) True of
        Inl e \<Rightarrow> set_error i e s
      | Inr d \<Rightarrow>
          on_ok (dia_op (dia_AKEInit env) i (upd_sess i (\<lambda>c. c\<lparr>DIAState := Some d\<rparr>) s)) (set_error i) (\<lambda>_ s.
            case apply_cache env i s of
              (True, s) \<Rightarrow> outgoing_rua env i s
            | (False, s) \<Rightarrow> outgoing_ake env i s))"

definition incoming_rua :: "('d, 'k) ctl_env \<Rightarrow> call \<Rightarrow> ('d, 'k, 'r) controller \<Rightarrow> ('d, 'k, 'r) controller" where
  "incoming_rua env i s =
     on_ok (dia_op (dia_RUADeriveTopic env) i s) (reject_on env i ''RUA Topic Failed'') (\<lambda>ruaTopic s.
     on_ok (dia_op (dia_TransitionToRUA env) i s) (reject_on env i ''RUA Transition Failed'') (\<lambda>_ s.
     on_ok (dia_get (dia_Ticket env) i s) (reject_on env i ''RUA Ticket Failed'') (\<lambda>ticket s.
     on_ok (dia_op (dia_RUAInit env) i s) (reject_on env i ''RUA Init Failed'') (\<lambda>_ s.
     on_ok (connect_relay env i ruaTopic ticket (set_state i StateDIARUAInProgress s))
       (reject_on env i ''DIA Controller Failed'') (\<lambda>_ s. s)))))"

definition incoming_ake :: "('d, 'k) ctl_env \<Rightarrow> call \<Rightarrow> ('d, 'k, 'r) controller \<Rightarrow> ('d, 'k, 'r) controller" where
  "incoming_ake env i s =
     on_ok (connect_relay env i [] [] (set_state i StateDIAAKEInProgress s))
       (reject_on env i ''DIA Controller Failed'') (\<lambda>_ s. s)"

definition runIncomingDIA :: "('d, 'k) ctl_env \<Rightarrow> call \<Rightarrow> ('d, 'k, 'r) controller \<Rightarrow> ('d, 'k, 'r) controller" where
  "runIncomingDIA env i s =
     (case dia_NewCallState env (PeerPhone (sess s i)) False of
        Inl e \<Rightarrow> rejectCall env i 500 ''DIA Init Failed'' s
      | Inr d \<Rightarrow>
          on_ok (dia_op (dia_AKEInit env) i (upd_sess i (\<lambda>c. c\<lparr>DIAState := Some d\<rparr>) s))
            (reject_on env i ''AKE Init Failed'') (\<lambda>_ s.
            case apply_cache env i s of
              (True, s) \<Rightarrow> incoming_rua env i s
            | (False, s) \<Rightarrow> incoming_ake env i s))"

section \<open>ODA\<close>

definition handleODARequest :: "('d, 'k) ctl_env \<Rightarrow> call \<Rightarrow> bytes \<Rightarrow> ('d, 'k, 'r) controller \<Rightarrow> ('d, 'k, 'r) controller" where
  "handleODARequest env i rawData s =
     on_ok (dia_op (dia_ODAResponse env rawData) i s) give_up (\<lambda>response s.
     on_ok (relay_op (relay_send env response) i s) give_up (\<lambda>_ s. s))"

text \<open>Ending the call after ODA: at once, or when its call-id is known.\<close>

definition hangup_after_oda :: "('d, 'k) ctl_env \<Rightarrow> call \<Rightarrow> ('d, 'k, 'r) controller \<Rightarrow> ('d, 'k, 'r) controller" where
  "hangup_after_oda env i s =
     (if CallID (sess s i) \<noteq> [] then snd (command env (BHangup (CallID (sess s i)) 0 []) s)
      else upd_sess i (\<lambda>c. c\<lparr>HangupAfterODARequested := True\<rparr>) s)"

definition handleODAResponse :: "('d, 'k) ctl_env \<Rightarrow> call \<Rightarrow> bytes \<Rightarrow> ('d, 'k, 'r) controller \<Rightarrow> ('d, 'k, 'r) controller" where
  "handleODAResponse env i rawData s =
     on_ok (dia_op (dia_ODAVerify env rawData) i s) give_up (\<lambda>verified s.
       if ODARequestedAt (sess s i) \<noteq> None \<and> ODACompletedAt (sess s i) = None
       then (let s1 = upd_sess i (\<lambda>c. c\<lparr>ODACompletedAt := Some (clock s), ODATerminalOutcome := ''oda_done'',
                   ODATerminalError := []\<rparr>) s;
                 s2 = maybeEmitODATerminalResult i (upd_sess i CancelODATimeout s1)
             in hangup_after_oda env i s2)
       else s)"

definition triggerODA :: "('d, 'k) ctl_env \<Rightarrow> call \<Rightarrow> string list \<Rightarrow> ('d, 'k, 'r) controller \<Rightarrow> ('d, 'k, 'r) controller" where
  "triggerODA env i attributes s =
     (if DIAState (sess s i) = None \<or> DIAController (sess s i) = None then s
      else on_ok (dia_op (dia_ODARequest env attributes) i s) give_up (\<lambda>request s.
           on_ok (relay_op (relay_send env request) i s) give_up (\<lambda>_ s. set_state i StateODAActive s)))"

definition start_oda :: "call \<Rightarrow> ('d, 'k, 'r) controller \<Rightarrow> ('d, 'k, 'r) controller" where
  "start_oda i s =
     (let s1 = upd_sess i (\<lambda>c. c\<lparr>ODARequestedAt := Some (clock s)\<rparr>) s
      in if ODATimeoutSec (config s) > 0 then upd_sess i (\<lambda>c. c\<lparr>ODATimeout := Armed\<rparr>) s1 else s1)"

definition startODAAfterAnswerIfConfigured :: "call \<Rightarrow> ('d, 'k, 'r) controller \<Rightarrow> ('d, 'k, 'r) controller" where
  "startODAAfterAnswerIfConfigured i s =
     (let c = sess s i in
      if IncomingMode (config s) \<noteq> ''integrated'' then s
      else if \<not> IsIncoming c then s
      else if length (ODAAttributes (config s)) = 0 then s
      else if DIAState c = None \<or> DIAController c = None \<or> \<not> DIAComplete c then s
      else if ODARequestedAt c \<noteq> None then s
      else spawn (TTriggerODA i (ODAAttributes (config s))) (start_oda i s))"

definition startODAAfterAnswerForOutgoingIfConfigured :: "call \<Rightarrow> ('d, 'k, 'r) controller \<Rightarrow> ('d, 'k, 'r) controller" where
  "startODAAfterAnswerForOutgoingIfConfigured i s =
     (let c = sess s i in
      if IsIncoming c then s
      else if OutgoingODADelaySec (config s) < 0 then s
      else if length (ODAAttributes (config s)) = 0 then s
      else if \<not> ProtocolEnabled c then s
      else if \<not> DIAComplete c then s
      else if AnsweredAt c = None then s
      else if ODARequestScheduled c \<or> ODARequestedAt c \<noteq> None then s
      else spawn (TOutgoingODA i) (upd_sess i (\<lambda>c. c\<lparr>ODARequestScheduled := True\<rparr>) s))"

text \<open>The goroutine of the last: after its delay, unless the controller has been stopped meanwhile.\<close>

definition run_outgoing_oda :: "('d, 'k) ctl_env \<Rightarrow> call \<Rightarrow> ('d, 'k, 'r) controller \<Rightarrow> ('d, 'k, 'r) controller" where
  "run_outgoing_oda env i s =
     (if OutgoingODADelaySec (config s) > 0 \<and> stopped s
      then (if ODARequestedAt (sess s i) = None then upd_sess i (\<lambda>c. c\<lparr>ODARequestScheduled := False\<rparr>) s else s)
      else triggerODA env i (ODAAttributes (config s)) (start_oda i s))"

definition oda_timeout :: "('d, 'k) ctl_env \<Rightarrow> call \<Rightarrow> ('d, 'k, 'r) controller \<Rightarrow> ('d, 'k, 'r) controller" where
  "oda_timeout env i s =
     (if ODARequestedAt (sess s i) \<noteq> None \<and> ODACompletedAt (sess s i) = None
      then (let s1 = upd_sess i (\<lambda>c. c\<lparr>ODACompletedAt := Some (clock s), ODATerminalOutcome := ''oda_timeout'',
                  ODATerminalError := ''oda timeout'',
                  HangupAfterODARequested := (HangupAfterODARequested c \<or> CallID c = [])\<rparr>) s;
                s2 = maybeEmitODATerminalResult i s1
            in if CallID (sess s i) \<noteq> [] then snd (command env (BHangup (CallID (sess s i)) 0 []) s2) else s2)
      else s)"

definition TriggerODAForCall :: "string \<Rightarrow> string list \<Rightarrow> ('d, 'k, 'r) controller \<Rightarrow> error option \<times> ('d, 'k, 'r) controller" where
  "TriggerODAForCall callID attributes s =
     (case GetByCallID callID (callMgr s) of
        None \<Rightarrow> (Some (''call not found: '' @ callID), s)
      | Some i \<Rightarrow> if \<not> DIAComplete (sess s i) then (Some (''DIA not complete for call: '' @ callID), s)
          else (None, spawn (TTriggerODA i attributes) s))"

section \<open>DIA messages\<close>

text \<open>Recording the remote party, and caching the peer session of a verified one.\<close>

definition record_remote :: "('d, 'k) ctl_env \<Rightarrow> call \<Rightarrow> ('d, 'k, 'r) controller \<Rightarrow> remote_party option \<times> ('d, 'k, 'r) controller" where
  "record_remote env i s =
     (case dia_get (dia_RemoteParty env) i s of
        (Inr (Some rp), s) \<Rightarrow>
          (let s1 = upd_sess i (\<lambda>c. c\<lparr>RemoteParty := Some rp\<rparr>) s
           in (Some rp,
               if rp_verified rp
               then on_ok (dia_get (dia_ExportPeerSession env) i s1) give_up
                      (\<lambda>blob s. cacheStorePeerSession (SelfPhone (config s)) (PeerPhone (sess s i)) blob s)
               else s1))
      | (_, s) \<Rightarrow> (None, s))"

definition caller_ake_response :: "('d, 'k) ctl_env \<Rightarrow> call \<Rightarrow> bytes \<Rightarrow> ('d, 'k, 'r) controller \<Rightarrow> ('d, 'k, 'r) controller" where
  "caller_ake_response env i rawData s =
     (let oldTopic = val (fst (dia_get (dia_CurrentTopic env) i s)) in
      on_ok (dia_op (dia_AKEComplete env rawData) i s) (set_error i) (\<lambda>complete s.
      on_ok (relay_op (relay_send_to env oldTopic complete []) i s) give_up (\<lambda>_ s.
      on_ok (dia_op (dia_RUADeriveTopic env) i s) give_up (\<lambda>ruaTopic s.
      on_ok (dia_op (dia_RUARequest env) i s) give_up (\<lambda>ruaRequest s.
      (let ticket = val (fst (dia_get (dia_Ticket env) i s)) in
      on_ok (dia_op (dia_TransitionToRUA env) i s) give_up (\<lambda>_ s.
      on_ok (relay_op (relay_subscribe env ruaTopic ruaRequest ticket) i (set_state i StateDIARUAInProgress s))
        give_up (\<lambda>_ s. s))))))))"

definition caller_rua_response :: "('d, 'k) ctl_env \<Rightarrow> call \<Rightarrow> bytes \<Rightarrow> ('d, 'k, 'r) controller \<Rightarrow> ('d, 'k, 'r) controller" where
  "caller_rua_response env i rawData s =
     on_ok (dia_op (dia_RUAFinalize env rawData) i s) (set_error i) (\<lambda>_ s.
       (let s1 = set_state i StateDIAComplete (upd_sess i (\<lambda>c. c\<lparr>DIAComplete := True\<rparr>) s);
            s2 = startODAAfterAnswerForOutgoingIfConfigured i s1
        in snd (record_remote env i s2)))"

definition handleCallerDIAMessage :: "('d, 'k) ctl_env \<Rightarrow> call \<Rightarrow> dia_type \<Rightarrow> bytes \<Rightarrow> ('d, 'k, 'r) controller \<Rightarrow> ('d, 'k, 'r) controller" where
  "handleCallerDIAMessage env i ty rawData s = (case ty of
      MsgAKEResponse \<Rightarrow> caller_ake_response env i rawData s
    | MsgRUAResponse \<Rightarrow> caller_rua_response env i rawData s
    | MsgODARequest \<Rightarrow> handleODARequest env i rawData s
    | MsgODAResponse \<Rightarrow> handleODAResponse env i rawData s
    | _ \<Rightarrow> s)"

definition recipient_ake_request :: "('d, 'k) ctl_env \<Rightarrow> call \<Rightarrow> bytes \<Rightarrow> ('d, 'k, 'r) controller \<Rightarrow> ('d, 'k, 'r) controller" where
  "recipient_ake_request env i rawData s =
     on_ok (dia_op (dia_AKEResponse env rawData) i s) (reject_on env i ''AKE Failed'') (\<lambda>response s.
     on_ok (relay_op (relay_send env response) i s) (reject_on env i ''AKE Send Failed'') (\<lambda>_ s. s))"

definition recipient_ake_complete :: "('d, 'k) ctl_env \<Rightarrow> call \<Rightarrow> bytes \<Rightarrow> ('d, 'k, 'r) controller \<Rightarrow> ('d, 'k, 'r) controller" where
  "recipient_ake_complete env i rawData s =
     on_ok (dia_op (dia_AKEFinalize env rawData) i s) (reject_on env i ''AKE Finalize Failed'') (\<lambda>_ s.
     on_ok (dia_op (dia_RUADeriveTopic env) i s) (reject_on env i ''RUA Topic Failed'') (\<lambda>ruaTopic s.
     on_ok (dia_op (dia_TransitionToRUA env) i s) (reject_on env i ''RUA Transition Failed'') (\<lambda>_ s.
     on_ok (dia_get (dia_Ticket env) i s) (reject_on env i ''RUA Ticket Failed'') (\<lambda>ticket s.
     on_ok (relay_op (relay_subscribe env ruaTopic [] ticket) i s) (reject_on env i ''RUA Topic Subscribe Failed'') (\<lambda>_ s.
     on_ok (dia_op (dia_RUAInit env) i s) (reject_on env i ''RUA Init Failed'') (\<lambda>_ s.
       set_state i StateDIARUAInProgress s))))))"

text \<open>The gate: the call is answered only when the caller has been verified.\<close>

definition recipient_gate :: "('d, 'k) ctl_env \<Rightarrow> call \<Rightarrow> ('d, 'k, 'r) controller \<Rightarrow> ('d, 'k, 'r) controller" where
  "recipient_gate env i s =
     (let s1 = set_state i StateDIAComplete (upd_sess i (\<lambda>c. c\<lparr>DIAComplete := True\<rparr>) s) in
      case record_remote env i s1 of (remoteParty, s2) \<Rightarrow>
        (let s3 = upd_sess i CancelTimeout s2
         in case remoteParty of
              Some rp \<Rightarrow> if rp_verified rp then answerCall env i s3 else rejectCall env i 603 ''Not Verified'' s3
            | None \<Rightarrow> rejectCall env i 603 ''Not Verified'' s3))"

definition recipient_rua_request :: "('d, 'k) ctl_env \<Rightarrow> call \<Rightarrow> bytes \<Rightarrow> ('d, 'k, 'r) controller \<Rightarrow> ('d, 'k, 'r) controller" where
  "recipient_rua_request env i rawData s =
     (if State (sess s i) = StateDIAComplete then s
      else on_ok (dia_op (dia_RUAResponse env rawData) i s) (reject_on env i ''RUA Failed'') (\<lambda>response s.
           on_ok (relay_op (relay_send env response) i s) (reject_on env i ''RUA Send Failed'') (\<lambda>_ s.
             recipient_gate env i s)))"

definition handleRecipientDIAMessage :: "('d, 'k) ctl_env \<Rightarrow> call \<Rightarrow> dia_type \<Rightarrow> bytes \<Rightarrow> ('d, 'k, 'r) controller \<Rightarrow> ('d, 'k, 'r) controller" where
  "handleRecipientDIAMessage env i ty rawData s = (case ty of
      MsgAKERequest \<Rightarrow> recipient_ake_request env i rawData s
    | MsgAKEComplete \<Rightarrow> recipient_ake_complete env i rawData s
    | MsgRUARequest \<Rightarrow> recipient_rua_request env i rawData s
    | MsgODARequest \<Rightarrow> handleODARequest env i rawData s
    | MsgODAResponse \<Rightarrow> handleODAResponse env i rawData s
    | _ \<Rightarrow> s)"

definition handleDIAMessage :: "('d, 'k) ctl_env \<Rightarrow> call \<Rightarrow> bytes \<Rightarrow> ('d, 'k, 'r) controller \<Rightarrow> ('d, 'k, 'r) controller" where
  "handleDIAMessage env i data s =
     (if State (sess s i) = StateClosed then s
      else if DIAState (sess s i) = None \<or> DIAController (sess s i) = None then s
      else if length data = 0 then s
      else (case dia_ParseMessage env data of
          Inl e \<Rightarrow> s
        | Inr (ty, sender) \<Rightarrow>
           (let msgSenderID = val sender; mySenderID = val (fst (dia_get (dia_SenderID env) i s)) in
            if msgSenderID = mySenderID then s
            else if ty = MsgBye then s
            else if IsOutgoing (sess s i) then handleCallerDIAMessage env i ty data s
            else handleRecipientDIAMessage env i ty data s)))"

section \<open>Call events\<close>

definition scheduleBaselineHangup :: "call \<Rightarrow> ('d, 'k, 'r) controller \<Rightarrow> ('d, 'k, 'r) controller" where
  "scheduleBaselineHangup i s =
     (if CallID (sess s i) = [] then s
      else if BaselineHangupScheduled (sess s i) then s
      else spawn (TBaselineHangup (CallID (sess s i))) (upd_sess i (\<lambda>c. c\<lparr>BaselineHangupScheduled := True\<rparr>) s))"

definition bind_outgoing :: "baresip_event \<Rightarrow> ('d, 'k, 'r) controller \<Rightarrow> call option \<times> ('d, 'k, 'r) controller" where
  "bind_outgoing ev s =
     (case BindOutgoingCallID (ExtractPhoneFromURI (ev_peerURI ev)) (ev_id ev) (ev_peerURI ev) (ev_accountAOR ev) (callMgr s) of
        (r, m) \<Rightarrow> (r, s\<lparr>callMgr := m\<rparr>))"

text \<open>The session of an event: the one with its call-id, or the next pending attempt to its peer.\<close>

definition find_or_bind :: "baresip_event \<Rightarrow> ('d, 'k, 'r) controller \<Rightarrow> call option \<times> ('d, 'k, 'r) controller" where
  "find_or_bind ev s =
     (case GetByCallID (ev_id ev) (callMgr s) of
        Some i \<Rightarrow> (Some i, s)
      | None \<Rightarrow> bind_outgoing ev s)"

definition new_incoming :: "baresip_event \<Rightarrow> ('d, 'k, 'r) controller \<Rightarrow> call \<times> ('d, 'k, 'r) controller" where
  "new_incoming ev s =
     (case NewIncomingSession (clock s) (ev_id ev) (ev_peerURI ev) (ev_peerName ev) (ev_accountAOR ev) (callMgr s) of
        (i, m) \<Rightarrow> (i, s\<lparr>callMgr := m\<rparr>))"

definition active_for :: "('d, 'k) ctl_env \<Rightarrow> string \<Rightarrow> ('d, 'k, 'r) controller \<Rightarrow> call option" where
  "active_for env peer s = GetActiveSessionByPeer (iter_order env) peer (callMgr s)"

text \<open>\<^verbatim>\<open>handleIncomingCall\<close> once the event is known to be a new call.\<close>

definition accept_incoming :: "('d, 'k) ctl_env \<Rightarrow> baresip_event \<Rightarrow> ('d, 'k, 'r) controller \<Rightarrow> ('d, 'k, 'r) controller" where
  "accept_incoming env ev s =
     (case new_incoming ev s of (i, s1) \<Rightarrow>
        if IncomingMode (config s1) = ''baseline''
        then answerCall env i (set_state i StateBaresipRinging (upd_sess i (\<lambda>c. c\<lparr>ProtocolEnabled := False\<rparr>) s1))
        else (let s2 = set_state i StateDIAInitializing (upd_sess i (\<lambda>c. c\<lparr>ProtocolEnabled := True\<rparr>) s1);
                  s3 = upd_sess i (\<lambda>c. c\<lparr>DIATimeout := Armed\<rparr>) s2
              in spawn (TIncomingDIA i) s3))"

definition handleIncomingCall :: "('d, 'k) ctl_env \<Rightarrow> baresip_event \<Rightarrow> ('d, 'k, 'r) controller \<Rightarrow> ('d, 'k, 'r) controller" where
  "handleIncomingCall env ev s =
     (let ignore = (case GetByCallID (ev_id ev) (callMgr s) of Some i \<Rightarrow> IsOutgoing (sess s i) | None \<Rightarrow> False) in
      if ignore then s
      else (case bind_outgoing ev s of
          (Some i, s1) \<Rightarrow> s1
        | (None, s1) \<Rightarrow>
            if IncomingMode (config s1) \<noteq> ''baseline'' \<and> active_for env (ExtractPhoneFromURI (ev_peerURI ev)) s1 \<noteq> None
            then (if ev_id ev \<noteq> [] then snd (command env (BHangup (ev_id ev) 486 ''Busy Here'') s1) else s1)
            else accept_incoming env ev s1))"

definition handleCallOutgoing :: "baresip_event \<Rightarrow> ('d, 'k, 'r) controller \<Rightarrow> ('d, 'k, 'r) controller" where
  "handleCallOutgoing ev s = snd (find_or_bind ev s)"

definition handleCallRinging :: "('d, 'k) ctl_env \<Rightarrow> baresip_event \<Rightarrow> ('d, 'k, 'r) controller \<Rightarrow> ('d, 'k, 'r) controller" where
  "handleCallRinging env ev s =
     (if GetByCallID (ev_id ev) (callMgr s) = None \<and> ev_direction ev = ''incoming''
      then handleIncomingCall env ev s
      else (case find_or_bind ev s of
          (None, s1) \<Rightarrow> s1
        | (Some i, s1) \<Rightarrow> set_state i StateBaresipRinging s1))"

text \<open>What an answered or established call sets off, in the order of the code.\<close>

definition hangup_if_requested :: "('d, 'k) ctl_env \<Rightarrow> call \<Rightarrow> ('d, 'k, 'r) controller \<Rightarrow> ('d, 'k, 'r) controller" where
  "hangup_if_requested env i s =
     (if HangupAfterODARequested (sess s i) \<and> CallID (sess s i) \<noteq> []
      then snd (command env (BHangup (CallID (sess s i)) 0 []) (upd_sess i (\<lambda>c. c\<lparr>HangupAfterODARequested := False\<rparr>) s))
      else s)"

definition on_answer :: "('d, 'k) ctl_env \<Rightarrow> call \<Rightarrow> ('d, 'k, 'r) controller \<Rightarrow> ('d, 'k, 'r) controller" where
  "on_answer env i s =
     (let s1 = (if AnsweredAt (sess s i) = None then upd_sess i (\<lambda>c. c\<lparr>AnsweredAt := Some (clock s)\<rparr>) s else s);
          s2 = maybeEmitAnsweredResult i s1;
          s3 = startODAAfterAnswerForOutgoingIfConfigured i s2;
          s4 = startODAAfterAnswerIfConfigured i s3;
          s5 = maybeEmitODATerminalResult i s4
      in hangup_if_requested env i s5)"

definition handleCallAnswered :: "('d, 'k) ctl_env \<Rightarrow> baresip_event \<Rightarrow> ('d, 'k, 'r) controller \<Rightarrow> ('d, 'k, 'r) controller" where
  "handleCallAnswered env ev s =
     (case find_or_bind ev s of (None, s1) \<Rightarrow> s1 | (Some i, s1) \<Rightarrow> on_answer env i s1)"

definition handleCallEstablished :: "('d, 'k) ctl_env \<Rightarrow> baresip_event \<Rightarrow> ('d, 'k, 'r) controller \<Rightarrow> ('d, 'k, 'r) controller" where
  "handleCallEstablished env ev s =
     (case find_or_bind ev s of
        (None, s1) \<Rightarrow> s1
      | (Some i, s1) \<Rightarrow>
         (let s2 = on_answer env i (set_state i StateBaresipEstablished (upd_sess i (\<lambda>c. c\<lparr>SIPEstablished := True\<rparr>) s1))
          in if IsIncoming (sess s2 i) \<and> IncomingMode (config s2) = ''baseline'' then scheduleBaselineHangup i s2 else s2))"

definition send_bye :: "('d, 'k) ctl_env \<Rightarrow> call \<Rightarrow> ('d, 'k, 'r) controller \<Rightarrow> ('d, 'k, 'r) controller" where
  "send_bye env i s =
     (if DIAController (sess s i) \<noteq> None \<and> DIAState (sess s i) \<noteq> None
      then on_ok (dia_op (dia_CreateByeMessage env) i s) give_up (\<lambda>bye s.
           on_ok (relay_op (relay_send env bye) i s) give_up (\<lambda>_ s. s))
      else s)"

definition handleCallClosed :: "('d, 'k) ctl_env \<Rightarrow> baresip_event \<Rightarrow> ('d, 'k, 'r) controller \<Rightarrow> ('d, 'k, 'r) controller" where
  "handleCallClosed env ev s =
     (case find_or_bind ev s of
        (None, s1) \<Rightarrow> s1
      | (Some i, s1) \<Rightarrow>
         (let s2 = set_state i StateClosed (send_bye env i s1);
              res = with_times (sess s2 i) ((base_result s2 i)\<lparr>cr_Outcome := ''closed'', cr_Error := ev_param ev\<rparr>)
          in remove_session i (cleanup i (emitResult res s2))))"

definition markRegistered :: "('d, 'k, 'r) controller \<Rightarrow> ('d, 'k, 'r) controller" where
  "markRegistered s = s\<lparr>registered := True\<rparr>"

definition handleBaresipEvent :: "('d, 'k) ctl_env \<Rightarrow> baresip_event \<Rightarrow> ('d, 'k, 'r) controller \<Rightarrow> ('d, 'k, 'r) controller" where
  "handleBaresipEvent env ev s =
     (let ty = ev_type ev in
      if ty = ''CALL_INCOMING'' then handleIncomingCall env ev s
      else if ty = ''CALL_REMOTE_SDP''
      then (if GetByCallID (ev_id ev) (callMgr s) = None then handleIncomingCall env ev s else s)
      else if ty = ''CALL_OUTGOING'' then handleCallOutgoing ev s
      else if ty = ''CALL_RINGING'' then handleCallRinging env ev s
      else if ty = ''CALL_ANSWERED'' then handleCallAnswered env ev s
      else if ty = ''CALL_ESTABLISHED'' then handleCallEstablished env ev s
      else if ty = ''CALL_CLOSED'' then handleCallClosed env ev s
      else if ty = ''REGISTER_OK'' then markRegistered s
      else s)"

section \<open>Dialing\<close>

text \<open>
  \<^verbatim>\<open>InitiateOutgoingCall\<close> up to the dial command (a refused call has its answer at once), and from its response
  on. A failed command returns a zero time, whose milliseconds are those of the year 1.
\<close>

definition zero_time_ms :: int where
  "zero_time_ms = -62135596800000"

definition new_outgoing :: "string \<Rightarrow> bool \<Rightarrow> ('d, 'k, 'r) controller \<Rightarrow> call \<times> ('d, 'k, 'r) controller" where
  "new_outgoing peer prot s =
     (case NewOutgoingAttempt (clock s) peer [] prot (callMgr s) of (i, m) \<Rightarrow> (i, s\<lparr>callMgr := m\<rparr>))"

definition busy_error :: "string \<Rightarrow> ('d, 'k) call_session \<Rightarrow> error" where
  "busy_error peer c = ''peer '' @ peer @ '' already has an active session (attempt='' @ AttemptID c
     @ '' call-id='' @ CallID c @ '' state='' @ state_string (State c) @ '')''"

definition InitiateOutgoingCall ::
  "('d, 'k) ctl_env \<Rightarrow> string \<Rightarrow> bool \<Rightarrow> ('d, 'k, 'r) controller \<Rightarrow> (string \<times> error) option \<times> ('d, 'k, 'r) controller" where
  "InitiateOutgoingCall env phoneNumber protocolEnabled s0 =
     (let s = (if Verbose (config s0) then snd (command env BRegInfo s0) else s0);
          peerPhone = ExtractPhoneFromURI phoneNumber in
      case active_for env peerPhone s of
        Some e \<Rightarrow>
          (let err = busy_error peerPhone (sess s e) in
           case new_outgoing peerPhone protocolEnabled s of (i, s1) \<Rightarrow>
             (let a = AttemptID (sess s1 i);
                  s2 = emitResult ((base_result s1 i)\<lparr>cr_Outcome := ''error'', cr_Error := err\<rparr>) s1
              in (Some (a, err), remove_session i (cleanup i (set_state i StateClosed s2)))))
      | None \<Rightarrow>
          (case new_outgoing peerPhone protocolEnabled s of (i, s1) \<Rightarrow>
             (let s2 = set_state i StateDIAInitializing s1;
                  s3 = (if protocolEnabled then spawn (TOutgoingDIA i) s2 else s2);
                  s4 = snd (command env (BDial phoneNumber) s3)
              in (None, s4\<lparr>dialing := dialing s4 @ [(i, clock s4)]\<rparr>))))"

definition dial_failed :: "call \<Rightarrow> error \<Rightarrow> int \<Rightarrow> ('d, 'k, 'r) controller \<Rightarrow> ('d, 'k, 'r) controller" where
  "dial_failed i err sent_ms s =
     (let s1 = set_error i err s;
          s2 = emitResult ((base_result s1 i)\<lparr>cr_DialSentAtUnixMs := sent_ms, cr_Outcome := ''error'', cr_Error := err\<rparr>) s1
      in remove_session i (cleanup i s2))"

text \<open>In verbose mode a goroutine looks 300 ms and again 1.5 s after the dial whether the call still has no call-id.\<close>

definition snapshot :: "('d, 'k) ctl_env \<Rightarrow> string \<Rightarrow> ('d, 'k, 'r) controller \<Rightarrow> ('d, 'k, 'r) controller" where
  "snapshot env attemptID s =
     (if stopped s then s
      else case GetByAttemptID attemptID (callMgr s) of
        None \<Rightarrow> s
      | Some i \<Rightarrow> if State (sess s i) = StateClosed \<or> CallID (sess s i) \<noteq> [] then s else snd (command env BListCalls s))"

definition dial_finish :: "call \<Rightarrow> int \<Rightarrow> baresip_response result \<Rightarrow> ('d, 'k, 'r) controller \<Rightarrow> (string \<times> error option) \<times> ('d, 'k, 'r) controller" where
  "dial_finish i sentAt reply s =
     (let sent = (case reply of Inl _ \<Rightarrow> None | Inr _ \<Rightarrow> Some sentAt);
          s0 = upd_sess i (\<lambda>c. c\<lparr>DialSentAt := sent\<rparr>) s;
          s1 = maybeEmitAnsweredResult i (if Verbose (config s0) then spawn (TSnapshot (AttemptID (sess s0 i)) True) s0 else s0)
      in case reply of
           Inl err \<Rightarrow> (([], Some (''baresip dial failed: '' @ err)), dial_failed i err zero_time_ms s1)
         | Inr resp \<Rightarrow>
             if \<not> rs_ok resp
             then (([], Some (''baresip dial rejected: '' @ rs_data resp)),
                   dial_failed i (''baresip dial rejected: '' @ rs_data resp) (UnixMilli sentAt) s1)
             else ((AttemptID (sess s1 i), None), set_state i StateBaresipDialing s1))"

section \<open>The controller's operations and steps\<close>

definition NewSipController ::
  "(string \<Rightarrow> string \<Rightarrow> string \<Rightarrow> int \<Rightarrow> 'r redis) \<Rightarrow> sip_config \<Rightarrow> ('d, 'k, 'r) controller \<times> error option" where
  "NewSipController connect cfg =
     (let c = newPeerSessionCache connect (Some cfg) in
      (\<lparr>config = cfg, callMgr = NewCallManager, peerCache = (case c of Inl _ \<Rightarrow> None | Inr p \<Rightarrow> Some p),
        results = make_chan 1000, result_log = [], commands = [], tasks = [], dialing = [], clock = 0,
        registered = False, stopped = False\<rparr>,
       case c of Inl e \<Rightarrow> Some e | Inr _ \<Rightarrow> None))"

text \<open>\<^verbatim>\<open>Start\<close> before it connects: a cache that was asked for must be there.\<close>

definition check_cache :: "error option \<Rightarrow> ('d, 'k, 'r) controller \<Rightarrow> error option" where
  "check_cache cacheErr s =
     (if \<not> CacheEnabled (config s) then None
      else case cacheErr of
        Some e \<Rightarrow> Some (''peer-session cache init failed: '' @ e)
      | None \<Rightarrow> (case peerCache s of
            Some c \<Rightarrow> if pc_enabled c then None else Some ''peer-session cache is enabled but not available''
          | None \<Rightarrow> Some ''peer-session cache is enabled but not available''))"

text \<open>\<^verbatim>\<open>WaitForRegister\<close>: its fast path, then its \<^verbatim>\<open>select\<close> once one of the cases is ready.\<close>

datatype register_wait = SawRegister | RegisterCancelled error | RegisterTimeout

definition WaitForRegister :: "register_wait \<Rightarrow> ('d, 'k, 'r) controller \<Rightarrow> error option option" where
  "WaitForRegister w s =
     (if registered s then Some None
      else case w of SawRegister \<Rightarrow> None | RegisterCancelled e \<Rightarrow> Some (Some e)
         | RegisterTimeout \<Rightarrow> Some (Some ''timeout waiting for REGISTER_OK''))"

definition HangupCall :: "('d, 'k) ctl_env \<Rightarrow> string \<Rightarrow> ('d, 'k, 'r) controller \<Rightarrow> error option \<times> ('d, 'k, 'r) controller" where
  "HangupCall env callID s =
     (if TrimSpace callID = [] then (Some ''missing callID'', s)
      else (case command env (BHangup callID 0 []) s of
              (Inl e, s1) \<Rightarrow> (Some e, s1)
            | (Inr _, s1) \<Rightarrow> (None, s1)))"

definition Stop :: "('d, 'k) ctl_env \<Rightarrow> ('d, 'k, 'r) controller \<Rightarrow> ('d, 'k, 'r) controller" where
  "Stop env s = fold cleanup (GetAllSessions (iter_order env) (callMgr s)) (s\<lparr>stopped := True\<rparr>)"

record call_info =
  ci_call_id :: string
  ci_peer_phone :: string
  ci_direction :: string
  ci_state :: string
  ci_dia_done :: bool
  ci_sip_estab :: bool
  ci_remote :: "(string \<times> bool) option"

definition ListActiveCalls :: "('d, 'k) ctl_env \<Rightarrow> ('d, 'k, 'r) controller \<Rightarrow> call_info list" where
  "ListActiveCalls env s = map (\<lambda>i. let c = sess s i in
     \<lparr>ci_call_id = CallID c, ci_peer_phone = PeerPhone c, ci_direction = Direction c,
      ci_state = state_string (State c), ci_dia_done = DIAComplete c, ci_sip_estab = SIPEstablished c,
      ci_remote = map_option (\<lambda>rp. (rp_name rp, rp_verified rp)) (RemoteParty c)\<rparr>)
     (GetAllSessions (iter_order env) (callMgr s))"

fun run_task :: "('d, 'k) ctl_env \<Rightarrow> task \<Rightarrow> ('d, 'k, 'r) controller \<Rightarrow> ('d, 'k, 'r) controller" where
  "run_task env (TOutgoingDIA i) s = runOutgoingDIA env i s"
| "run_task env (TIncomingDIA i) s = runIncomingDIA env i s"
| "run_task env (TOutgoingODA i) s = run_outgoing_oda env i s"
| "run_task env (TTriggerODA i attrs) s = triggerODA env i attrs s"
| "run_task env (TBaselineHangup callID) s = snd (command env (BHangup callID 0 []) s)"
| "run_task env (TSnapshot a again) s = (let s1 = snapshot env a s in if again then spawn (TSnapshot a False) s1 else s1)"

definition remove_nth :: "nat \<Rightarrow> 'a list \<Rightarrow> 'a list" where
  "remove_nth n xs = take n xs @ drop (Suc n) xs"

text \<open>The steps: what baresip, the user, the relay, a goroutine, a timer or a dial's response sets off.\<close>

datatype ctl_event =
    EvBaresip baresip_event
  | EvCall string bool
  | EvDialDone nat "baresip_response result"
  | EvTask nat
  | EvMessage call bytes
  | EvDIATimer call
  | EvODATimer call
  | EvTriggerODA string "string list"
  | EvHangup string
  | EvStop

definition ctl_action :: "('d, 'k) ctl_env \<Rightarrow> ctl_event \<Rightarrow> ('d, 'k, 'r) controller \<Rightarrow> ('d, 'k, 'r) controller" where
  "ctl_action env e s = (case e of
      EvBaresip ev \<Rightarrow> if stopped s then s else handleBaresipEvent env ev s
    | EvCall phone prot \<Rightarrow> snd (InitiateOutgoingCall env phone prot s)
    | EvDialDone n reply \<Rightarrow> if n < length (dialing s)
        then (case dialing s ! n of (i, t) \<Rightarrow> snd (dial_finish i t reply (s\<lparr>dialing := remove_nth n (dialing s)\<rparr>))) else s
    | EvTask n \<Rightarrow> if n < length (tasks s) then run_task env (tasks s ! n) (s\<lparr>tasks := remove_nth n (tasks s)\<rparr>) else s
    | EvMessage i data \<Rightarrow> handleDIAMessage env i data s
    | EvDIATimer i \<Rightarrow> if DIATimeout (sess s i) = Armed
        then handleDIATimeout env i (upd_sess i (\<lambda>c. c\<lparr>DIATimeout := Fired\<rparr>) s) else s
    | EvODATimer i \<Rightarrow> if ODATimeout (sess s i) = Armed
        then oda_timeout env i (upd_sess i (\<lambda>c. c\<lparr>ODATimeout := Fired\<rparr>) s) else s
    | EvTriggerODA callID attrs \<Rightarrow> snd (TriggerODAForCall callID attrs s)
    | EvHangup callID \<Rightarrow> snd (HangupCall env callID s)
    | EvStop \<Rightarrow> Stop env s)"

definition ctl_step :: "('d, 'k) ctl_env \<Rightarrow> ('d, 'k, 'r) controller \<Rightarrow> int \<times> ctl_event \<Rightarrow> ('d, 'k, 'r) controller" where
  "ctl_step env s te = ctl_action env (snd te) (s\<lparr>clock := fst te\<rparr>)"

end
