(* ===== verification/SipInvariants.thy ===== *)
theory SipInvariants
  imports SipController
begin

text \<open>
  How an invariant of the SIP controller is proved: the locale \<open>handler_invariant\<close> names the primitive changes that
  the handlers are made of, and shows that a predicate which they keep is kept by every handler that
  does not answer a call; \<open>step_invariant\<close> adds answering and the operations on the call manager, and shows that every step of the controller keeps it.
\<close>

section \<open>Primitive changes\<close>

text \<open>
  A session changes inertly when its identity and the flags of its emitted results stay, and the outcome of its
  ODA is one of the two that the code records. The handlers close a session only where they also remove it.
\<close>

definition inert :: "('d, 'k) call_session \<Rightarrow> ('d, 'k) call_session \<Rightarrow> bool" where
  "inert c c' \<longleftrightarrow> same_identity c c' \<and> AnsweredResultEmitted c' = AnsweredResultEmitted c
     \<and> ODATerminalEmitted c' = ODATerminalEmitted c
     \<and> (ODATerminalOutcome c' = ODATerminalOutcome c \<or> ODATerminalOutcome c' \<in> {''oda_done'', ''oda_timeout''})"

definition live_change :: "('d, 'k) call_session \<Rightarrow> ('d, 'k) call_session \<Rightarrow> bool" where
  "live_change c c' \<longleftrightarrow> inert c c' \<and> (State c' = StateClosed \<longrightarrow> State c = StateClosed)"

named_theorems inert_defs \<open>the session updates that the handlers use\<close>

lemmas [inert_defs] = live_change_def inert_def same_identity_def SetState_def CancelTimeout_def CancelODATimeout_def Cleanup_def

definition is_accept :: "baresip_cmd \<Rightarrow> bool" where
  "is_accept c \<longleftrightarrow> (case c of BAccept _ \<Rightarrow> True | _ \<Rightarrow> False)"

lemma is_accept_simps [simp]:
  "is_accept (BAccept x)" "\<not> is_accept (BHangup a b c)" "\<not> is_accept (BDial u)" "\<not> is_accept BRegInfo" "\<not> is_accept BListCalls"
  by (simp_all add: is_accept_def)

locale handler_invariant =
  fixes I :: "('d, 'k, 'r) controller \<Rightarrow> bool" and env :: "('d, 'k) ctl_env"
  assumes sess_step: "I s \<Longrightarrow> (\<And>c. live_change c (f c)) \<Longrightarrow> I (upd_sess i f s)"
    and command_step: "I s \<Longrightarrow> \<not> is_accept cmd \<Longrightarrow> I (snd (command env cmd s))"
    and cache_step: "I s \<Longrightarrow> I (s\<lparr>peerCache := pc\<rparr>)"
    and spawn_step: "I s \<Longrightarrow> I (spawn t s)"
    and remove_step: "I s \<Longrightarrow> I (remove_session i s)"
    and close_step: "I s \<Longrightarrow> I (remove_session i (cleanup i (set_state i StateClosed s)))"
    and oda_result_step: "I s \<Longrightarrow> I (maybeEmitODATerminalResult i s)"
begin

lemmas on_ok_inv = on_ok_I [of I]

lemma set_state_inv: "st \<noteq> StateClosed \<Longrightarrow> I s \<Longrightarrow> I (set_state i st s)"
  unfolding set_state_def by (rule sess_step) (simp_all add: inert_defs)

lemmas set_live_inv = set_state_inv [of StateDIAInitializing, simplified] set_state_inv [of StateDIAAKEInProgress, simplified]
  set_state_inv [of StateDIARUAInProgress, simplified] set_state_inv [of StateDIAComplete, simplified]
  set_state_inv [of StateBaresipDialing, simplified] set_state_inv [of StateBaresipRinging, simplified]
  set_state_inv [of StateBaresipEstablished, simplified] set_state_inv [of StateODAActive, simplified]

lemma set_error_inv: "I s \<Longrightarrow> I (set_error i e s)"
  unfolding set_error_def by (rule sess_step) (simp_all add: inert_defs)

lemma cleanup_inv: "I s \<Longrightarrow> I (cleanup i s)"
  unfolding cleanup_def by (rule sess_step) (simp_all add: inert_defs)

lemma give_up_inv: "I s \<Longrightarrow> I (give_up e s)"
  by (simp add: give_up_def)

lemma dia_op_inv: "I s \<Longrightarrow> I (snd (dia_op f i s))"
  by (auto simp: dia_op_def inert_defs intro: sess_step split: option.splits prod.splits)

lemma dia_get_inv: "I s \<Longrightarrow> I (snd (dia_get f i s))"
  by (auto simp: dia_get_def split: option.splits)

lemma relay_op_inv: "I s \<Longrightarrow> I (snd (relay_op f i s))"
  by (auto simp: relay_op_def inert_defs intro: sess_step split: option.splits prod.splits)

lemma connect_relay_inv: "I s \<Longrightarrow> I (snd (connect_relay env i t k s))"
  by (auto simp: connect_relay_def inert_defs intro: sess_step split: option.splits sum.splits)

lemma cacheGet_inv: "I s \<Longrightarrow> I (snd (cacheGetPeerSession a b s))"
  by (auto simp: cacheGetPeerSession_def intro: cache_step split: prod.splits sum.splits)

lemma cacheStore_inv: "I s \<Longrightarrow> I (cacheStorePeerSession a b x s)"
  by (auto simp: cacheStorePeerSession_def intro: cache_step)

lemma apply_cache_inv: "I s \<Longrightarrow> I (snd (apply_cache env i s))"
  using cacheGet_inv [of s "SelfPhone (config s)" "PeerPhone (sess s i)"]
  by (auto simp: apply_cache_def split: prod.splits option.splits sum.splits)
     (metis dia_op_inv snd_conv)+

lemma rejectCall_inv: "I s \<Longrightarrow> I (rejectCall env i c r s)"
  unfolding rejectCall_def Let_def
  by (intro close_step) (auto intro!: command_step sess_step simp: inert_defs)

lemma reject_on_inv: "I s \<Longrightarrow> I (reject_on env i r e s)"
  by (simp add: reject_on_def rejectCall_inv)

lemma handleDIATimeout_inv: "I s \<Longrightarrow> I (handleDIATimeout env i s)"
  by (simp add: handleDIATimeout_def rejectCall_inv)

lemmas op_invs = set_live_inv set_error_inv give_up_inv dia_op_inv dia_get_inv relay_op_inv connect_relay_inv
  reject_on_inv

lemma outgoing_rua_inv: "I s \<Longrightarrow> I (outgoing_rua env i s)"
  unfolding outgoing_rua_def by (intro on_ok_inv op_invs)

lemma outgoing_ake_inv: "I s \<Longrightarrow> I (outgoing_ake env i s)"
  unfolding outgoing_ake_def by (intro on_ok_inv op_invs)

lemma incoming_rua_inv: "I s \<Longrightarrow> I (incoming_rua env i s)"
  unfolding incoming_rua_def by (intro on_ok_inv op_invs)

lemma incoming_ake_inv: "I s \<Longrightarrow> I (incoming_ake env i s)"
  unfolding incoming_ake_def by (intro on_ok_inv op_invs)

lemma set_dia_inv: "I s \<Longrightarrow> I (upd_sess i (\<lambda>c. c\<lparr>DIAState := d\<rparr>) s)"
  by (rule sess_step) (simp_all add: inert_defs)

lemma runOutgoingDIA_inv:
  assumes "I s"
  shows "I (runOutgoingDIA env i s)"
proof -
  have "I (case apply_cache env i t of (True, t') \<Rightarrow> outgoing_rua env i t' | (False, t') \<Rightarrow> outgoing_ake env i t')" if "I t" for t
    using apply_cache_inv [OF that, of i] by (auto simp: outgoing_rua_inv outgoing_ake_inv split: prod.splits bool.splits)
  then show ?thesis using assms unfolding runOutgoingDIA_def
    by (auto split: sum.split intro!: on_ok_inv set_error_inv dia_op_inv set_dia_inv)
qed

lemma runIncomingDIA_inv:
  assumes "I s"
  shows "I (runIncomingDIA env i s)"
proof -
  have "I (case apply_cache env i t of (True, t') \<Rightarrow> incoming_rua env i t' | (False, t') \<Rightarrow> incoming_ake env i t')" if "I t" for t
    using apply_cache_inv [OF that, of i] by (auto simp: incoming_rua_inv incoming_ake_inv split: prod.splits bool.splits)
  then show ?thesis using assms unfolding runIncomingDIA_def
    by (auto split: sum.split intro!: on_ok_inv reject_on_inv rejectCall_inv dia_op_inv set_dia_inv)
qed

lemma handleODARequest_inv: "I s \<Longrightarrow> I (handleODARequest env i x s)"
  unfolding handleODARequest_def by (intro on_ok_inv op_invs)

lemma hangup_after_oda_inv: "I s \<Longrightarrow> I (hangup_after_oda env i s)"
  by (auto simp: hangup_after_oda_def inert_defs intro!: command_step sess_step)

lemma handleODAResponse_inv: "I s \<Longrightarrow> I (handleODAResponse env i x s)"
  unfolding handleODAResponse_def Let_def
  by (intro on_ok_inv op_invs)
    (auto intro!: hangup_after_oda_inv oda_result_step sess_step simp: inert_defs)

lemma start_oda_inv: "I s \<Longrightarrow> I (start_oda i s)"
  by (auto simp: start_oda_def inert_defs Let_def intro!: sess_step)

lemma startODAOutgoing_inv: "I s \<Longrightarrow> I (startODAAfterAnswerForOutgoingIfConfigured i s)"
  by (auto simp: startODAAfterAnswerForOutgoingIfConfigured_def inert_defs Let_def intro!: spawn_step sess_step)

lemma startODAIncoming_inv: "I s \<Longrightarrow> I (startODAAfterAnswerIfConfigured i s)"
  by (auto simp: startODAAfterAnswerIfConfigured_def Let_def intro!: spawn_step start_oda_inv)

lemma triggerODA_inv: "I s \<Longrightarrow> I (triggerODA env i attrs s)"
  unfolding triggerODA_def by (cases "DIAState (sess s i) = None"; cases "DIAController (sess s i) = None") (simp_all, (intro on_ok_inv op_invs; assumption)?)

lemma run_outgoing_oda_inv: "I s \<Longrightarrow> I (run_outgoing_oda env i s)"
  by (auto simp: run_outgoing_oda_def inert_defs intro!: triggerODA_inv start_oda_inv sess_step)

lemma oda_timeout_inv: "I s \<Longrightarrow> I (oda_timeout env i s)"
  by (auto simp: oda_timeout_def Let_def inert_defs intro!: command_step oda_result_step sess_step)

lemma TriggerODAForCall_inv: "I s \<Longrightarrow> I (snd (TriggerODAForCall callID attrs s))"
  by (auto simp: TriggerODAForCall_def intro!: spawn_step split: option.splits)

lemma record_remote_inv: "I s \<Longrightarrow> I (snd (record_remote env i s))"
  unfolding record_remote_def dia_get_def
  by (auto simp: Let_def inert_defs on_ok_def give_up_def intro!: cacheStore_inv sess_step
      split: option.splits sum.splits prod.splits)

lemma caller_ake_response_inv: "I s \<Longrightarrow> I (caller_ake_response env i x s)"
  unfolding caller_ake_response_def Let_def by (intro on_ok_inv op_invs)

lemma set_complete_inv: "I s \<Longrightarrow> I (upd_sess i (\<lambda>c. c\<lparr>DIAComplete := b\<rparr>) s)"
  by (rule sess_step) (simp_all add: inert_defs)

lemma caller_rua_response_inv: "I s \<Longrightarrow> I (caller_rua_response env i x s)"
  unfolding caller_rua_response_def Let_def
  by (intro on_ok_inv op_invs record_remote_inv startODAOutgoing_inv set_complete_inv)

lemma handleCallerDIAMessage_inv: "I s \<Longrightarrow> I (handleCallerDIAMessage env i ty x s)"
  by (auto simp: handleCallerDIAMessage_def caller_ake_response_inv caller_rua_response_inv handleODARequest_inv
      handleODAResponse_inv split: dia_type.splits)

lemma recipient_ake_request_inv: "I s \<Longrightarrow> I (recipient_ake_request env i x s)"
  unfolding recipient_ake_request_def by (intro on_ok_inv op_invs)

lemma recipient_ake_complete_inv: "I s \<Longrightarrow> I (recipient_ake_complete env i x s)"
  unfolding recipient_ake_complete_def by (intro on_ok_inv op_invs)

lemma send_bye_inv: "I s \<Longrightarrow> I (send_bye env i s)"
  unfolding send_bye_def by (cases "DIAState (sess s i) = None"; cases "DIAController (sess s i) = None") (simp_all, (intro on_ok_inv op_invs; assumption)?)

lemma hangup_if_requested_inv: "I s \<Longrightarrow> I (hangup_if_requested env i s)"
  by (auto simp: hangup_if_requested_def inert_defs intro!: command_step sess_step)

lemma scheduleBaselineHangup_inv: "I s \<Longrightarrow> I (scheduleBaselineHangup i s)"
  by (auto simp: scheduleBaselineHangup_def inert_defs intro!: spawn_step sess_step)

lemma snapshot_inv: "I s \<Longrightarrow> I (snapshot env a s)"
  by (auto simp: snapshot_def intro!: command_step split: option.split)

lemma run_task_inv: "I s \<Longrightarrow> I (run_task env t s)"
  by (cases t) (auto simp: runOutgoingDIA_inv runIncomingDIA_inv run_outgoing_oda_inv triggerODA_inv Let_def
      intro!: command_step spawn_step snapshot_inv)

lemma HangupCall_inv: "I s \<Longrightarrow> I (snd (HangupCall env callID s))"
  using command_step [of s "BHangup callID 0 []"] by (auto simp: HangupCall_def split: prod.splits sum.splits)

end

section \<open>Events\<close>

lemma primitive_config [simp]:
  "config (upd_sess i f s) = config s" "config (snd (command env cmd s)) = config s" "config (spawn t s) = config s"
  "config (remove_session i s) = config s" "config (snd (bind_outgoing ev s)) = config s"
  "config (snd (new_incoming ev s)) = config s" "config (snd (new_outgoing p e s)) = config s"
  "config (emitResult r s) = config s" "config (set_state i st s) = config s"
  by (auto simp: upd_sess_def command_def spawn_def remove_session_def bind_outgoing_def new_incoming_def
      new_outgoing_def emitResult_def set_state_def split: prod.splits)

text \<open>When an incoming call gets a session: in any mode but baseline, only if its peer has no active one.\<close>

definition new_allowed :: "('d, 'k) ctl_env \<Rightarrow> baresip_event \<Rightarrow> ('d, 'k, 'r) controller \<Rightarrow> bool" where
  "new_allowed env ev s \<longleftrightarrow> IncomingMode (config s) = ''baseline'' \<or> active_for env (ExtractPhoneFromURI (ev_peerURI ev)) s = None"

lemma emit_close: "emitResult r (set_state i st s) = set_state i st (emitResult r s)"
  by (simp add: emitResult_def set_state_def upd_sess_def)

locale event_invariant = handler_invariant I env
  for I :: "('d, 'k, 'r) controller \<Rightarrow> bool" and env :: "('d, 'k) ctl_env" +
  assumes emit_step: "I s \<Longrightarrow> cr_Outcome r \<in> {''closed'', ''error''} \<Longrightarrow> I (emitResult r s)"
    and answered_step: "I s \<Longrightarrow> I (maybeEmitAnsweredResult i s)"
    and bind_step: "I s \<Longrightarrow> I (snd (bind_outgoing ev s))"
    and incoming_step: "I s \<Longrightarrow> new_allowed env ev s \<Longrightarrow> I (snd (new_incoming ev s))"
    and outgoing_step: "I s \<Longrightarrow> active_for env p s = None \<Longrightarrow> I (snd (new_outgoing p e s))"
    and busy_step: "I s \<Longrightarrow> new_outgoing p e s = (i, s1) \<Longrightarrow> cr_Outcome r = ''error'' \<Longrightarrow>
      I (remove_session i (cleanup i (set_state i StateClosed (emitResult r s1))))"
    and clock_step: "I s \<Longrightarrow> I (s\<lparr>clock := t\<rparr>)"
    and tasks_step: "I s \<Longrightarrow> I (s\<lparr>tasks := ts\<rparr>)"
    and dialing_step: "I s \<Longrightarrow> I (s\<lparr>dialing := ds\<rparr>)"
    and stopped_step: "I s \<Longrightarrow> I (s\<lparr>stopped := b\<rparr>)"
    and registered_step: "I s \<Longrightarrow> I (s\<lparr>registered := b\<rparr>)"
begin

lemma find_or_bind_inv: "I s \<Longrightarrow> I (snd (find_or_bind ev s))"
  by (auto simp: find_or_bind_def bind_step split: option.split)

lemma bound:
  assumes "I s" and "find_or_bind ev s = (r, s1)"
  shows "I s1"
  using find_or_bind_inv [OF assms(1), of ev] assms(2) by simp

lemma handleCallOutgoing_inv: "I s \<Longrightarrow> I (handleCallOutgoing ev s)"
  by (simp add: handleCallOutgoing_def find_or_bind_inv)

lemma start_incoming_inv:
  assumes "I s"
  shows "I (spawn (TIncomingDIA i) (upd_sess i (\<lambda>c. c\<lparr>DIATimeout := Armed\<rparr>)
    (set_state i StateDIAInitializing (upd_sess i (\<lambda>c. c\<lparr>ProtocolEnabled := b\<rparr>) s))))"
  by (rule spawn_step, rule sess_step, rule set_live_inv, rule sess_step [OF assms]) (simp_all add: inert_defs)

lemma accept_incoming_integrated_inv:
  assumes "I s" and "IncomingMode (config s) \<noteq> ''baseline''" and "new_allowed env ev s"
  shows "I (accept_incoming env ev s)"
proof -
  obtain i s1 where n: "new_incoming ev s = (i, s1)" by (cases "new_incoming ev s")
  then have "I s1" "config s1 = config s" using incoming_step [OF assms(1,3)] primitive_config(6) [of ev s] by simp_all
  then show ?thesis using assms(2) by (simp add: accept_incoming_def n Let_def start_incoming_inv)
qed

lemma handleIncomingCall_by:
  assumes "I s" and "\<And>t. I t \<Longrightarrow> config t = config s \<Longrightarrow> new_allowed env ev t \<Longrightarrow> I (accept_incoming env ev t)"
  shows "I (handleIncomingCall env ev s)"
proof -
  obtain r s1 where b: "bind_outgoing ev s = (r, s1)" by (cases "bind_outgoing ev s")
  then have "I s1" "config s1 = config s" using bind_step [OF assms(1), of ev] primitive_config(5) [of ev s] by simp_all
  then show ?thesis using assms(1) assms(2) [of s1]
    by (auto simp: handleIncomingCall_def new_allowed_def Let_def b split: option.split intro!: command_step)
qed

lemma on_answer_inv:
  assumes "I s"
  shows "I (on_answer env i s)"
proof -
  have "I (if AnsweredAt (sess s i) = None then upd_sess i (\<lambda>c. c\<lparr>AnsweredAt := Some (clock s)\<rparr>) s else s)"
    using assms by (auto intro!: sess_step simp: inert_defs)
  then show ?thesis unfolding on_answer_def Let_def
    by (intro hangup_if_requested_inv oda_result_step startODAIncoming_inv startODAOutgoing_inv answered_step)
qed

lemma handleCallAnswered_inv: "I s \<Longrightarrow> I (handleCallAnswered env ev s)"
  by (auto simp: handleCallAnswered_def split: prod.split option.split dest: bound intro: on_answer_inv)

lemma handleCallEstablished_inv:
  assumes "I s"
  shows "I (handleCallEstablished env ev s)"
proof -
  have "I (on_answer env i (set_state i StateBaresipEstablished (upd_sess i (\<lambda>c. c\<lparr>SIPEstablished := True\<rparr>) t)))"
    if "I t" for i t
    by (rule on_answer_inv, rule set_live_inv, rule sess_step [OF that]) (simp add: inert_defs)
  then show ?thesis using assms
    by (auto simp: handleCallEstablished_def Let_def split: prod.split option.split
        dest: bound intro: scheduleBaselineHangup_inv)
qed

lemma handleCallClosed_inv:
  assumes "I s"
  shows "I (handleCallClosed env ev s)"
proof -
  have times: "cr_Outcome (with_times c r) = cr_Outcome r" for c :: "('d, 'k) call_session" and r
    by (auto simp: with_times_def Let_def split: option.split)
  have close: "I (remove_session i (cleanup i (emitResult (with_times c (r\<lparr>cr_Outcome := ''closed'', cr_Error := e\<rparr>)) (set_state i StateClosed (send_bye env i t)))))"
    if "I t" for t i r e and c :: "('d, 'k) call_session"
    unfolding emit_close by (rule close_step, rule emit_step, rule send_bye_inv [OF that]) (simp add: times)
  obtain r s1 where b: "find_or_bind ev s = (r, s1)" by (cases "find_or_bind ev s")
  show ?thesis using bound [OF assms b] close
    by (cases r) (simp_all add: handleCallClosed_def b Let_def)
qed

lemma InitiateOutgoingCall_inv:
  assumes "I s0"
  shows "I (snd (InitiateOutgoingCall env phone prot s0))"
proof -
  define s where "s = (if Verbose (config s0) then snd (command env BRegInfo s0) else s0)"
  have s: "I s" using assms by (auto simp: s_def intro: command_step)
  obtain i s1 where n: "new_outgoing (ExtractPhoneFromURI phone) prot s = (i, s1)"
    by (cases "new_outgoing (ExtractPhoneFromURI phone) prot s")
  show ?thesis
  proof (cases "active_for env (ExtractPhoneFromURI phone) s")
    case None
    then have s1: "I s1" using outgoing_step [OF s None, of prot] n by simp
    have "I (snd (command env (BDial phone) (if prot then spawn (TOutgoingDIA i) (set_state i StateDIAInitializing s1)
        else set_state i StateDIAInitializing s1)))"
      using s1 by (auto intro!: command_step spawn_step set_live_inv)
    then show ?thesis unfolding InitiateOutgoingCall_def Let_def s_def [symmetric] n None
      by (simp add: dialing_step)
  next
    case (Some c)
    then show ?thesis unfolding InitiateOutgoingCall_def Let_def s_def [symmetric] n Some
      by (simp add: emit_close [symmetric] busy_step [OF s n])
        (simp add: emit_close busy_step [OF s n])
  qed
qed

lemma dial_finish_inv:
  assumes "I s"
  shows "I (snd (dial_finish i t reply s))"
proof -
  have "I (upd_sess i (\<lambda>c. c\<lparr>DialSentAt := x\<rparr>) s)" for x
    by (rule sess_step [OF assms]) (simp add: inert_defs)
  then have a: "I (maybeEmitAnsweredResult i (if Verbose (config (upd_sess i (\<lambda>c. c\<lparr>DialSentAt := x\<rparr>) s))
      then spawn t (upd_sess i (\<lambda>c. c\<lparr>DialSentAt := x\<rparr>) s) else upd_sess i (\<lambda>c. c\<lparr>DialSentAt := x\<rparr>) s))" for x t
    by (auto intro: answered_step spawn_step)
  have "I (dial_failed i e ms t)" if "I t" for e ms t
    using that unfolding dial_failed_def Let_def
    by (intro remove_step cleanup_inv emit_step set_error_inv) auto
  with a show ?thesis
    by (auto simp: dial_finish_def Let_def split: sum.split intro: set_live_inv)
qed

lemma Stop_inv: "I s \<Longrightarrow> I (Stop env s)"
proof -
  assume "I s"
  have "I t \<Longrightarrow> I (fold cleanup is t)" for "is" t
    by (induction "is" arbitrary: t) (auto intro: cleanup_inv)
  then show ?thesis using stopped_step [OF \<open>I s\<close>] by (simp add: Stop_def)
qed

text \<open>Every event that cannot answer a call.\<close>

lemma handleBaresipEvent_by:
  assumes "I s" and "\<And>t. I t \<Longrightarrow> config t = config s \<Longrightarrow> new_allowed env ev t \<Longrightarrow> I (accept_incoming env ev t)"
  shows "I (handleBaresipEvent env ev s)"
proof -
  have inc: "I (handleIncomingCall env ev s)" by (rule handleIncomingCall_by [OF assms])
  have "I (handleCallRinging env ev s)"
    using inc assms(1) by (auto simp: handleCallRinging_def split: prod.split option.split dest: bound intro: set_live_inv)
  then show ?thesis using assms(1) inc unfolding handleBaresipEvent_def Let_def markRegistered_def
    by (simp add: handleCallOutgoing_inv handleCallAnswered_inv handleCallEstablished_inv handleCallClosed_inv registered_step)
qed

lemma ctl_action_by:
  assumes "I s" and "\<And>ev t. e = EvBaresip ev \<Longrightarrow> I t \<Longrightarrow> config t = config s \<Longrightarrow> new_allowed env ev t \<Longrightarrow> I (accept_incoming env ev t)"
    and "\<And>i data. e = EvMessage i data \<Longrightarrow> I (handleDIAMessage env i data s)"
  shows "I (ctl_action env e s)"
proof (cases e)
  case (EvBaresip ev)
  then show ?thesis using assms by (simp add: ctl_action_def handleBaresipEvent_by)
next
  case (EvDialDone n reply)
  then show ?thesis using assms(1)
    by (auto simp: ctl_action_def split: prod.split intro!: dial_finish_inv dialing_step)
next
  case (EvTask n)
  then show ?thesis using assms(1) by (auto simp: ctl_action_def intro!: run_task_inv tasks_step)
next
  case (EvDIATimer i)
  then show ?thesis using assms(1)
    by (auto simp: ctl_action_def inert_defs intro!: handleDIATimeout_inv sess_step)
next
  case (EvODATimer i)
  then show ?thesis using assms(1)
    by (auto simp: ctl_action_def inert_defs intro!: oda_timeout_inv sess_step)
qed (use assms in \<open>auto simp: ctl_action_def InitiateOutgoingCall_inv TriggerODAForCall_inv HangupCall_inv Stop_inv\<close>)

text \<open>A DIA message up to the recipient's gate.\<close>

lemma handleDIAMessage_by:
  assumes "I s" and "\<And>t. I t \<Longrightarrow> I (recipient_gate env i t)"
  shows "I (handleDIAMessage env i data s)"
proof -
  have "I (recipient_rua_request env i x s)" for x
    unfolding recipient_rua_request_def using assms
    by (simp, intro impI on_ok_inv op_invs) simp_all
  then have "I (handleRecipientDIAMessage env i ty x s)" for ty x
    using assms(1) by (auto simp: handleRecipientDIAMessage_def recipient_ake_request_inv recipient_ake_complete_inv
        handleODARequest_inv handleODAResponse_inv split: dia_type.splits)
  then show ?thesis using assms(1)
    by (auto simp: handleDIAMessage_def Let_def handleCallerDIAMessage_inv split: sum.split prod.split)
qed

end

locale step_invariant = event_invariant I env
  for I :: "('d, 'k, 'r) controller \<Rightarrow> bool" and env :: "('d, 'k) ctl_env" +
  assumes answer_step: "I s \<Longrightarrow> I (answerCall env i s)"
begin

lemma accept_incoming_inv:
  assumes "I s" and "new_allowed env ev s"
  shows "I (accept_incoming env ev s)"
proof -
  obtain i s1 where n: "new_incoming ev s = (i, s1)" by (cases "new_incoming ev s")
  then have s1: "I s1" using incoming_step [OF assms] by simp
  have "I (upd_sess i (\<lambda>c. c\<lparr>ProtocolEnabled := b\<rparr>) s1)" for b
    by (rule sess_step [OF s1]) (simp add: inert_defs)
  then show ?thesis using start_incoming_inv [OF s1]
    by (simp add: accept_incoming_def n Let_def answer_step set_live_inv)
qed

lemma recipient_gate_inv:
  assumes "I s"
  shows "I (recipient_gate env i s)"
proof -
  let ?s1 = "set_state i StateDIAComplete (upd_sess i (\<lambda>c. c\<lparr>DIAComplete := True\<rparr>) s)"
  obtain rp s2 where r: "record_remote env i ?s1 = (rp, s2)" by (cases "record_remote env i ?s1")
  have "I s2" using record_remote_inv [OF set_live_inv(4) [OF set_complete_inv [OF assms]], of i i i True] r
    by simp
  then have "I (upd_sess i CancelTimeout s2)" by (rule sess_step) (simp add: inert_defs)
  then show ?thesis
    by (auto simp: recipient_gate_def Let_def r split: option.split intro: answer_step rejectCall_inv)
qed

lemma ctl_step_inv: "I s \<Longrightarrow> I (ctl_step env s te)"
  unfolding ctl_step_def
  by (rule ctl_action_by) (auto intro: clock_step accept_incoming_inv handleDIAMessage_by recipient_gate_inv)

lemma ctl_run_inv: "I s \<Longrightarrow> I (foldl (ctl_step env) s tes)"
  by (induction tes arbitrary: s) (auto intro: ctl_step_inv)

end

end
