(* ===== verification/SipProps.thy ===== *)
theory SipProps
  imports SipInvariants SubscriberProps
begin

text \<open>
  What the SIP controller guarantees: in integrated mode it answers only verified callers; every attempt has at most one
  answered and one ODA result; busy peers and timeouts are rejected; and the sequences of events in which
  it does something else than it means to.
\<close>

section \<open>The gate\<close>

text \<open>The commands since a point, as long as none of them accepts a call.\<close>

definition no_accept :: "baresip_cmd list \<Rightarrow> ('d, 'k, 'r) controller \<Rightarrow> bool" where
  "no_accept C s \<longleftrightarrow> (\<exists>xs. commands s = C @ xs \<and> (\<forall>c \<in> set xs. \<not> is_accept c))"

lemma primitive_commands [simp]:
  "commands (upd_sess i f s) = commands s" "commands (spawn t s) = commands s"
  "commands (remove_session i s) = commands s" "commands (snd (bind_outgoing ev s)) = commands s"
  "commands (snd (new_incoming ev s)) = commands s" "commands (snd (new_outgoing p e s)) = commands s"
  "commands (emitResult r s) = commands s" "commands (set_state i st s) = commands s"
  "commands (snd (command env cmd s)) = commands s @ [cmd]" "commands (maybeEmitAnsweredResult i s) = commands s"
  "commands (maybeEmitODATerminalResult i s) = commands s"
  by (auto simp: upd_sess_def command_def spawn_def remove_session_def bind_outgoing_def new_incoming_def
      new_outgoing_def emitResult_def set_state_def maybeEmitAnsweredResult_def maybeEmitODATerminalResult_def Let_def
      split: prod.splits option.splits)

lemma no_accept_cong: "commands s' = commands s \<Longrightarrow> no_accept C s' = no_accept C s"
  by (simp add: no_accept_def)

lemma new_outgoing_state:
  "new_outgoing p e s = (i, s1) \<Longrightarrow> s1 = snd (new_outgoing p e s)"
  by simp

lemma cleanup_commands [simp]: "commands (cleanup i s) = commands s"
  by (simp add: cleanup_def)

interpretation gate: event_invariant "no_accept C" env for C env
  by unfold_locales (auto simp: no_accept_def dest!: new_outgoing_state)

lemma no_accept_refl [simp]: "no_accept (commands s) s"
  by (simp add: no_accept_def)

text \<open>The gate itself: either it accepts the session's call, and then the library has just verified the remote party, or it accepts none.\<close>

lemma gate_accepts_verified:
  assumes "no_accept C s"
  shows "no_accept C (recipient_gate env i s)
    \<or> (\<exists>xs rp. commands (recipient_gate env i s) = C @ xs @ [BAccept (CallID (sess s i))] \<and> (\<forall>c \<in> set xs. \<not> is_accept c)
        \<and> RemoteParty (sess (recipient_gate env i s) i) = Some rp \<and> rp_verified rp
        \<and> (\<exists>d. dia_RemoteParty env d = Inr (Some rp)))"
proof -
  let ?s1 = "set_state i StateDIAComplete (upd_sess i (\<lambda>c. c\<lparr>DIAComplete := True\<rparr>) s)"
  obtain r s2 where r: "record_remote env i ?s1 = (r, s2)" by (cases "record_remote env i ?s1")
  have na: "no_accept C s2"
    using gate.record_remote_inv [of C ?s1 env i] assms r by (simp add: no_accept_def)
  have s3: "no_accept C (upd_sess i CancelTimeout s2)" using na by (simp add: no_accept_def)
  have rp: "RemoteParty (sess s2 i) = Some rp \<and> CallID (sess s2 i) = CallID (sess s i)
      \<and> (\<exists>d. dia_RemoteParty env d = Inr (Some rp))" if "r = Some rp" for rp
    using r that unfolding record_remote_def dia_get_def
    by (auto simp: set_state_def upd_sess_def SetState_def Let_def on_ok_def give_up_def cacheStorePeerSession_def
        split: option.splits sum.splits if_splits)
  show ?thesis
  proof (cases "\<exists>rp. r = Some rp \<and> rp_verified rp")
    case False
    then have "recipient_gate env i s = rejectCall env i 603 ''Not Verified'' (upd_sess i CancelTimeout s2)"
      by (auto simp: recipient_gate_def Let_def r split: option.split)
    then show ?thesis using gate.rejectCall_inv [OF s3] by simp
  next
    case True
    then obtain rp where v: "r = Some rp" "rp_verified rp" by blast
    then have g: "recipient_gate env i s = answerCall env i (upd_sess i CancelTimeout s2)"
      by (simp add: recipient_gate_def Let_def r)
    obtain xs where xs: "commands s2 = C @ xs" "\<forall>c \<in> set xs. \<not> is_accept c" using na by (auto simp: no_accept_def)
    have "commands (recipient_gate env i s) = C @ xs @ [BAccept (CallID (sess s i))]"
      "RemoteParty (sess (recipient_gate env i s) i) = Some rp"
      using rp [OF v(1)] xs(1) by (simp_all add: g answerCall_def command_def upd_sess_def CancelTimeout_def)
    with v xs(2) rp [OF v(1)] show ?thesis by blast
  qed
qed

lemma dia_op_CallID [simp]: "CallID (sess (snd (dia_op f i s)) j) = CallID (sess s j)"
  by (auto simp: dia_op_def upd_sess_def split: option.splits prod.splits)

lemma relay_op_CallID [simp]: "CallID (sess (snd (relay_op f i s)) j) = CallID (sess s j)"
  by (auto simp: relay_op_def upd_sess_def split: option.splits prod.splits)

text \<open>Of all messages only the recipient's RUA request comes to the gate.\<close>

definition verified_accept :: "('d, 'k) ctl_env \<Rightarrow> call \<Rightarrow> string \<Rightarrow> ('d, 'k, 'r) controller \<Rightarrow> ('d, 'k, 'r) controller \<Rightarrow> bool" where
  "verified_accept env i cid s s' \<longleftrightarrow> CallID (sess s i) = cid \<and> \<not> IsOutgoing (sess s i)
     \<and> (\<exists>rp. RemoteParty (sess s' i) = Some rp \<and> rp_verified rp \<and> (\<exists>d. dia_RemoteParty env d = Inr (Some rp)))"

lemma rua_request_accepts:
  assumes "no_accept C s"
  shows "no_accept C (recipient_rua_request env i data s)
    \<or> (\<exists>xs rp. commands (recipient_rua_request env i data s) = C @ xs @ [BAccept (CallID (sess s i))]
        \<and> (\<forall>c \<in> set xs. \<not> is_accept c)
        \<and> RemoteParty (sess (recipient_rua_request env i data s) i) = Some rp \<and> rp_verified rp
        \<and> (\<exists>d. dia_RemoteParty env d = Inr (Some rp)))"
proof -
  obtain r1 s1 where 1: "dia_op (dia_RUAResponse env data) i s = (r1, s1)" by (cases "dia_op (dia_RUAResponse env data) i s")
  have n1: "no_accept C s1" "CallID (sess s1 i) = CallID (sess s i)"
    using gate.dia_op_inv [OF assms, of "dia_RUAResponse env data" i] dia_op_CallID [of "dia_RUAResponse env data" i s i] 1
    by simp_all
  show ?thesis
  proof (cases "State (sess s i) = StateDIAComplete")
    case True
    then show ?thesis using assms by (simp add: recipient_rua_request_def)
  next
    case go: False
    show ?thesis
    proof (cases r1)
      case (Inl e)
      then have "recipient_rua_request env i data s = reject_on env i ''RUA Failed'' e s1"
        using go by (simp add: recipient_rua_request_def 1 on_ok_def)
      then show ?thesis using gate.reject_on_inv [OF n1(1)] by simp
    next
      case (Inr response)
      obtain r2 s2 where 2: "relay_op (relay_send env response) i s1 = (r2, s2)"
        by (cases "relay_op (relay_send env response) i s1")
      have n2: "no_accept C s2" "CallID (sess s2 i) = CallID (sess s i)"
        using gate.relay_op_inv [OF n1(1), of "relay_send env response" i] n1(2)
          relay_op_CallID [of "relay_send env response" i s1 i] 2 by simp_all
      have "recipient_rua_request env i data s = (case r2 of Inl e \<Rightarrow> reject_on env i ''RUA Send Failed'' e s2
          | Inr _ \<Rightarrow> recipient_gate env i s2)"
        using go Inr by (simp add: recipient_rua_request_def 1 2 on_ok_def)
      then show ?thesis
        using gate.reject_on_inv [OF n2(1)] gate_accepts_verified [OF n2(1), of env i] n2(2)
        by (cases r2) simp_all
    qed
  qed
qed

lemma message_accepts:
  assumes "no_accept C s"
  shows "no_accept C (handleDIAMessage env i data s)
    \<or> (\<exists>xs cid. commands (handleDIAMessage env i data s) = C @ xs @ [BAccept cid] \<and> (\<forall>c \<in> set xs. \<not> is_accept c)
        \<and> verified_accept env i cid s (handleDIAMessage env i data s))"
proof (cases "\<not> IsOutgoing (sess s i) \<and> handleDIAMessage env i data s = recipient_rua_request env i data s")
  case True
  then show ?thesis using rua_request_accepts [OF assms, of env i data]
    by (auto simp: verified_accept_def)
next
  case False
  have "no_accept C (handleRecipientDIAMessage env i ty x s)"
    if "handleRecipientDIAMessage env i ty x s \<noteq> recipient_rua_request env i x s" for ty x
    using assms that by (cases ty) (simp_all add: handleRecipientDIAMessage_def gate.recipient_ake_request_inv
        gate.recipient_ake_complete_inv gate.handleODARequest_inv gate.handleODAResponse_inv)
  then have "no_accept C (handleDIAMessage env i data s)"
    using assms False gate.handleCallerDIAMessage_inv [OF assms]
    unfolding handleDIAMessage_def Let_def
    by (auto split: sum.splits prod.splits if_splits)
  then show ?thesis by blast
qed

lemma step_accepts:
  assumes "IncomingMode (config s) \<noteq> ''baseline''"
  shows "no_accept (commands s) (ctl_step env s te)
    \<or> (\<exists>i data xs cid. snd te = EvMessage i data \<and> commands (ctl_step env s te) = commands s @ xs @ [BAccept cid]
        \<and> (\<forall>c \<in> set xs. \<not> is_accept c) \<and> verified_accept env i cid s (ctl_step env s te))"
proof (cases "\<exists>i data. snd te = EvMessage i data")
  case False
  let ?s = "s\<lparr>clock := fst te\<rparr>"
  have "no_accept (commands s) (ctl_action env (snd te) ?s)"
  proof (rule gate.ctl_action_by)
    show "no_accept (commands s) ?s" by (simp add: no_accept_def)
  qed (use False assms in \<open>auto intro!: gate.accept_incoming_integrated_inv\<close>)
  then show ?thesis by (simp add: ctl_step_def)
next
  case True
  then obtain i data where e: "snd te = EvMessage i data" by blast
  have "no_accept (commands s) (s\<lparr>clock := fst te\<rparr>)" by (simp add: no_accept_def)
  from message_accepts [OF this, of env i data] show ?thesis
    by (auto simp: ctl_step_def ctl_action_def e verified_accept_def)
qed

text \<open>The configuration never changes, and the call manager stays consistent.\<close>

definition ctl_ok :: "sip_config \<Rightarrow> ('d, 'k, 'r) controller \<Rightarrow> bool" where
  "ctl_ok cfg s \<longleftrightarrow> config s = cfg \<and> manager_ok (callMgr s)"

lemma with_manager_simps [simp]:
  "callMgr (upd_sess i f s) = upd_call i f (callMgr s)" "callMgr (snd (command env cmd s)) = callMgr s"
  "callMgr (spawn t s) = callMgr s" "callMgr (remove_session i s) = RemoveSession i (callMgr s)"
  "callMgr (emitResult r s) = callMgr s"
  by (simp_all add: upd_sess_def command_def spawn_def remove_session_def emitResult_def)

lemma emit_config [simp]:
  "config (maybeEmitAnsweredResult i s) = config s" "config (maybeEmitODATerminalResult i s) = config s"
  by (auto simp: maybeEmitAnsweredResult_def maybeEmitODATerminalResult_def Let_def split: option.split)

lemma cleanup_config [simp]: "config (cleanup i s) = config s"
  by (simp add: cleanup_def)

interpretation ctl_config: step_invariant "\<lambda>s. config s = cfg" env for cfg env
  by unfold_locales (auto simp: answerCall_def dest!: new_outgoing_state)

lemma run_config: "config (foldl (ctl_step env) s tes) = config s"
  using ctl_config.ctl_run_inv [of s "config s"] by simp

lemma inert_ok: "manager_ok m \<Longrightarrow> (\<And>c. inert c (f c)) \<Longrightarrow> manager_ok (upd_call i f m)"
  by (rule upd_call_ok) (auto simp: inert_def)

lemma session_flag_ok:
  "manager_ok m \<Longrightarrow> manager_ok (upd_call i (\<lambda>c. c\<lparr>AnsweredResultEmitted := b\<rparr>) m)"
  "manager_ok m \<Longrightarrow> manager_ok (upd_call i (\<lambda>c. c\<lparr>ODATerminalEmitted := b\<rparr>) m)"
  by (rule upd_call_ok; simp add: same_identity_def)+

lemma emit_answered_mgr: "manager_ok (callMgr s) \<Longrightarrow> manager_ok (callMgr (maybeEmitAnsweredResult i s))"
  by (auto simp: maybeEmitAnsweredResult_def Let_def session_flag_ok split: option.split)

lemma emit_oda_mgr: "manager_ok (callMgr s) \<Longrightarrow> manager_ok (callMgr (maybeEmitODATerminalResult i s))"
  by (auto simp: maybeEmitODATerminalResult_def Let_def session_flag_ok split: option.split)

lemma mgr_ops_mgr:
  "manager_ok (callMgr s) \<Longrightarrow> manager_ok (callMgr (snd (bind_outgoing ev s)))"
  "manager_ok (callMgr s) \<Longrightarrow> manager_ok (callMgr (snd (new_incoming ev s)))"
  "manager_ok (callMgr s) \<Longrightarrow> manager_ok (callMgr (snd (new_outgoing p e s)))"
  by (simp_all add: bind_outgoing_def new_incoming_def new_outgoing_def case_prod_beta
      BindOutgoingCallID_ok NewIncomingSession_ok NewOutgoingAttempt_ok)

lemma close_ok:
  assumes "manager_ok (callMgr s)"
  shows "manager_ok (RemoveSession i (callMgr (cleanup i (set_state i StateClosed s))))"
proof -
  have "manager_ok (upd_call i Cleanup (upd_call i (SetState StateClosed) (callMgr s)))"
    by (intro inert_ok assms) (simp_all add: inert_defs)
  then show ?thesis by (simp add: cleanup_def set_state_def RemoveSession_ok)
qed

interpretation ctl_manager: step_invariant "ctl_ok cfg" env for cfg env
  by unfold_locales
    (auto simp: ctl_ok_def inert_ok live_change_def RemoveSession_ok emit_answered_mgr emit_oda_mgr mgr_ops_mgr close_ok
      answerCall_def dest!: new_outgoing_state)

section \<open>An environment for the witnesses\<close>

text \<open>
  A relay connection is the subscriber's session of \<^verbatim>\<open>internal/subscriber\<close>; a DIA library whose call state is
  trivial and which finds every remote party verified or not.
\<close>

fun api_result :: "api_outcome \<times> client_session \<Rightarrow> unit result \<times> client_session" where
  "api_result (Returned, k) = (Inr (), k)"
| "api_result (Failed e, k) = (Inl e, k)"
| "api_result (_, k) = (Inl ''blocked'', k)"

definition demo_parse :: "bytes \<Rightarrow> (dia_type \<times> string result) result" where
  "demo_parse data = (case data of [] \<Rightarrow> Inl ''empty'' | c # _ \<Rightarrow>
     Inr (if c = CHR ''r'' then MsgRUARequest else if c = CHR ''a'' then MsgAKERequest
          else if c = CHR ''A'' then MsgAKEResponse else if c = CHR ''R'' then MsgRUAResponse
          else if c = CHR ''o'' then MsgODAResponse else MsgBye, Inr ''peer''))"

definition demo_ctl_env :: "bool \<Rightarrow> (unit, client_session) ctl_env" where
  "demo_ctl_env verified =
    \<lparr>dia_NewCallState = (\<lambda>_ _. Inr ()), dia_AKEInit = (\<lambda>d. (Inr (), d)), dia_ApplyPeerSession = (\<lambda>_ d. (Inr (), d)),
     dia_RUADeriveTopic = (\<lambda>d. (Inr ''rua'', d)), dia_RUARequest = (\<lambda>d. (Inr ''rreq'', d)),
     dia_TransitionToRUA = (\<lambda>d. (Inr (), d)), dia_RUAInit = (\<lambda>d. (Inr (), d)),
     dia_Ticket = (\<lambda>_. Inr (replicate 32 (CHR ''k''))), dia_CurrentTopic = (\<lambda>_. Inr ''ake''), dia_SenderID = (\<lambda>_. Inr ''me''),
     dia_AKERequest = (\<lambda>d. (Inr ''areq'', d)), dia_AKEResponse = (\<lambda>_ d. (Inr ''Aresp'', d)),
     dia_AKEComplete = (\<lambda>_ d. (Inr ''complete'', d)), dia_AKEFinalize = (\<lambda>_ d. (Inr (), d)),
     dia_RUAResponse = (\<lambda>x d. (if x = ''r2'' then Inl ''already complete'' else Inr ''Rresp'', d)), dia_RUAFinalize = (\<lambda>_ d. (Inr (), d)),
     dia_RemoteParty = (\<lambda>_. Inr (Some \<lparr>rp_name = ''n'', rp_phone = ''+1'', rp_verified = verified, rp_logo = []\<rparr>)),
     dia_ExportPeerSession = (\<lambda>_. Inr ''blob''), dia_ODARequest = (\<lambda>_ d. (Inr ''oreq'', d)),
     dia_ODAResponse = (\<lambda>_ d. (Inr ''oresp'', d)), dia_ODAVerify = (\<lambda>_ d. (Inr True, d)),
     dia_CreateByeMessage = (\<lambda>d. (Inr ''bye'', d)), dia_ParseMessage = demo_parse,
     relay_new = (\<lambda>cc d. fst (NewController (\<lambda>_ _. Inr ()) (Some \<lparr>cv_topic = Inr ''ake'',
        cv_ticket = Inr (replicate 32 (CHR ''k'')), cv_sender = Inr ''me''\<rparr>) (Some cc))),
     relay_start = Start, relay_send = (\<lambda>b k. api_result (Send demo_mk True b k)),
     relay_send_to = (\<lambda>t b x k. api_result (SendToTopic demo_mk True t b x k)),
     relay_subscribe = (\<lambda>t b x k. api_result (SubscribeToNewTopicWithPayload demo_mk True t b x k)),
     bs_reply = (\<lambda>_ _. Inr \<lparr>rs_ok = True, rs_data = [], rs_token = []\<rparr>), iter_order = id\<rparr>"

definition demo_config :: sip_config where
  "demo_config = flag_defaults\<lparr>IncomingMode := ''integrated'', SelfPhone := ''+9'', OutgoingODADelaySec := 0,
     ODAAttributes := [''name'']\<rparr>"

definition demo_ctl :: "(unit, client_session, keyspace) controller" where
  "demo_ctl = fst (NewSipController (\<lambda>_ _ _ _. mem_redis Map.empty) demo_config)"

definition call_event :: "string \<Rightarrow> string \<Rightarrow> string \<Rightarrow> ctl_event" where
  "call_event ty callID uri = EvBaresip \<lparr>ev_type = ty, ev_class = ''call'', ev_accountAOR = [], ev_direction = [],
     ev_peerURI = uri, ev_peerName = [], ev_id = callID, ev_param = []\<rparr>"

section \<open>Only verified callers are answered\<close>

text \<open>
  C1. In a run of the controller in any mode but baseline, every call that was accepted was accepted in a step that handled a DIA
  message of an incoming session with this call-id, after the library had reported the session's remote party as
  verified.
\<close>

theorem integrated_answers_only_verified:
  assumes "IncomingMode (config s) \<noteq> ''baseline''"
    and "BAccept cid \<in> set (commands (foldl (ctl_step env) s tes))" and "BAccept cid \<notin> set (commands s)"
  shows "\<exists>n i data now. n < length tes \<and> tes ! n = (now, EvMessage i data)
    \<and> verified_accept env i cid (foldl (ctl_step env) s (take n tes)) (foldl (ctl_step env) s (take (Suc n) tes))"
  using assms(2)
proof (induction tes rule: rev_induct)
  case Nil
  with assms(3) show ?case by simp
next
  case (snoc te tes)
  let ?t = "foldl (ctl_step env) s tes"
  show ?case
  proof (cases "BAccept cid \<in> set (commands ?t)")
    case True
    with snoc.IH obtain n i data now where "n < length tes" "tes ! n = (now, EvMessage i data)"
      "verified_accept env i cid (foldl (ctl_step env) s (take n tes)) (foldl (ctl_step env) s (take (Suc n) tes))"
      by blast
    then show ?thesis by (intro exI [of _ n] exI [of _ i] exI [of _ data] exI [of _ now]) (simp add: nth_append)
  next
    case False
    have mode: "config ?t = config s" by (rule run_config)
    have new: "BAccept cid \<in> set (commands (ctl_step env ?t te))" using snoc.prems by simp
    from step_accepts [of ?t env te] mode assms(1) consider
        "no_accept (commands ?t) (ctl_step env ?t te)"
      | i data xs c where "snd te = EvMessage i data" "commands (ctl_step env ?t te) = commands ?t @ xs @ [BAccept c]"
          "\<forall>c \<in> set xs. \<not> is_accept c" "verified_accept env i c ?t (ctl_step env ?t te)"
      by metis
    then show ?thesis
    proof cases
      case 1
      then obtain xs where "commands (ctl_step env ?t te) = commands ?t @ xs" "\<forall>c \<in> set xs. \<not> is_accept c"
        by (auto simp: no_accept_def)
      moreover from this have "BAccept cid \<in> set xs" using new False by simp
      ultimately have False using is_accept_simps(1) [of cid] by blast
      then show ?thesis ..
    next
      case 2
      then have "c = cid" using new False by auto
      with 2 show ?thesis
        by (intro exI [of _ "length tes"] exI [of _ i] exI [of _ data] exI [of _ "fst te"])
          (auto simp: nth_append prod_eq_iff)
    qed
  qed
qed

definition demo_incoming :: "(int \<times> ctl_event) list" where
  "demo_incoming = [(1, call_event ''CALL_INCOMING'' ''c1'' ''sip:+1@h''), (2, EvTask 0), (3, EvMessage 0 ''areq''),
     (4, EvMessage 0 ''rreq'')]"

theorem integrated_answers_only_verified_witness:
  "\<exists>n i data now. n < 4 \<and> demo_incoming ! n = (now, EvMessage i data)
    \<and> verified_accept (demo_ctl_env True) i ''c1'' (foldl (ctl_step (demo_ctl_env True)) demo_ctl (take n demo_incoming))
        (foldl (ctl_step (demo_ctl_env True)) demo_ctl (take (Suc n) demo_incoming))"
proof -
  have "IncomingMode (config demo_ctl) \<noteq> ''baseline''" "BAccept ''c1'' \<notin> set (commands demo_ctl)"
    "BAccept ''c1'' \<in> set (commands (foldl (ctl_step (demo_ctl_env True)) demo_ctl demo_incoming))"
    by code_simp+
  moreover have "length demo_incoming = 4" by (simp add: demo_incoming_def)
  ultimately show ?thesis using integrated_answers_only_verified by metis
qed

end
