(* ===== verification/SipDemo.thy ===== *)
theory SipDemo
  imports SipProps
begin

text \<open>
  How a run of the SIP controller on concrete events is evaluated: \<open>ctl_eval\<close> collects the definitions that the
  handlers are made of, and the simplifier carries the state, an explicit record, from step to step.
\<close>

named_theorems ctl_eval \<open>definitions for evaluating a run of the controller\<close>

lemma show_nat_small [ctl_eval]:
  "show_nat (Suc 0) = ''1''" "show_nat 1 = ''1''" "show_nat 2 = ''2''" "show_nat 3 = ''3''" "show_nat (Suc (Suc 0)) = ''2''"
  by (subst show_nat.simps; simp add: digit_char_def; code_simp)+

text \<open>The configuration and the sessions that are not there stay folded.\<close>

definition absent :: "('d, 'k) call_session" where
  "absent = NewCallSession 0 [] [] []"

lemma demo_config_simps [ctl_eval]:
  "IncomingMode demo_config = ''integrated''" "SelfPhone demo_config = ''+9''" "OutgoingODADelaySec demo_config = 0"
  "ODAAttributes demo_config = [''name'']" "ODATimeoutSec demo_config = 10" "Verbose demo_config = False"
  "CacheEnabled demo_config = False" "RelayTLS demo_config = False"
  by (simp_all add: demo_config_def flag_defaults_def)

lemma demo_ctl_state:
  "demo_ctl = \<lparr>config = demo_config,
     callMgr = \<lparr>calls = (\<lambda>_. absent), next_call = 0, attemptCounter = 0, byAttempt = [], byCallID = Map.empty,
       pendingByPeer = Map.empty\<rparr>,
     peerCache = Some \<lparr>pc_enabled = False, pc_client = None, pc_prefix = [], pc_ttl = 0\<rparr>, results = make_chan 1000,
     result_log = [], commands = [], tasks = [], dialing = [], clock = 0, registered = False, stopped = False\<rparr>"
  by (simp add: demo_ctl_def NewSipController_def newPeerSessionCache_def demo_config_simps NewCallManager_def absent_def Let_def)

text \<open>The controller's handlers, the call manager and the caches.\<close>

lemmas controller_defs = UnixMilli_def Milliseconds_def
  upd_sess_def set_state_def set_error_def cleanup_def remove_session_def spawn_def command_def dia_op_def
  dia_get_def relay_op_def give_up_def cacheEnabled_def cacheGetPeerSession_def
  cacheStorePeerSession_def emitResult_def base_result_def with_times_def maybeEmitAnsweredResult_def
  maybeEmitODATerminalResult_def answerCall_def rejectCall_def handleDIATimeout_def reject_on_def
  apply_cache_def connect_relay_def outgoing_rua_def outgoing_ake_def runOutgoingDIA_def incoming_rua_def
  incoming_ake_def runIncomingDIA_def handleODARequest_def hangup_after_oda_def handleODAResponse_def
  triggerODA_def start_oda_def startODAAfterAnswerIfConfigured_def
  startODAAfterAnswerForOutgoingIfConfigured_def run_outgoing_oda_def oda_timeout_def TriggerODAForCall_def
  record_remote_def caller_ake_response_def caller_rua_response_def handleCallerDIAMessage_def
  recipient_ake_request_def recipient_ake_complete_def recipient_gate_def recipient_rua_request_def
  handleRecipientDIAMessage_def handleDIAMessage_def scheduleBaselineHangup_def bind_outgoing_def
  find_or_bind_def new_incoming_def active_for_def accept_incoming_def handleIncomingCall_def
  handleCallOutgoing_def handleCallRinging_def hangup_if_requested_def on_answer_def
  send_bye_def markRegistered_def handleBaresipEvent_def
  zero_time_ms_def new_outgoing_def busy_error_def InitiateOutgoingCall_def dial_failed_def dial_finish_def
  HangupCall_def Stop_def remove_nth_def ctl_action_def ctl_step_def

lemmas manager_defs =
  NewCallSession_def SetState_def IsOutgoing_def IsIncoming_def CancelTimeout_def CancelODATimeout_def
  Cleanup_def TrimPrefix_def cut_at_def is_phone_char_def ExtractPhoneFromURI_def NewCallManager_def
  upd_call_def attempt_id_def new_call_def pending_def set_pending_def set_callid_def NewOutgoingAttempt_def
  NewIncomingSession_def BindOutgoingCallID_def GetByCallID_def GetAllSessions_def
  GetActiveSessionByPeer_def RemoveSession_def cache_key_def PeerGet_def PeerSet_def
  flag_defaults_def TrimSpace_def

text \<open>Where a handler goes on with the state that an operation leaves, that state is computed once.\<close>

lemma found_eval [ctl_eval]:
  "find_or_bind ev s = (None, s1) \<Longrightarrow> handleCallAnswered env ev s = s1"
  "find_or_bind ev s = (Some i, s1) \<Longrightarrow> handleCallAnswered env ev s = on_answer env i s1"
  "find_or_bind ev s = (None, s1) \<Longrightarrow> handleCallEstablished env ev s = s1"
  "find_or_bind ev s = (Some i, s1) \<Longrightarrow>
     on_answer env i (set_state i StateBaresipEstablished (upd_sess i (\<lambda>c. c\<lparr>SIPEstablished := True\<rparr>) s1)) = s2 \<Longrightarrow>
     handleCallEstablished env ev s =
       (if IsIncoming (sess s2 i) \<and> IncomingMode (config s2) = ''baseline'' then scheduleBaselineHangup i s2 else s2)"
  "find_or_bind ev s = (None, s1) \<Longrightarrow> handleCallClosed env ev s = s1"
  "find_or_bind ev s = (Some i, s1) \<Longrightarrow> set_state i StateClosed (send_bye env i s1) = s2 \<Longrightarrow>
     handleCallClosed env ev s = remove_session i (cleanup i (emitResult
       (with_times (sess s2 i) ((base_result s2 i)\<lparr>cr_Outcome := ''closed'', cr_Error := ev_param ev\<rparr>)) s2))"
  by (simp_all add: handleCallAnswered_def handleCallEstablished_def handleCallClosed_def Let_def)

lemma on_ok_eval [ctl_eval]: "on_ok (Inl e, s) h k = h e s" "on_ok (Inr a, s) h k = k a s"
  by (simp_all add: on_ok_def)

lemma on_ok_weak: "p = p' \<Longrightarrow> on_ok p h k = on_ok p' h k"
  by simp

text \<open>Below them the strings, the channels and the relay session, and the demonstration environment.\<close>

lemmas relay_defs = index_byte_def is_digit_def chan_defs NewController_def NewRelayClient_def Start_def NewSession_def buildMacTicket_def
  build_request_def enqueue_select_def enqueue_def Send_def SendToTopic_def SubscribeToNewTopicWithPayload_def
  client_mac_data_def macTokenPreimageLen_def demo_mk_def demo_parse_def demo_ctl_env_def demo_ctl_state call_event_def

lemmas [ctl_eval] = controller_defs [unfolded Let_def] manager_defs [unfolded Let_def] relay_defs [unfolded Let_def]

end
