(* ===== verification/SipResults.thy ===== *)
theory SipResults
  imports SipDemo
begin

text \<open>
  The results that the SIP controller emits: in every run each attempt has at most one answered and at most one ODA result, the
  answered result has the latency from dial to answer, and every result is of an attempt of the manager.
\<close>

section \<open>Attempt identities\<close>

lemma attempt_id_inject: "m < 2 ^ 64 \<Longrightarrow> n < 2 ^ 64 \<Longrightarrow>
    attempt_id (of_nat m) = attempt_id (of_nat n) \<longleftrightarrow> m = n"
  by (simp add: attempt_id_def unat_of_nat take_bit_nat_eq_self)

section \<open>The invariant\<close>

definition oda_outcomes :: "string set" where
  "oda_outcomes = {''oda_done'', ''oda_timeout''}"

definition results_of :: "string set \<Rightarrow> string \<Rightarrow> call_result list \<Rightarrow> call_result list" where
  "results_of os a log = filter (\<lambda>r. cr_Outcome r \<in> os \<and> cr_AttemptID r = a) log"

lemma results_of_simps [simp]:
  "results_of os a [] = []" "results_of os a (xs @ ys) = results_of os a xs @ results_of os a ys"
  "results_of os a [r] = (if cr_Outcome r \<in> os \<and> cr_AttemptID r = a then [r] else [])"
  by (simp_all add: results_of_def)

definition attempts_ok :: "('d, 'k) call_manager \<Rightarrow> bool" where
  "attempts_ok m \<longleftrightarrow> attemptCounter m = of_nat (next_call m)
     \<and> (\<forall>i < next_call m. AttemptID (calls m i) = attempt_id (of_nat (Suc i)))
     \<and> (\<forall>i. next_call m \<le> i \<longrightarrow> Direction (calls m i) = [] \<and> CallID (calls m i) = [])
     \<and> (\<forall>i. ODATerminalOutcome (calls m i) \<in> insert [] oda_outcomes)"

definition answered_ok :: "call_result \<Rightarrow> bool" where
  "answered_ok r \<longleftrightarrow> cr_Direction r = ''outgoing'' \<and> \<bar>cr_LatencyMs r - (cr_AnsweredAtUnixMs r - cr_DialSentAtUnixMs r)\<bar> \<le> 1"

definition attempt_ids :: "('d, 'k) call_manager \<Rightarrow> string set" where
  "attempt_ids m = (\<lambda>i. AttemptID (calls m i)) ` {..<next_call m}"

definition log_ok :: "('d, 'k) call_manager \<Rightarrow> call_result list \<Rightarrow> bool" where
  "log_ok m log \<longleftrightarrow>
     (\<forall>i < next_call m. length (results_of {''answered''} (AttemptID (calls m i)) log) \<le> (if AnsweredResultEmitted (calls m i) then 1 else 0)
        \<and> length (results_of oda_outcomes (AttemptID (calls m i)) log) \<le> (if ODATerminalEmitted (calls m i) then 1 else 0))
   \<and> (\<forall>r \<in> set log. cr_Outcome r \<in> insert ''answered'' oda_outcomes \<longrightarrow> cr_AttemptID r \<in> attempt_ids m)
   \<and> (\<forall>r \<in> set log. cr_Outcome r = ''answered'' \<longrightarrow> answered_ok r)"

text \<open>As long as the 64-bit attempt counter has not wrapped around.\<close>

definition once_ok :: "('d, 'k, 'r) controller \<Rightarrow> bool" where
  "once_ok s \<longleftrightarrow> (next_call (callMgr s) < 2 ^ 64 \<longrightarrow>
     manager_ok (callMgr s) \<and> attempts_ok (callMgr s) \<and> log_ok (callMgr s) (result_log s))"

lemma once_cong: "callMgr s' = callMgr s \<Longrightarrow> result_log s' = result_log s \<Longrightarrow> once_ok s' = once_ok s"
  by (simp add: once_ok_def)

lemma primitive_log [simp]:
  "result_log (upd_sess i f s) = result_log s" "result_log (snd (command env cmd s)) = result_log s"
  "result_log (spawn t s) = result_log s" "result_log (remove_session i s) = result_log s"
  "result_log (snd (bind_outgoing ev s)) = result_log s" "result_log (snd (new_incoming ev s)) = result_log s"
  "result_log (snd (new_outgoing p e s)) = result_log s" "result_log (emitResult r s) = result_log s @ [r]"
  by (auto simp: upd_sess_def command_def spawn_def remove_session_def bind_outgoing_def new_incoming_def
      new_outgoing_def emitResult_def split: prod.splits)

text \<open>Changes of the manager that keep what the invariant is about.\<close>

lemma attempt_ids_upd [simp]:
  "AttemptID (f (calls m i)) = AttemptID (calls m i) \<Longrightarrow> attempt_ids (upd_call i f m) = attempt_ids m"
  by (auto simp: attempt_ids_def image_iff)

lemma attempt_idsI: "i < next_call m \<Longrightarrow> AttemptID (calls m i) \<in> attempt_ids m"
  by (simp add: attempt_ids_def)

lemma attempts_upd:
  assumes "attempts_ok m" and "AttemptID (f (calls m i)) = AttemptID (calls m i)"
    and "Direction (f (calls m i)) = Direction (calls m i)" and "CallID (f (calls m i)) = CallID (calls m i)"
    and "ODATerminalOutcome (f (calls m i)) \<in> insert (ODATerminalOutcome (calls m i)) oda_outcomes"
  shows "attempts_ok (upd_call i f m)"
proof -
  have "ODATerminalOutcome (calls m i) \<in> insert [] oda_outcomes" using assms(1) by (simp add: attempts_ok_def)
  then have "ODATerminalOutcome (f (calls m i)) \<in> insert [] oda_outcomes" using assms(5) by auto
  then show ?thesis using assms(1-4) by (simp add: attempts_ok_def)
qed

lemma once_upd:
  assumes "once_ok s" and f: "\<And>c. inert c (f c)"
  shows "once_ok (upd_sess i f s)"
proof -
  have "log_ok (upd_call i f m) log" if "log_ok m log" for m log
    using that f [of "calls m i"] by (auto simp: log_ok_def inert_def same_identity_def)
  moreover have "attempts_ok (upd_call i f m)" if "attempts_ok m" for m
    using that f [of "calls m i"] by (intro attempts_upd) (auto simp: inert_def same_identity_def oda_outcomes_def)
  ultimately show ?thesis using assms(1) by (simp add: once_ok_def inert_ok [OF _ f])
qed

lemma RemoveSession_calls [simp]:
  "calls (RemoveSession i m) = calls m" "next_call (RemoveSession i m) = next_call m"
  "attemptCounter (RemoveSession i m) = attemptCounter m"
  by (auto simp: RemoveSession_def Let_def)

lemma attempts_remove [simp]: "attempts_ok (RemoveSession i m) = attempts_ok m"
  by (simp add: attempts_ok_def)

lemma attempt_ids_remove [simp]: "attempt_ids (RemoveSession i m) = attempt_ids m"
  by (simp add: attempt_ids_def)

lemma log_remove [simp]: "log_ok (RemoveSession i m) log = log_ok m log"
  by (simp add: log_ok_def)

lemma once_remove: "once_ok s \<Longrightarrow> once_ok (remove_session i s)"
  by (simp add: once_ok_def RemoveSession_ok)

lemma once_emit_other:
  "once_ok s \<Longrightarrow> cr_Outcome r \<notin> insert ''answered'' oda_outcomes \<Longrightarrow> once_ok (emitResult r s)"
  by (auto simp: once_ok_def log_ok_def)

section \<open>The two emissions\<close>

lemma same_attempt:
  assumes "attempts_ok m" and "next_call m < 2 ^ 64" and "i < next_call m" and "j < next_call m"
  shows "AttemptID (calls m i) = AttemptID (calls m j) \<longleftrightarrow> i = j"
  using assms attempt_id_inject [of "Suc i" "Suc j"] by (simp add: attempts_ok_def)

lemma oda_not_answered [simp]: "''answered'' \<notin> oda_outcomes"
  by (simp add: oda_outcomes_def)

lemma log_emit_answered:
  assumes ok: "attempts_ok m" "next_call m < 2 ^ 64" "log_ok m log" and i: "i < next_call m"
    and "\<not> AnsweredResultEmitted (calls m i)"
    and r: "cr_AttemptID r = AttemptID (calls m i)" "cr_Outcome r = ''answered''" "answered_ok r"
  shows "log_ok (upd_call i (\<lambda>c. c\<lparr>AnsweredResultEmitted := True\<rparr>) m) (log @ [r])"
  using assms same_attempt [OF ok(1,2) i] attempt_idsI [OF i] by (auto simp: log_ok_def)

lemma log_emit_oda:
  assumes ok: "attempts_ok m" "next_call m < 2 ^ 64" "log_ok m log" and i: "i < next_call m"
    and "\<not> ODATerminalEmitted (calls m i)"
    and r: "cr_AttemptID r = AttemptID (calls m i)" "cr_Outcome r \<in> oda_outcomes"
  shows "log_ok (upd_call i (\<lambda>c. c\<lparr>ODATerminalEmitted := True\<rparr>) m) (log @ [r])"
proof -
  have "cr_Outcome r \<noteq> ''answered''" using r(2) by auto
  then show ?thesis using assms same_attempt [OF ok(1,2) i] attempt_idsI [OF i] by (auto simp: log_ok_def)
qed

text \<open>The two roundings differ by at most one millisecond.\<close>

lemma rounded_latency: "\<bar>Milliseconds (a - t) - (UnixMilli a - UnixMilli t)\<bar> \<le> 1"
  by (auto simp: Milliseconds_def UnixMilli_def)

lemma once_answered:
  assumes "once_ok s"
  shows "once_ok (maybeEmitAnsweredResult i s)"
proof (cases "IsOutgoing (sess s i) \<and> \<not> AnsweredResultEmitted (sess s i)
    \<and> DialSentAt (sess s i) \<noteq> None \<and> AnsweredAt (sess s i) \<noteq> None")
  case False
  then have "maybeEmitAnsweredResult i s = s"
    by (auto simp: maybeEmitAnsweredResult_def Let_def split: option.split)
  with assms show ?thesis by simp
next
  case True
  then obtain t a where ta: "DialSentAt (sess s i) = Some t" "AnsweredAt (sess s i) = Some a" by blast
  let ?m = "callMgr s"
  let ?f = "\<lambda>c. c\<lparr>AnsweredResultEmitted := True\<rparr>"
  let ?r = "(base_result s i)\<lparr>cr_DialSentAtUnixMs := UnixMilli t, cr_AnsweredAtUnixMs := UnixMilli a,
      cr_LatencyMs := Milliseconds (a - t), cr_Outcome := ''answered''\<rparr>"
  have e: "maybeEmitAnsweredResult i s = upd_sess i ?f (emitResult ?r s)"
    using True ta by (simp add: maybeEmitAnsweredResult_def)
  have "log_ok (upd_call i ?f ?m) (result_log s @ [?r])" if "next_call ?m < 2 ^ 64" "attempts_ok ?m" "log_ok ?m (result_log s)"
  proof (rule log_emit_answered [OF that(2,1,3)])
    show "i < next_call ?m" using that(2) True by (auto simp: attempts_ok_def IsOutgoing_def intro: leI)
  qed (use True in \<open>simp_all add: base_result_def answered_ok_def IsOutgoing_def Let_def rounded_latency\<close>)
  then show ?thesis using assms by (simp add: once_ok_def e session_flag_ok attempts_upd)
qed

lemma with_times_simps [simp]:
  "cr_Outcome (with_times c r) = cr_Outcome r" "cr_AttemptID (with_times c r) = cr_AttemptID r"
  by (auto simp: with_times_def Let_def split: option.split)

lemma once_oda:
  assumes "once_ok s"
  shows "once_ok (maybeEmitODATerminalResult i s)"
proof (cases "\<not> ODATerminalEmitted (sess s i) \<and> ODATerminalOutcome (sess s i) \<noteq> [] \<and> ODARequestedAt (sess s i) \<noteq> None
    \<and> ODACompletedAt (sess s i) \<noteq> None \<and> CallID (sess s i) \<noteq> []")
  case False
  then have "maybeEmitODATerminalResult i s = s"
    by (auto simp: maybeEmitODATerminalResult_def Let_def split: option.split)
  with assms show ?thesis by simp
next
  case True
  then obtain q d where qd: "ODARequestedAt (sess s i) = Some q" "ODACompletedAt (sess s i) = Some d" by blast
  let ?m = "callMgr s"
  let ?f = "\<lambda>c. c\<lparr>ODATerminalEmitted := True\<rparr>"
  let ?r = "with_times (sess s i) ((base_result s i)\<lparr>cr_ODAReqUnixMs := UnixMilli q, cr_ODADoneUnixMs := UnixMilli d,
      cr_ODALatencyMs := Milliseconds (d - q), cr_Outcome := ODATerminalOutcome (sess s i), cr_Error := ODATerminalError (sess s i)\<rparr>)"
  have e: "maybeEmitODATerminalResult i s = emitResult ?r (upd_sess i ?f s)"
    using True qd by (simp add: maybeEmitODATerminalResult_def Let_def)
  have "log_ok (upd_call i ?f ?m) (result_log s @ [?r])" if "next_call ?m < 2 ^ 64" "attempts_ok ?m" "log_ok ?m (result_log s)"
  proof (rule log_emit_oda [OF that(2,1,3)])
    show "i < next_call ?m" using that(2) True by (auto simp: attempts_ok_def intro: leI)
    have "ODATerminalOutcome (sess s i) \<in> insert [] oda_outcomes" using that(2) by (simp add: attempts_ok_def)
    then show "cr_Outcome ?r \<in> oda_outcomes" using True by simp
  qed (use True in \<open>simp_all add: base_result_def Let_def\<close>)
  then show ?thesis using assms by (simp add: once_ok_def e session_flag_ok attempts_upd)
qed

section \<open>New attempts\<close>

text \<open>A new attempt has an identity that no earlier result has.\<close>

lemma results_none: "(\<And>r. r \<in> set log \<Longrightarrow> cr_Outcome r \<in> os \<Longrightarrow> cr_AttemptID r \<noteq> a) \<Longrightarrow> results_of os a log = []"
  by (auto simp: results_of_def filter_empty_conv)

lemma attempts_new_call:
  assumes "attempts_ok m" and "ODATerminalOutcome c = []"
  shows "attempts_ok (snd (new_call c m))"
  using assms by (auto simp: attempts_ok_def less_Suc_eq add.commute)

lemma log_new_call:
  assumes ok: "attempts_ok m" "Suc (next_call m) < 2 ^ 64" "log_ok m log"
  shows "log_ok (snd (new_call c m)) log"
proof -
  let ?m = "snd (new_call c m)"
  have ids: "attempt_ids ?m = insert (AttemptID (calls ?m (next_call m))) (attempt_ids m)"
  proof -
    have "(\<lambda>i. AttemptID (calls ?m i)) ` {..<next_call m} = attempt_ids m"
      unfolding attempt_ids_def by (rule image_cong) auto
    then show ?thesis by (simp only: attempt_ids_def new_call_simps(2) lessThan_Suc image_insert)
  qed
  have "AttemptID (calls ?m (next_call m)) \<notin> attempt_ids m"
  proof
    assume "AttemptID (calls ?m (next_call m)) \<in> attempt_ids m"
    then obtain i where "i < next_call m" "attempt_id (of_nat (Suc (next_call m))) = attempt_id (of_nat (Suc i))"
      using ok(1) by (auto simp: attempt_ids_def attempts_ok_def add.commute)
    with ok(2) show False by (simp add: attempt_id_inject del: of_nat_Suc)
  qed
  then have "results_of {''answered''} (AttemptID (calls ?m (next_call m))) log = []"
    "results_of oda_outcomes (AttemptID (calls ?m (next_call m))) log = []"
    using ok(3) by (auto intro!: results_none simp: log_ok_def)
  then show ?thesis using ok(3) by (auto simp: log_ok_def ids less_Suc_eq)
qed

lemma set_callid_ids [simp]: "attempt_ids (set_callid k v m) = attempt_ids m" "attempts_ok (set_callid k v m) = attempts_ok m" "log_ok (set_callid k v m) log = log_ok m log"
  by (simp_all add: attempts_ok_def log_ok_def attempt_ids_def)

lemma set_pending_ids [simp]: "attempt_ids (set_pending p q m) = attempt_ids m" "attempts_ok (set_pending p q m) = attempts_ok m" "log_ok (set_pending p q m) log = log_ok m log"
  by (simp_all add: attempts_ok_def log_ok_def attempt_ids_def)

lemma once_new_call:
  assumes "once_ok s" and "ODATerminalOutcome c = []" and "next_call (snd (new_call c (callMgr s))) < 2 ^ 64"
  shows "attempts_ok (snd (new_call c (callMgr s))) \<and> log_ok (snd (new_call c (callMgr s))) (result_log s)"
  using assms by (auto simp: once_ok_def intro!: attempts_new_call log_new_call)

lemma once_new_incoming:
  assumes "once_ok s"
  shows "once_ok (snd (new_incoming ev s))"
  using assms mgr_ops_mgr(2) [of s ev] once_new_call [OF assms]
  by (auto simp: once_ok_def new_incoming_def NewIncomingSession_eq Let_def NewCallSession_def)

lemma once_new_outgoing:
  assumes "once_ok s"
  shows "once_ok (snd (new_outgoing p e s))"
  using assms mgr_ops_mgr(3) [of s p e] once_new_call [OF assms]
  by (auto simp: once_ok_def new_outgoing_def NewOutgoingAttempt_eq NewCallSession_def)

text \<open>Binding a call-id concerns an attempt that is there.\<close>

lemma attempts_bind_call:
  assumes "attempts_ok m" and "i < next_call m"
  shows "attempts_ok (upd_call i (\<lambda>c. c\<lparr>CallID := k, PeerURI := u, AccountAOR := aor\<rparr>) m)"
  using assms by (auto simp: attempts_ok_def)

lemma once_bind:
  assumes "once_ok s"
  shows "once_ok (snd (bind_outgoing ev s))"
proof (cases "pending (callMgr s) (ExtractPhoneFromURI (ev_peerURI ev))")
  case Nil
  then have "snd (bind_outgoing ev s) = s" by (simp add: bind_outgoing_def BindOutgoingCallID_def)
  with assms show ?thesis by simp
next
  case (Cons i queue)
  let ?m = "callMgr s" and ?p = "ExtractPhoneFromURI (ev_peerURI ev)"
  let ?f = "\<lambda>c :: ('a, 'b) call_session. c\<lparr>CallID := ev_id ev, PeerURI := ev_peerURI ev, AccountAOR := ev_accountAOR ev\<rparr>"
  let ?m2 = "upd_call i ?f (set_pending ?p queue ?m)"
  have b: "callMgr (snd (bind_outgoing ev s)) = (if ev_id ev \<noteq> [] then set_callid (ev_id ev) (Some i) ?m2 else ?m2)"
    using Cons by (simp add: bind_outgoing_def BindOutgoingCallID_def Let_def)
  have "attempts_ok ?m2 \<and> log_ok ?m2 log" if "manager_ok ?m" "attempts_ok ?m" "log_ok ?m log" for log
  proof
    have "i < next_call ?m" using manager_okD(5) [OF that(1), of i ?p] Cons by simp
    with that(2) show "attempts_ok ?m2" by (intro attempts_bind_call) simp_all
    show "log_ok ?m2 log" using that(3) by (auto simp: log_ok_def)
  qed
  then show ?thesis using assms mgr_ops_mgr(1) [of s ev] by (auto simp: once_ok_def b)
qed

lemma once_close:
  assumes "once_ok s"
  shows "once_ok (remove_session i (cleanup i (set_state i StateClosed s)))"
  unfolding cleanup_def set_state_def
  by (intro once_remove once_upd assms) (simp_all add: inert_defs)

interpretation results_once: step_invariant once_ok env for env
proof unfold_locales
  show "once_ok s \<Longrightarrow> cr_Outcome r \<in> {''closed'', ''error''} \<Longrightarrow> once_ok (emitResult r s)"
    for s :: "('a, 'b, 'c) controller" and r
    by (rule once_emit_other) (auto simp: oda_outcomes_def)
  show "once_ok s \<Longrightarrow> new_outgoing p e s = (i, s1) \<Longrightarrow> cr_Outcome r = ''error'' \<Longrightarrow>
      once_ok (remove_session i (cleanup i (set_state i StateClosed (emitResult r s1))))"
    for s s1 :: "('a, 'b, 'c) controller" and p e i r
    using once_new_outgoing [of s p e] by (intro once_close once_emit_other) (auto simp: oda_outcomes_def)
qed (simp_all add: once_upd live_change_def once_close once_remove once_oda once_answered once_bind once_new_incoming
    once_new_outgoing answerCall_def, simp_all add: once_ok_def)

section \<open>Every attempt has its results once\<close>

lemma once_start: "once_ok (fst (NewSipController connect cfg))"
  by (simp add: once_ok_def NewSipController_def Let_def attempts_ok_def log_ok_def NewCallManager_def NewCallSession_def
      manager_ok_new [unfolded NewCallManager_def NewCallSession_def])

lemma once_counts:
  assumes "once_ok s" and "next_call (callMgr s) < 2 ^ 64"
  shows "length (results_of {''answered''} a (result_log s)) \<le> 1" and "length (results_of oda_outcomes a (result_log s)) \<le> 1"
proof -
  have ok: "log_ok (callMgr s) (result_log s)" using assms by (simp add: once_ok_def)
  show "length (results_of {''answered''} a (result_log s)) \<le> 1"
  proof (cases "a \<in> attempt_ids (callMgr s)")
    case True
    with ok show ?thesis by (fastforce simp: log_ok_def attempt_ids_def split: if_splits)
  next
    case False
    with ok have "results_of {''answered''} a (result_log s) = []" by (intro results_none) (auto simp: log_ok_def)
    then show ?thesis by simp
  qed
  show "length (results_of oda_outcomes a (result_log s)) \<le> 1"
  proof (cases "a \<in> attempt_ids (callMgr s)")
    case True
    with ok show ?thesis by (fastforce simp: log_ok_def attempt_ids_def split: if_splits)
  next
    case False
    with ok have "results_of oda_outcomes a (result_log s) = []" by (intro results_none) (auto simp: log_ok_def)
    then show ?thesis by simp
  qed
qed


definition demo_outgoing :: "(int \<times> ctl_event) list" where
  "demo_outgoing = [(1500000, EvCall ''+1'' True), (2500000, EvTask 0), (3500000, EvMessage 0 ''Aresp''), (4500000, EvMessage 0 ''Rresp''),
     (5500000, call_event ''CALL_ANSWERED'' ''c7'' ''sip:+1@h''), (6500000, EvDialDone 0 (Inr \<lparr>rs_ok = True, rs_data = [], rs_token = []\<rparr>)),
     (7500000, EvTask 0), (8500000, EvMessage 0 ''oresp''), (9500000, call_event ''CALL_ESTABLISHED'' ''c7'' ''sip:+1@h''),
     (10500000, EvMessage 0 ''oresp''), (11500000, call_event ''CALL_CLOSED'' ''c7'' ''sip:+1@h'')]"

definition demo_log :: "call_result list" where
  "demo_log = result_log (foldl (ctl_step (demo_ctl_env True)) demo_ctl demo_outgoing)"

lemma demo_log_eval:
  "next_call (callMgr (foldl (ctl_step (demo_ctl_env True)) demo_ctl demo_outgoing)) = 1
   \<and> map (\<lambda>r. (cr_Outcome r, cr_LatencyMs r)) demo_log = [(''answered'', 4), (''oda_done'', 4), (''closed'', 4)]"
  unfolding demo_log_def by (simp add: ctl_eval demo_outgoing_def cong: prod.case_cong_weak on_ok_weak)


end
