(* ===== verification/SipPeers.thy ===== *)
theory SipPeers
  imports SipDemo
begin

text \<open>
  One call per peer: outside baseline mode the controller never has two sessions with the same peer, and a session that it
  has is not closed. \<open>live\<close> are the sessions that the manager's attempts lead to.
\<close>

section \<open>The sessions of a manager\<close>

definition live :: "('d, 'k) call_manager \<Rightarrow> call set" where
  "live m = snd ` set (byAttempt m)"

definition peers_ok :: "('d, 'k) call_manager \<Rightarrow> bool" where
  "peers_ok m \<longleftrightarrow> manager_ok m \<and> [] \<notin> fst ` set (byAttempt m)
     \<and> (\<forall>i \<in> live m. State (calls m i) \<noteq> StateClosed) \<and> inj_on (\<lambda>i. PeerPhone (calls m i)) (live m)"

definition one_per_peer :: "('d, 'k, 'r) controller \<Rightarrow> bool" where
  "one_per_peer s \<longleftrightarrow> (IncomingMode (config s) \<noteq> ''baseline'' \<longrightarrow> peers_ok (callMgr s))"

lemma live_attempt: "manager_ok m \<Longrightarrow> (a, i) \<in> set (byAttempt m) \<Longrightarrow> i < next_call m \<and> AttemptID (calls m i) = a"
  using manager_okD(1) [of m] manager_okD(2) [of m a i] by (metis map_of_eq_Some_iff)

lemma live_bound: "manager_ok m \<Longrightarrow> i \<in> live m \<Longrightarrow> i < next_call m"
  by (auto simp: live_def dest: live_attempt)

text \<open>An operation that adds no session keeps the invariant when it leaves the peers and closes none.\<close>

lemma peers_mono:
  assumes "peers_ok m" and "manager_ok m'" and "set (byAttempt m') \<subseteq> set (byAttempt m)"
    and "\<And>i. i \<in> live m' \<Longrightarrow> PeerPhone (calls m' i) = PeerPhone (calls m i) \<and> (State (calls m' i) = StateClosed \<longrightarrow> State (calls m i) = StateClosed)"
  shows "peers_ok m'"
proof -
  have sub: "live m' \<subseteq> live m" using assms(3) by (auto simp: live_def)
  have "inj_on (\<lambda>i. PeerPhone (calls m i)) (live m')"
    using assms(1) sub inj_on_subset unfolding peers_ok_def by blast
  then have "inj_on (\<lambda>i. PeerPhone (calls m' i)) (live m')"
    by (rule inj_on_cong [THEN iffD2, rotated]) (simp add: assms(4))
  then show ?thesis using assms sub unfolding peers_ok_def by blast
qed

lemma peers_upd:
  assumes "peers_ok m" and f: "\<And>c. live_change c (f c)"
  shows "peers_ok (upd_call i f m)"
proof (rule peers_mono [OF assms(1)])
  show "manager_ok (upd_call i f m)"
    using assms f by (intro inert_ok) (simp_all add: peers_ok_def live_change_def)
qed (use f [of "calls m i"] in \<open>auto simp: inert_defs\<close>)

lemma RemoveSession_attempts:
  "byAttempt (RemoveSession i m) = (if AttemptID (calls m i) = [] then byAttempt m else AList.delete (AttemptID (calls m i)) (byAttempt m))"
  "calls (RemoveSession i m) = calls m"
  by (auto simp: RemoveSession_def Let_def)

lemma delete_in: "(a, i) \<in> set (AList.delete k al) \<Longrightarrow> (a, i) \<in> set al \<and> a \<noteq> k"
  by (auto simp: AList.delete_eq)

lemma remove_subset: "set (byAttempt (RemoveSession i m)) \<subseteq> set (byAttempt m)"
  by (auto simp: RemoveSession_attempts dest: delete_in)

lemma peers_remove: "peers_ok m \<Longrightarrow> peers_ok (RemoveSession i m)"
  by (rule peers_mono) (use remove_subset in \<open>auto simp: peers_ok_def RemoveSession_ok RemoveSession_attempts(2)\<close>)

text \<open>Closing a session is safe because it is removed.\<close>

lemma removed_not_live:
  assumes "manager_ok m" and "[] \<notin> fst ` set (byAttempt m)"
  shows "i \<notin> live (RemoveSession i m)"
proof
  assume "i \<in> live (RemoveSession i m)"
  then obtain a where a: "(a, i) \<in> set (byAttempt (RemoveSession i m))" by (auto simp: live_def)
  then have m: "(a, i) \<in> set (byAttempt m)" using remove_subset by blast
  then have k: "AttemptID (calls m i) = a" using live_attempt [OF assms(1)] by blast
  with assms(2) m have "a \<noteq> []" by force
  with a k show False by (auto simp: RemoveSession_attempts dest: delete_in)
qed

lemma peers_close:
  assumes "manager_ok m" and "[] \<notin> fst ` set (byAttempt m)"
    and "\<And>j. j \<in> live m \<Longrightarrow> j \<noteq> i \<Longrightarrow> State (calls m j) \<noteq> StateClosed" and "inj_on (\<lambda>j. PeerPhone (calls m j)) (live m - {i})"
  shows "peers_ok (RemoveSession i (upd_call i Cleanup (upd_call i (SetState StateClosed) m)))"
proof -
  let ?m = "upd_call i Cleanup (upd_call i (SetState StateClosed) m)"
  have ok: "manager_ok ?m" by (intro inert_ok assms(1)) (simp_all add: inert_defs)
  have sub: "live (RemoveSession i ?m) \<subseteq> live m - {i}"
    using removed_not_live [OF ok, of i] remove_subset [of i ?m] assms(2) by (auto simp: live_def)
  have "inj_on (\<lambda>j. PeerPhone (calls m j)) (live (RemoveSession i ?m))" by (rule inj_on_subset [OF assms(4) sub])
  moreover have "PeerPhone (calls (RemoveSession i ?m) j) = PeerPhone (calls m j)" for j
    by (simp add: RemoveSession_attempts(2) inert_defs)
  moreover have "State (calls (RemoveSession i ?m) j) \<noteq> StateClosed" if "j \<in> live (RemoveSession i ?m)" for j
    using sub that assms(3) by (auto simp: RemoveSession_attempts(2))
  moreover have "[] \<notin> fst ` set (byAttempt (RemoveSession i ?m))"
    using remove_subset [of i ?m] assms(2) by auto
  ultimately show ?thesis by (simp add: peers_ok_def RemoveSession_ok [OF ok])
qed

section \<open>New sessions\<close>

lemma update_in: "(a, i) \<in> set (AList.update k v al) \<Longrightarrow> (a, i) \<in> set al \<or> (a, i) = (k, v)"
  by (induction al) (auto split: if_splits)

lemma new_call_attempts:
  "set (byAttempt (snd (new_call c m))) \<subseteq> insert (attempt_id (attemptCounter m + 1), next_call m) (set (byAttempt m))"
  by (auto dest: update_in)

lemma attempt_id_not_Nil [simp]: "attempt_id n \<noteq> []"
  by (simp add: attempt_id_def)

lemma new_call_live:
  assumes "peers_ok m"
  shows "[] \<notin> fst ` set (byAttempt (snd (new_call c m)))" and "live (snd (new_call c m)) \<subseteq> insert (next_call m) (live m)"
proof -
  have keys: "fst ` set (byAttempt (snd (new_call c m))) \<subseteq> insert (attempt_id (attemptCounter m + 1)) (fst ` set (byAttempt m))"
    using image_mono [OF new_call_attempts, of fst c m] by (simp only: image_insert fst_conv)
  have old: "[] \<notin> fst ` set (byAttempt m)" using assms by (simp add: peers_ok_def)
  show "[] \<notin> fst ` set (byAttempt (snd (new_call c m)))"
  proof
    assume "[] \<in> fst ` set (byAttempt (snd (new_call c m)))"
    from subsetD [OF keys this] old show False by (metis attempt_id_not_Nil insertE)
  qed
  show "live (snd (new_call c m)) \<subseteq> insert (next_call m) (live m)"
    using image_mono [OF new_call_attempts, of snd c m] by (simp only: live_def image_insert snd_conv)
qed

lemma peers_new_call:
  assumes "peers_ok m" and "\<And>i. i \<in> live m \<Longrightarrow> PeerPhone (calls m i) \<noteq> PeerPhone c" and "State c \<noteq> StateClosed"
  shows "peers_ok (snd (new_call c m))"
proof -
  have old: "i \<noteq> next_call m" if "i \<in> live m" for i
    using live_bound [of m i] assms(1) that by (auto simp: peers_ok_def)
  have "inj_on (\<lambda>i. PeerPhone (calls (snd (new_call c m)) i)) (insert (next_call m) (live m))"
    using assms(1,2) old by (auto simp: inj_on_def peers_ok_def) (metis assms(2))+
  then have "inj_on (\<lambda>i. PeerPhone (calls (snd (new_call c m)) i)) (live (snd (new_call c m)))"
    by (rule inj_on_subset) (rule new_call_live(2) [OF assms(1)])
  moreover have "State (calls (snd (new_call c m)) i) \<noteq> StateClosed" if "i \<in> live (snd (new_call c m))" for i
    using new_call_live(2) [OF assms(1), of c] that assms(1,3) by (auto simp: peers_ok_def)
  ultimately show ?thesis
    using assms(1) new_call_live(1) [OF assms(1), of c] by (simp add: peers_ok_def new_call_ok)
qed

lemma peers_frame:
  assumes "peers_ok m" and "manager_ok m'" and "byAttempt m' = byAttempt m" and "calls m' = calls m"
  shows "peers_ok m'"
  by (rule peers_mono [OF assms(1,2)]) (simp_all add: assms(3,4))

lemma peers_outgoing:
  assumes "peers_ok m" and "\<And>i. i \<in> live m \<Longrightarrow> PeerPhone (calls m i) \<noteq> p"
  shows "peers_ok (snd (NewOutgoingAttempt now p u e m))"
  unfolding NewOutgoingAttempt_eq snd_conv
proof (rule peers_frame)
  show "peers_ok (snd (new_call ((NewCallSession now p u ''outgoing'')\<lparr>ProtocolEnabled := e\<rparr>) m))"
    using assms by (intro peers_new_call) (auto simp: NewCallSession_def)
  show "manager_ok (set_pending p (pending m p @ [next_call m])
      (snd (new_call ((NewCallSession now p u ''outgoing'')\<lparr>ProtocolEnabled := e\<rparr>) m)))"
    using NewOutgoingAttempt_ok [of m now p u e] assms(1) by (simp add: NewOutgoingAttempt_eq peers_ok_def)
qed simp_all

lemma peers_incoming:
  assumes "peers_ok m" and "\<And>i. i \<in> live m \<Longrightarrow> PeerPhone (calls m i) \<noteq> ExtractPhoneFromURI u"
  shows "peers_ok (snd (NewIncomingSession now k u n aor m))"
proof -
  let ?c = "(NewCallSession now (ExtractPhoneFromURI u) u ''incoming'')\<lparr>CallID := k, PeerName := n, AccountAOR := aor\<rparr>"
  have "peers_ok (snd (new_call ?c m))" using assms by (intro peers_new_call) (auto simp: NewCallSession_def)
  moreover have "manager_ok (snd (NewIncomingSession now k u n aor m))"
    using NewIncomingSession_ok [of m] assms(1) by (simp add: peers_ok_def)
  ultimately show ?thesis
    by (elim peers_frame) (auto simp: NewIncomingSession_eq Let_def)
qed

lemma peers_bind:
  assumes "peers_ok m"
  shows "peers_ok (snd (BindOutgoingCallID p k u aor m))"
proof (rule peers_mono [OF assms])
  show "manager_ok (snd (BindOutgoingCallID p k u aor m))"
    using assms by (simp add: peers_ok_def BindOutgoingCallID_ok)
qed (auto simp: BindOutgoingCallID_def Let_def split: list.split)

section \<open>The controller\<close>

lemma active_none:
  assumes "\<And>xs. set (iter_order env xs) = set xs" and "one_per_peer s" and "IncomingMode (config s) \<noteq> ''baseline''"
    and "active_for env p s = None" and "i \<in> live (callMgr s)"
  shows "PeerPhone (sess s i) \<noteq> p"
proof
  assume "PeerPhone (sess s i) = p"
  moreover have "State (sess s i) \<noteq> StateClosed" using assms(2,3,5) by (simp add: one_per_peer_def peers_ok_def)
  moreover have "i \<in> set (GetAllSessions (iter_order env) (callMgr s))"
    using assms(1,5) by (simp add: GetAllSessions_def live_def)
  ultimately show False using assms(4) by (auto simp: active_for_def GetActiveSessionByPeer_def find_None_iff)
qed

text \<open>The two results only set a flag of a session.\<close>

lemma emit_result_state:
  "callMgr (maybeEmitAnsweredResult i s) = callMgr s
   \<or> callMgr (maybeEmitAnsweredResult i s) = upd_call i (\<lambda>c. c\<lparr>AnsweredResultEmitted := True\<rparr>) (callMgr s)"
  "callMgr (maybeEmitODATerminalResult i s) = callMgr s
   \<or> callMgr (maybeEmitODATerminalResult i s) = upd_call i (\<lambda>c. c\<lparr>ODATerminalEmitted := True\<rparr>) (callMgr s)"
  by (auto simp: maybeEmitAnsweredResult_def maybeEmitODATerminalResult_def Let_def split: option.split)

lemma peers_flag:
  "peers_ok m \<Longrightarrow> peers_ok (upd_call i (\<lambda>c. c\<lparr>AnsweredResultEmitted := b\<rparr>) m)"
  "peers_ok m \<Longrightarrow> peers_ok (upd_call i (\<lambda>c. c\<lparr>ODATerminalEmitted := b\<rparr>) m)"
  by (rule peers_mono; auto simp: peers_ok_def session_flag_ok)+

lemma one_per_peer_emit:
  "one_per_peer s \<Longrightarrow> one_per_peer (maybeEmitAnsweredResult i s)"
  "one_per_peer s \<Longrightarrow> one_per_peer (maybeEmitODATerminalResult i s)"
  using emit_result_state [of i s] by (auto simp: one_per_peer_def peers_flag)

lemma one_per_peer_close:
  assumes "manager_ok (callMgr s)" and "[] \<notin> fst ` set (byAttempt (callMgr s))"
    and "\<And>j. j \<in> live (callMgr s) \<Longrightarrow> j \<noteq> i \<Longrightarrow> State (sess s j) \<noteq> StateClosed"
    and "inj_on (\<lambda>j. PeerPhone (sess s j)) (live (callMgr s) - {i})"
  shows "one_per_peer (remove_session i (cleanup i (set_state i StateClosed s)))"
  using peers_close [OF assms] by (simp add: one_per_peer_def cleanup_def set_state_def)

lemma one_per_peer_busy:
  assumes "one_per_peer s" and n: "new_outgoing p e s = (i, s1)"
  shows "one_per_peer (remove_session i (cleanup i (set_state i StateClosed (emitResult r s1))))"
proof (cases "IncomingMode (config s) = ''baseline''")
  case True
  moreover have "config s1 = config s" using n primitive_config(7) [of p e s] by simp
  ultimately show ?thesis by (simp add: one_per_peer_def)
next
  case False
  let ?m = "callMgr s" and ?c = "(NewCallSession (clock s) p [] ''outgoing'')\<lparr>ProtocolEnabled := e\<rparr>"
  have ok: "peers_ok ?m" using assms(1) False by (simp add: one_per_peer_def)
  have m1: "callMgr s1 = set_pending p (pending ?m p @ [next_call ?m]) (snd (new_call ?c ?m))" and i: "i = next_call ?m"
    using n by (auto simp: new_outgoing_def NewOutgoingAttempt_eq)
  have sub: "live (callMgr s1) - {i} \<subseteq> live ?m"
    using new_call_live(2) [OF ok, of ?c] by (auto simp: m1 i live_def simp del: new_call_simps)
  have same: "sess s1 j = sess s j" if "j \<noteq> i" for j using that by (simp add: m1 i)
  have "inj_on (\<lambda>j. PeerPhone (sess s1 j)) (live (callMgr s1) - {i})
    = inj_on (\<lambda>j. PeerPhone (sess s j)) (live (callMgr s1) - {i})"
    by (rule inj_on_cong) (simp add: same)
  then have inj: "inj_on (\<lambda>j. PeerPhone (sess s1 j)) (live (callMgr s1) - {i})"
    using inj_on_subset [OF _ sub] ok by (auto simp: peers_ok_def)
  show ?thesis
  proof (rule one_per_peer_close)
    show "manager_ok (callMgr (emitResult r s1))"
      using mgr_ops_mgr(3) [of s p e] ok n by (simp add: peers_ok_def)
    show "[] \<notin> fst ` set (byAttempt (callMgr (emitResult r s1)))"
      using new_call_live(1) [OF ok, of ?c] by (simp add: m1 del: new_call_simps)
    show "State (sess (emitResult r s1) j) \<noteq> StateClosed" if "j \<in> live (callMgr (emitResult r s1))" "j \<noteq> i" for j
      using that sub ok same [of j] by (auto simp: peers_ok_def)
  qed (use inj in simp)
qed

lemma one_per_peer_invariant:
  assumes ord: "\<And>xs. set (iter_order env xs) = set xs"
  shows "step_invariant one_per_peer env"
proof unfold_locales
  fix s i
  assume s: "one_per_peer (s :: ('a, 'b, 'c) controller)"
  show "one_per_peer (remove_session i (cleanup i (set_state i StateClosed s)))"
  proof (cases "IncomingMode (config s) = ''baseline''")
    case False
    then have "peers_ok (callMgr s)" using s by (simp add: one_per_peer_def)
    then show ?thesis by (intro one_per_peer_close) (auto simp: peers_ok_def intro: inj_on_diff)
  qed (simp add: one_per_peer_def)
next
  fix s ev
  assume s: "one_per_peer (s :: ('a, 'b, 'c) controller)" "new_allowed env ev s"
  then show "one_per_peer (snd (new_incoming ev s))"
    using active_none [OF ord s(1)]
    by (auto simp: one_per_peer_def new_allowed_def) (auto simp: new_incoming_def case_prod_beta intro!: peers_incoming)
next
  fix s p e
  assume s: "one_per_peer (s :: ('a, 'b, 'c) controller)" "active_for env p s = None"
  then show "one_per_peer (snd (new_outgoing p e s))"
    using active_none [OF ord s(1)]
    by (auto simp: one_per_peer_def) (auto simp: new_outgoing_def case_prod_beta intro!: peers_outgoing)
next
  fix s ev
  assume "one_per_peer (s :: ('a, 'b, 'c) controller)"
  then show "one_per_peer (snd (bind_outgoing ev s))"
    by (auto simp: one_per_peer_def) (simp add: bind_outgoing_def case_prod_beta peers_bind)
qed (simp_all add: one_per_peer_busy one_per_peer_emit, simp_all add: one_per_peer_def peers_upd peers_remove answerCall_def)

section \<open>One session per peer\<close>

lemma one_per_peer_start: "one_per_peer (fst (NewSipController connect cfg))"
  by (simp add: one_per_peer_def peers_ok_def NewSipController_def Let_def live_def)
    (simp add: NewCallManager_def)


definition demo_calls :: "(int \<times> ctl_event) list" where
  "demo_calls = [(1, EvCall ''+1'' False), (2, EvCall ''+2'' False), (3, EvCall ''+1'' False)]"


end
