(* ===== verification/SipFaults.thy ===== *)
theory SipFaults
  imports SipPeers
begin

text \<open>
  How the SIP controller ends calls: the timeout of the authentication, and the sequences of events in which it does
  something else than it means to.
\<close>

section \<open>The authentication timeout\<close>

lemma removed_not_found:
  "AttemptID (calls m i) \<noteq> [] \<Longrightarrow> GetByAttemptID (AttemptID (calls m i)) (RemoveSession i m) = None"
  "CallID (calls m i) \<noteq> [] \<Longrightarrow> GetByCallID (CallID (calls m i)) (RemoveSession i m) = None"
  by (auto simp: GetByAttemptID_def GetByCallID_def RemoveSession_def Let_def delete_conv')

lemma closed_ignores: "State (sess s i) = StateClosed \<Longrightarrow> handleDIAMessage env i data s = s"
  by (simp add: handleDIAMessage_def)

text \<open>
  C23. When the authentication of a call times out, the call is hung up with 603, its session is closed, without DIA state
  or relay connection, and found under neither of its names; DIA messages that still arrive for it change
  nothing.
\<close>

theorem timeout_rejects:
  assumes "DIATimeout (sess s i) = Armed" and "CallID (sess s i) \<noteq> []" and "AttemptID (sess s i) \<noteq> []"
  shows "let t = ctl_step env s (now, EvDIATimer i) in
    commands t = commands s @ [BHangup (CallID (sess s i)) 603 ''Authentication Timeout'']
    \<and> State (sess t i) = StateClosed \<and> DIAState (sess t i) = None \<and> DIAController (sess t i) = None
    \<and> GetByCallID (CallID (sess s i)) (callMgr t) = None \<and> GetByAttemptID (AttemptID (sess s i)) (callMgr t) = None
    \<and> ctl_step env t (later, EvMessage i data) = t\<lparr>clock := later\<rparr>"
proof -
  define m where "m = upd_call i Cleanup (upd_call i (SetState StateClosed) (upd_call i CancelTimeout
      (upd_call i (\<lambda>c. c\<lparr>DIATimeout := Fired\<rparr>) (callMgr s))))"
  define t where "t = ctl_step env s (now, EvDIATimer i)"
  have t: "t = s\<lparr>clock := now, callMgr := RemoveSession i m,
      commands := commands s @ [BHangup (CallID (sess s i)) 603 ''Authentication Timeout'']\<rparr>"
    using assms(1,2) by (simp add: t_def ctl_step_def ctl_action_def handleDIATimeout_def rejectCall_def Let_def remove_session_def
        cleanup_def set_state_def upd_sess_def command_def m_def CancelTimeout_def)
  have c: "calls m i = (sess s i)\<lparr>DIATimeout := NoTimer, State := StateClosed, ODATimeout := NoTimer, DIAController := None, DIAState := None\<rparr>"
    by (simp add: m_def inert_defs)
  have "ctl_step env t (later, EvMessage i data) = t\<lparr>clock := later\<rparr>"
    by (simp add: ctl_step_def ctl_action_def closed_ignores t c RemoveSession_attempts(2))
  then show ?thesis
    using assms(2,3) removed_not_found [of m i] by (simp add: t_def [symmetric] Let_def) (simp add: t c RemoveSession_attempts(2))
qed

definition demo_ringing :: "(int \<times> ctl_event) list" where
  "demo_ringing = [(1, call_event ''CALL_INCOMING'' ''c1'' ''sip:+1@h''), (2, EvTask 0)]"

lemma demo_ringing_eval:
  "let s = foldl (ctl_step (demo_ctl_env True)) demo_ctl demo_ringing
   in DIATimeout (sess s 0) = Armed \<and> CallID (sess s 0) = ''c1'' \<and> AttemptID (sess s 0) = ''a1''"
  unfolding Let_def by (simp add: demo_ringing_def ctl_eval cong: prod.case_cong_weak on_ok_weak)

theorem timeout_rejects_witness:
  "let s = foldl (ctl_step (demo_ctl_env True)) demo_ctl demo_ringing; t = ctl_step (demo_ctl_env True) s (9, EvDIATimer 0) in
    commands t = commands s @ [BHangup ''c1'' 603 ''Authentication Timeout''] \<and> GetByCallID ''c1'' (callMgr t) = None
    \<and> ctl_step (demo_ctl_env True) t (10, EvMessage 0 ''rreq'') = t\<lparr>clock := 10\<rparr>"
proof -
  note e = demo_ringing_eval [unfolded Let_def]
  show ?thesis
    using e timeout_rejects [of "foldl (ctl_step (demo_ctl_env True)) demo_ctl demo_ringing" 0 "demo_ctl_env True" 9 10 "''rreq''"]
    by (simp add: Let_def)
qed

section \<open>A closed session that comes back\<close>

text \<open>
  C35. Handling an incoming call runs its DIA in a goroutine that does not look at whether the call has been closed since:
  the session of a call that is over leaves the closed state, gets a new relay connection and takes
  DIA messages again, while the manager does not know it, so that stopping the controller does not end it.
\<close>

theorem closed_session_revived:
  assumes "n < length (tasks s)" and "tasks s ! n = TIncomingDIA i" and "State (sess s i) = StateClosed"
    and "\<not> cacheEnabled s" and "dia_NewCallState env (PeerPhone (sess s i)) False = Inr d" and "dia_AKEInit env d = (Inr (), d')"
    and "relay_new env \<lparr>RelayServerAddr = RelayAddr (config s), UseTLS = RelayTLS (config s), InitialTopic = [], InitialTicket = []\<rparr> d' = Inr k"
    and "i \<notin> set (GetAllSessions (iter_order env) (callMgr s))"
  shows "let t = ctl_step env s (now, EvTask n); u = ctl_step env t (later, EvStop) in
    State (sess t i) = StateDIAAKEInProgress \<and> DIAController (sess t i) = Some (relay_start env k) \<and> DIAState (sess t i) = Some d'
    \<and> GetAllSessions (iter_order env) (callMgr t) = GetAllSessions (iter_order env) (callMgr s)
    \<and> DIAController (sess u i) = Some (relay_start env k)"
proof -
  let ?f = "\<lambda>c. (SetState StateDIAAKEInProgress (c\<lparr>DIAState := Some d'\<rparr>))\<lparr>DIAController := Some (relay_start env k)\<rparr>"
  define t where "t = ctl_step env s (now, EvTask n)"
  have t: "t = s\<lparr>clock := now, tasks := remove_nth n (tasks s), callMgr := upd_call i ?f (callMgr s)\<rparr>"
    using assms(1-7) by (simp add: t_def ctl_step_def ctl_action_def runIncomingDIA_def dia_op_def on_ok_def apply_cache_def
        cacheGetPeerSession_def cacheEnabled_def incoming_ake_def connect_relay_def set_state_def upd_sess_def upd_call_def SetState_def)
  have "sess (fold cleanup is r) i = sess r i" if "i \<notin> set is" for "is" and r :: "('a, 'b, 'c) controller"
    using that by (induction "is" arbitrary: r) (auto simp: cleanup_def)
  then have "sess (ctl_step env t (later, EvStop)) i = sess t i"
    using assms(8) by (simp add: ctl_step_def ctl_action_def Stop_def t GetAllSessions_def)
  then show ?thesis by (simp add: t_def [symmetric] Let_def) (simp add: t GetAllSessions_def SetState_def)
qed

definition demo_hung_up :: "(int \<times> ctl_event) list" where
  "demo_hung_up = [(1, call_event ''CALL_INCOMING'' ''c1'' ''sip:+1@h''), (2, call_event ''CALL_CLOSED'' ''c1'' ''sip:+1@h'')]"

lemma demo_hung_up_eval:
  "let s = foldl (ctl_step (demo_ctl_env True)) demo_ctl demo_hung_up
   in tasks s = [TIncomingDIA 0] \<and> State (sess s 0) = StateClosed \<and> \<not> cacheEnabled s
     \<and> GetAllSessions (iter_order (demo_ctl_env True)) (callMgr s) = []"
  unfolding Let_def by (simp add: demo_hung_up_def ctl_eval cong: prod.case_cong_weak on_ok_weak)

theorem closed_session_revived_witness:
  "\<exists>k. (let s = foldl (ctl_step (demo_ctl_env True)) demo_ctl demo_hung_up; t = ctl_step (demo_ctl_env True) s (3, EvTask 0) in
    State (sess s 0) = StateClosed \<and> State (sess t 0) = StateDIAAKEInProgress \<and> DIAController (sess t 0) = Some k)"
proof -
  note e = demo_hung_up_eval [unfolded Let_def]
  let ?s = "foldl (ctl_step (demo_ctl_env True)) demo_ctl demo_hung_up"
  have c: "config ?s = demo_config" by (simp add: run_config) (simp add: demo_ctl_state)
  obtain k where k: "relay_new (demo_ctl_env True) \<lparr>RelayServerAddr = RelayAddr demo_config, UseTLS = RelayTLS demo_config,
      InitialTopic = [], InitialTicket = []\<rparr> () = Inr k"
    by (simp add: demo_ctl_env_def NewController_def NewRelayClient_def Let_def)
  have "dia_NewCallState (demo_ctl_env True) (PeerPhone (sess ?s 0)) False = Inr ()" "dia_AKEInit (demo_ctl_env True) () = (Inr (), ())"
    by (simp_all add: demo_ctl_env_def)
  with e k c closed_session_revived [of 0 ?s 0 "demo_ctl_env True" "()" "()" k 3 4] show ?thesis by (auto simp: Let_def)
qed

section \<open>Calls that are hung up by a repeated signal\<close>

text \<open>
  Outside baseline mode, a \<^verbatim>\<open>CALL_INCOMING\<close> that is signalled again for a call that is being
  authenticated or talked on is taken for a second call of its peer: the only thing that happens is that the call itself is hung up as busy.
\<close>

lemma repeated_incoming_hung_up:
  assumes "manager_ok (callMgr s)" and "set (iter_order env (map snd (byAttempt (callMgr s)))) = set (map snd (byAttempt (callMgr s)))"
    and "IncomingMode (config s) \<noteq> ''baseline''" and "GetByCallID (ev_id ev) (callMgr s) = Some i" and "IsIncoming (sess s i)"
    and "PeerPhone (sess s i) = ExtractPhoneFromURI (ev_peerURI ev)" and "State (sess s i) \<noteq> StateClosed"
    and "i \<in> set (map snd (byAttempt (callMgr s)))" and "pending (callMgr s) (ExtractPhoneFromURI (ev_peerURI ev)) = []"
  shows "handleIncomingCall env ev s = s\<lparr>commands := commands s @ [BHangup (CallID (sess s i)) 486 ''Busy Here'']\<rparr>"
proof -
  have id: "CallID (sess s i) = ev_id ev" "ev_id ev \<noteq> []"
    using manager_okD(3) [OF assms(1)] assms(4) by (auto simp: GetByCallID_def)
  have "active_for env (ExtractPhoneFromURI (ev_peerURI ev)) s \<noteq> None"
    using assms(2,6,7,8) by (auto simp: active_for_def GetActiveSessionByPeer_def find_None_iff GetAllSessions_def)
  moreover have "bind_outgoing ev s = (None, s)"
    using assms(9) by (simp add: bind_outgoing_def BindOutgoingCallID_def)
  moreover have "\<not> IsOutgoing (sess s i)" using assms(5) by (simp add: IsIncoming_def IsOutgoing_def)
  ultimately show ?thesis using assms(3,4) id by (simp add: handleIncomingCall_def command_def)
qed

lemma demo_one_call_eval:
  "let s = foldl (ctl_step (demo_ctl_env True)) demo_ctl demo_ringing
   in config s = demo_config \<and> GetByCallID ''c1'' (callMgr s) = Some 0 \<and> IsIncoming (sess s 0) \<and> CallID (sess s 0) = ''c1''
     \<and> PeerPhone (sess s 0) = ''+1'' \<and> State (sess s 0) \<noteq> StateClosed \<and> map snd (byAttempt (callMgr s)) = [0]
     \<and> pending (callMgr s) ''+1'' = []"
  unfolding Let_def by (simp add: demo_ringing_def ctl_eval cong: prod.case_cong_weak on_ok_weak)

lemma repeated_incoming_hung_up_example:
  "let s = foldl (ctl_step (demo_ctl_env True)) demo_ctl demo_ringing;
       ev = \<lparr>ev_type = ''CALL_INCOMING'', ev_class = ''call'', ev_accountAOR = [], ev_direction = [], ev_peerURI = ''sip:+1@h'',
             ev_peerName = [], ev_id = ''c1'', ev_param = []\<rparr>
   in handleIncomingCall (demo_ctl_env True) ev s = s\<lparr>commands := commands s @ [BHangup ''c1'' 486 ''Busy Here'']\<rparr>"
proof -
  note e = demo_one_call_eval [unfolded Let_def]
  let ?s = "foldl (ctl_step (demo_ctl_env True)) demo_ctl demo_ringing"
  let ?ev = "\<lparr>ev_type = ''CALL_INCOMING'', ev_class = ''call'', ev_accountAOR = [], ev_direction = [], ev_peerURI = ''sip:+1@h'',
             ev_peerName = [], ev_id = ''c1'', ev_param = []\<rparr>"
  have ok: "manager_ok (callMgr ?s)"
    using ctl_manager.ctl_run_inv [of demo_config demo_ctl "demo_ctl_env True" demo_ringing]
    by (simp add: ctl_ok_def) (simp add: demo_ctl_def NewSipController_def Let_def)
  have p: "ExtractPhoneFromURI (ev_peerURI ?ev) = ''+1''" "IncomingMode demo_config \<noteq> ''baseline''" by (simp_all add: ctl_eval)
  have o: "set (iter_order (demo_ctl_env True) xs) = set xs" for xs by (simp add: demo_ctl_env_def)
  show ?thesis using repeated_incoming_hung_up [OF ok o, of ?ev 0] e p by (simp add: Let_def)
qed

section \<open>An attempt that a foreign call closes\<close>

text \<open>
  The end of a call whose call-id is not known, because the call was rejected as busy or never got a session, is taken for
  the end of the oldest pending attempt to the same peer: that attempt gets the foreign call-id, a
  closed result and is removed, although its own call is still being dialled.
\<close>

lemma closed_event_takes_pending_attempt:
  assumes "manager_ok (callMgr s)" and "GetByCallID (ev_id ev) (callMgr s) = None"
    and "pending (callMgr s) (ExtractPhoneFromURI (ev_peerURI ev)) = i # queue" and "AttemptID (sess s i) \<noteq> []"
    and "DIAController (sess s i) = None"
  shows "let t = handleCallClosed env ev s in
    State (sess t i) = StateClosed \<and> CallID (sess t i) = ev_id ev
    \<and> GetByAttemptID (AttemptID (sess s i)) (callMgr t) = None \<and> pending (callMgr t) (ExtractPhoneFromURI (ev_peerURI ev)) = queue
    \<and> (\<exists>r. result_log t = result_log s @ [r] \<and> cr_Outcome r = ''closed'' \<and> cr_AttemptID r = AttemptID (sess s i) \<and> cr_CallID r = ev_id ev)"
proof -
  let ?p = "ExtractPhoneFromURI (ev_peerURI ev)"
  have peer: "PeerPhone (sess s i) = ?p" and q: "i \<notin> set queue"
    using manager_okD(4) [OF assms(1), of ?p] manager_okD(5) [OF assms(1), of i ?p] assms(3) by auto
  define m where "m = snd (BindOutgoingCallID ?p (ev_id ev) (ev_peerURI ev) (ev_accountAOR ev) (callMgr s))"
  have bind: "find_or_bind ev s = (Some i, s\<lparr>callMgr := m\<rparr>)"
    using assms(2,3) by (simp add: find_or_bind_def bind_outgoing_def m_def BindOutgoingCallID_def Let_def split: prod.split)
  have c: "calls m i = (sess s i)\<lparr>CallID := ev_id ev, PeerURI := ev_peerURI ev, AccountAOR := ev_accountAOR ev\<rparr>"
    and pend: "pending m ?p = queue"
    using assms(3) by (simp_all add: m_def BindOutgoingCallID_def Let_def)
  define m2 where "m2 = upd_call i Cleanup (upd_call i (SetState StateClosed) m)"
  have c2: "State (calls m2 i) = StateClosed" "CallID (calls m2 i) = ev_id ev" "AttemptID (calls m2 i) = AttemptID (sess s i)"
    "PeerPhone (calls m2 i) = ?p" "pending m2 ?p = queue"
    by (simp_all add: m2_def inert_defs c peer pend)
  define t where "t = handleCallClosed env ev s"
  have mgr: "callMgr t = RemoveSession i m2"
    using assms(5) by (simp add: t_def handleCallClosed_def bind Let_def send_bye_def c m2_def cleanup_def set_state_def)
  have "\<exists>r. result_log t = result_log s @ [r] \<and> cr_Outcome r = ''closed'' \<and> cr_AttemptID r = AttemptID (sess s i) \<and> cr_CallID r = ev_id ev"
    using assms(5) by (auto simp: t_def handleCallClosed_def bind Let_def send_bye_def c cleanup_def set_state_def base_result_def
        upd_sess_def remove_session_def emitResult_def with_times_def SetState_def split: option.split)
  moreover have "pending (RemoveSession i m2) ?p = queue"
    using c2 q by (auto simp: RemoveSession_def Let_def pending_def removeAll_id split: option.splits)
  ultimately show ?thesis
    using c2 assms(4) removed_not_found(1) [of m2 i] by (simp add: t_def [symmetric] Let_def mgr RemoveSession_attempts(2))
qed

lemma demo_dialling_eval:
  "let s = foldl (ctl_step (demo_ctl_env True)) demo_ctl [(1, EvCall ''+1'' False)]
   in GetByCallID ''zz'' (callMgr s) = None \<and> pending (callMgr s) ''+1'' = [0] \<and> AttemptID (sess s 0) = ''a1''
     \<and> DIAController (sess s 0) = None"
  unfolding Let_def by (simp add: ctl_eval cong: prod.case_cong_weak on_ok_weak)

lemma closed_event_takes_pending_attempt_example:
  "let s = foldl (ctl_step (demo_ctl_env True)) demo_ctl [(1, EvCall ''+1'' False)];
       t = handleCallClosed (demo_ctl_env True) \<lparr>ev_type = ''CALL_CLOSED'', ev_class = ''call'', ev_accountAOR = [],
             ev_direction = [], ev_peerURI = ''sip:+1@h'', ev_peerName = [], ev_id = ''zz'', ev_param = []\<rparr> s
   in State (sess t 0) = StateClosed \<and> CallID (sess t 0) = ''zz'' \<and> GetByAttemptID ''a1'' (callMgr t) = None"
proof -
  note e = demo_dialling_eval [unfolded Let_def]
  let ?s = "foldl (ctl_step (demo_ctl_env True)) demo_ctl [(1, EvCall ''+1'' False)]"
  let ?ev = "\<lparr>ev_type = ''CALL_CLOSED'', ev_class = ''call'', ev_accountAOR = [],
             ev_direction = [], ev_peerURI = ''sip:+1@h'', ev_peerName = [], ev_id = ''zz'', ev_param = []\<rparr>"
  have ok: "manager_ok (callMgr ?s)"
    using ctl_manager.ctl_run_inv [of demo_config demo_ctl "demo_ctl_env True" "[(1, EvCall ''+1'' False)]"]
    by (simp add: ctl_ok_def) (simp add: demo_ctl_def NewSipController_def Let_def)
  have p: "ExtractPhoneFromURI (ev_peerURI ?ev) = ''+1''" by (simp add: ctl_eval)
  show ?thesis using closed_event_takes_pending_attempt [OF ok, of ?ev 0 "[]" "demo_ctl_env True"] e p by (simp add: Let_def)
qed

section \<open>Further deviations\<close>

text \<open>
  The guard against a second RUA request looks only for the state that an established call has already left: a repeated request that
  the library refuses hangs up the established call.
\<close>

lemma repeated_rua_request_rejects:
  assumes "State (sess s i) = StateBaresipEstablished" and "DIAComplete (sess s i)" and "DIAState (sess s i) = Some d"
    and "dia_RUAResponse env data d = (Inl e, d')" and "CallID (sess s i) \<noteq> []"
  shows "commands (recipient_rua_request env i data s) = commands s @ [BHangup (CallID (sess s i)) 500 ''RUA Failed'']"
  using assms by (simp add: recipient_rua_request_def dia_op_def on_ok_def reject_on_def rejectCall_def Let_def command_def
      remove_session_def cleanup_def set_state_def upd_sess_def CancelTimeout_def)

text \<open>The record of a dial that failed has the zero time of Go as the time of its dial.\<close>

lemma failed_dial_time:
  "\<exists>r log. result_log (snd (dial_finish i sentAt (Inl err) s)) = log @ [r] \<and> cr_Outcome r = ''error''
     \<and> cr_DialSentAtUnixMs r = -62135596800000"
  by (auto simp: dial_finish_def dial_failed_def Let_def zero_time_ms_def remove_session_def cleanup_def upd_sess_def emitResult_def)

text \<open>An answer to an ODA request counts as done whatever the verification found.\<close>

lemma oda_done_unverified:
  assumes "DIAState (sess s i) = Some d" and "dia_ODAVerify env data d = (Inr False, d')"
    and "ODARequestedAt (sess s i) \<noteq> None" and "ODACompletedAt (sess s i) = None"
  shows "ODATerminalOutcome (sess (handleODAResponse env i data s) i) = ''oda_done''"
proof -
  have "ODATerminalOutcome (sess (maybeEmitODATerminalResult i t) i) = ODATerminalOutcome (sess t i)" for t :: "('a, 'b, 'c) controller"
    using emit_result_state(2) [of i t] by auto
  moreover have "ODATerminalOutcome (sess (hangup_after_oda env i t) i) = ODATerminalOutcome (sess t i)" for t :: "('a, 'b, 'c) controller"
    by (simp add: hangup_after_oda_def)
  ultimately show ?thesis using assms
    by (simp add: handleODAResponse_def dia_op_def on_ok_def Let_def CancelODATimeout_def)
qed

end
