(* ===== verification/SipTypes.thy ===== *)
theory SipTypes
  imports SipResults
begin

text \<open>
  The types that the SIP controller's strings stand for: in every run a result's outcome is one of five, a session's direction one of
  two, and the channel of results holds at most its capacity of results that were emitted.
\<close>

definition outcomes :: "string set" where
  "outcomes = {''answered'', ''closed'', ''error'', ''oda_done'', ''oda_timeout''}"

definition typed :: "('d, 'k, 'r) controller \<Rightarrow> bool" where
  "typed s \<longleftrightarrow> (\<forall>r \<in> set (result_log s). cr_Outcome r \<in> outcomes)
     \<and> (\<forall>i. ODATerminalOutcome (sess s i) \<in> insert [] oda_outcomes)
     \<and> (\<forall>i < next_call (callMgr s). Direction (sess s i) \<in> {''outgoing'', ''incoming''})
     \<and> chan_ok (results s) \<and> ch_cap (results s) = 1000 \<and> set (ch_buf (results s)) \<subseteq> set (result_log s)"

lemma typed_upd:
  assumes "typed s" and "Direction (f (sess s i)) = Direction (sess s i)"
    and "ODATerminalOutcome (f (sess s i)) \<in> insert (ODATerminalOutcome (sess s i)) oda_outcomes"
  shows "typed (upd_sess i f s)"
proof -
  have "ODATerminalOutcome (sess s i) \<in> insert [] oda_outcomes" using assms(1) by (simp add: typed_def)
  then have "ODATerminalOutcome (f (sess s i)) \<in> insert [] oda_outcomes" using assms(3) by auto
  then show ?thesis using assms(1,2) by (simp add: typed_def upd_sess_def upd_call_def)
qed

lemma typed_inert: "typed s \<Longrightarrow> (\<And>c. inert c (f c)) \<Longrightarrow> typed (upd_sess i f s)"
  by (rule typed_upd) (auto simp: inert_def same_identity_def oda_outcomes_def)

lemma typed_emit: "typed s \<Longrightarrow> cr_Outcome r \<in> outcomes \<Longrightarrow> typed (emitResult r s)"
  by (auto simp: typed_def emitResult_def chan_defs)

lemma typed_remove: "typed s \<Longrightarrow> typed (remove_session i s)"
  by (simp add: typed_def remove_session_def)

lemma typed_answered: "typed s \<Longrightarrow> typed (maybeEmitAnsweredResult i s)"
  by (auto simp: maybeEmitAnsweredResult_def Let_def outcomes_def split: option.split intro!: typed_upd typed_emit)

lemma typed_oda:
  assumes "typed s"
  shows "typed (maybeEmitODATerminalResult i s)"
proof -
  have out: "cr_Outcome (with_times c r) = cr_Outcome r" for c :: "('a, 'b) call_session" and r
    by (auto simp: with_times_def Let_def split: option.split)
  have "ODATerminalOutcome (sess s i) \<in> insert [] oda_outcomes" using assms by (simp add: typed_def)
  then have "ODATerminalOutcome (sess s i) \<noteq> [] \<Longrightarrow> ODATerminalOutcome (sess s i) \<in> outcomes"
    by (auto simp: oda_outcomes_def outcomes_def)
  then show ?thesis using assms
    by (auto simp: maybeEmitODATerminalResult_def Let_def out split: option.split intro!: typed_emit typed_upd)
qed

lemma typed_bind: "typed s \<Longrightarrow> typed (snd (bind_outgoing ev s))"
  by (auto simp: typed_def bind_outgoing_def BindOutgoingCallID_def Let_def upd_call_def set_pending_def set_callid_def
      split: prod.split list.split)

lemma typed_incoming: "typed s \<Longrightarrow> typed (snd (new_incoming ev s))"
  by (auto simp: typed_def new_incoming_def NewIncomingSession_def new_call_def Let_def set_callid_def NewCallSession_def
      less_Suc_eq split: prod.split)

lemma typed_outgoing: "typed s \<Longrightarrow> typed (snd (new_outgoing p e s))"
  by (auto simp: typed_def new_outgoing_def NewOutgoingAttempt_def new_call_def Let_def set_pending_def NewCallSession_def
      less_Suc_eq split: prod.split)

lemma typed_close: "typed s \<Longrightarrow> typed (remove_session i (cleanup i (set_state i StateClosed s)))"
  unfolding cleanup_def set_state_def by (intro typed_remove typed_inert) (simp_all add: inert_defs)

interpretation types: step_invariant typed env for env
proof unfold_locales
  show "typed s \<Longrightarrow> cr_Outcome r \<in> {''closed'', ''error''} \<Longrightarrow> typed (emitResult r s)"
    for s :: "('a, 'b, 'c) controller" and r
    by (rule typed_emit) (auto simp: outcomes_def)
  show "typed s \<Longrightarrow> new_outgoing p e s = (i, s1) \<Longrightarrow> cr_Outcome r = ''error'' \<Longrightarrow>
      typed (remove_session i (cleanup i (set_state i StateClosed (emitResult r s1))))"
    for s s1 :: "('a, 'b, 'c) controller" and p e i r
    using typed_outgoing [of s p e] by (intro typed_close typed_emit) (auto simp: outcomes_def)
  show "typed s \<Longrightarrow> typed (snd (command env cmd s))" for s :: "('a, 'b, 'c) controller" and env cmd
    by (simp add: typed_def command_def)
  show "typed s \<Longrightarrow> typed (answerCall env i s)" for s :: "('a, 'b, 'c) controller" and env i
    by (simp add: typed_def command_def answerCall_def)
qed (simp_all add: typed_inert live_change_def typed_remove typed_close typed_oda typed_answered typed_bind typed_incoming
    typed_outgoing, simp_all add: typed_def spawn_def)

text \<open>
  C24. In every run of a new controller each result that it emits is answered, closed, an error, a finished ODA or an ODA timeout, each session is an
  outgoing or an incoming one, and the results that wait in the channel were emitted and are at most 1000.
\<close>

theorem run_typed:
  "let s = foldl (ctl_step env) (fst (NewSipController connect cfg)) tes in
     cr_Outcome ` set (result_log s) \<subseteq> {''answered'', ''closed'', ''error'', ''oda_done'', ''oda_timeout''}
     \<and> (\<lambda>i. Direction (sess s i)) ` {..<next_call (callMgr s)} \<subseteq> {''outgoing'', ''incoming''}
     \<and> set (ch_buf (results s)) \<subseteq> set (result_log s) \<and> length (ch_buf (results s)) \<le> 1000"
proof -
  have "typed (fst (NewSipController connect cfg))"
    by (simp add: typed_def NewSipController_def Let_def NewCallManager_def NewCallSession_def chan_defs)
  then have "typed (foldl (ctl_step env) (fst (NewSipController connect cfg)) tes)" by (rule types.ctl_run_inv)
  then show ?thesis by (auto simp: typed_def outcomes_def chan_defs Let_def)
qed

end
