(* ===== verification/CallAuth.thy ===== *)
theory CallAuth
  imports DiaLibrary SipConfig PeerCache
begin

text \<open>
  \<^verbatim>\<open>cmd/client/callauth/main.go\<close>: the command-line client that authenticates one call, from its flags to its exit.
  \<^verbatim>\<open>main\<close> up to \<^verbatim>\<open>controller.Start\<close> is \<open>auth_setup\<close>, the rest of it \<open>auth_begin\<close> and \<open>auth_close\<close>; the stream's goroutine
  (\<open>handleMessage\<close>), the ODA goroutine and the signal handler run in between, as steps in any order. \<open>outbox\<close> is the trace of
  what the program gives to the relay connection, \<open>oda_requests\<close> that of its calls of \<^verbatim>\<open>ODARequest\<close>. A \<^verbatim>\<open>log.Fatal\<close> ends the
  process with a message. Logging and printing are left out.
\<close>

section \<open>Flags\<close>

record app_config =
  ac_RelayServerAddr :: string
  ac_UseTLS :: bool
  ODADelaySec :: int
  ODAAttrs :: "string list"
  Bye :: bool
  ac_CacheEnabled :: bool
  ac_SelfPhone :: string
  ac_RedisAddr :: string
  ac_RedisUser :: string
  ac_RedisPass :: string
  ac_RedisDB :: int
  ac_RedisPrefix :: string
  ac_PeerTTL :: int

text \<open>The values that \<^verbatim>\<open>flag.Parse\<close> leaves, and the defaults it starts from.\<close>

record flag_values =
  fl_dial :: string
  fl_receive :: string
  fl_env :: string
  fl_relay :: string
  fl_tls :: bool
  fl_oda :: int
  fl_oda_attrs :: string
  fl_bye :: bool
  fl_cache :: bool
  fl_self :: string
  fl_redis :: string
  fl_redis_user :: string
  fl_redis_pass :: string
  fl_redis_db :: int
  fl_redis_prefix :: string
  fl_peer_session_ttl :: int

definition callauth_defaults :: flag_values where
  "callauth_defaults = \<lparr>fl_dial = [], fl_receive = [], fl_env = [], fl_relay = ''localhost:50052'', fl_tls = False,
     fl_oda = -1, fl_oda_attrs = ''name,issuer'', fl_bye = False, fl_cache = False, fl_self = [],
     fl_redis = ''localhost:6379'', fl_redis_user = [], fl_redis_pass = [], fl_redis_db = 0,
     fl_redis_prefix = ''denseid:dia:peer_session:v1'', fl_peer_session_ttl = 0\<rparr>"

definition parseCommaList :: "string \<Rightarrow> string list" where
  "parseCommaList s =
     (if TrimSpace s = [] then [] else filter (\<lambda>p. p \<noteq> []) (map TrimSpace (split_on CHR '','' s)))"

text \<open>The result: the env file, the phone number, whether the call is outgoing, and the configuration.\<close>

definition parseFlags :: "flag_values \<Rightarrow> (string \<times> string \<times> bool \<times> app_config) result" where
  "parseFlags f =
     (if fl_dial f = [] \<and> fl_receive f = [] then Inl ''--dial or --receive option is required''
      else if fl_dial f \<noteq> [] \<and> fl_receive f \<noteq> [] then Inl ''You cannot specify both --dial and --receive''
      else if fl_env f = [] then Inl ''--env is required for subscriber authentication''
      else (let outgoing = (fl_dial f \<noteq> []); phone = (if outgoing then fl_dial f else fl_receive f);
                cfg = \<lparr>ac_RelayServerAddr = fl_relay f, ac_UseTLS = fl_tls f, ODADelaySec = fl_oda f,
                  ODAAttrs = parseCommaList (fl_oda_attrs f), Bye = fl_bye f, ac_CacheEnabled = fl_cache f,
                  ac_SelfPhone = TrimSpace (fl_self f), ac_RedisAddr = TrimSpace (fl_redis f),
                  ac_RedisUser = TrimSpace (fl_redis_user f), ac_RedisPass = fl_redis_pass f, ac_RedisDB = fl_redis_db f,
                  ac_RedisPrefix = TrimSpace (fl_redis_prefix f),
                  ac_PeerTTL = (if fl_peer_session_ttl f > 0 then int64 (fl_peer_session_ttl f * 1000000000) else 0)\<rparr>
            in if ac_CacheEnabled cfg \<and> ac_SelfPhone cfg = [] then Inl ''--self is required when --cache is enabled''
               else Inr (fl_env f, phone, outgoing, cfg)))"

definition loadDIAConfig :: "bytes result \<Rightarrow> (bytes \<Rightarrow> 'c result) \<Rightarrow> 'c result" where
  "loadDIAConfig file configFromEnv =
     (case file of Inl e \<Rightarrow> Inl (''reading env file: '' @ e) | Inr content \<Rightarrow> configFromEnv content)"

section \<open>State\<close>

datatype outgoing_msg = OSend bytes | OSendTo string bytes bytes | OSubscribe string bytes bytes | OImmediate bytes

datatype main_pc = Beginning | Listening | Finished | Died error

record ('d, 'k, 'r) auth =
  au_config :: app_config
  au_phone :: string
  au_outgoing :: bool
  au_dia :: 'd
  au_relay :: 'k
  au_cache :: "'r cache option"
  cachedRUARequest :: bytes
  odaTriggered :: bool
  odaHandled :: bool
  ruaComplete :: bool
  byeSent :: bool
  cacheHit :: bool
  oda_waiting :: nat
  interrupted :: bool
  au_main :: main_pc
  outbox :: "outgoing_msg list"
  oda_requests :: "string list list"

record ('d, 'k) auth_env = "('d, 'k) dia_env" +
  dia_MessageTopic :: "bytes \<Rightarrow> string result"
  dia_IsRecipient :: "'d \<Rightarrow> bool"
  dia_IsCaller :: "'d \<Rightarrow> bool"
  relay_immediate :: "bytes \<Rightarrow> 'k \<Rightarrow> unit result \<times> 'k"
  relay_close :: "'k \<Rightarrow> 'k"

definition au_op :: "('d \<Rightarrow> 'a result \<times> 'd) \<Rightarrow> ('d, 'k, 'r) auth \<Rightarrow> 'a result \<times> ('d, 'k, 'r) auth" where
  "au_op f s = (case f (au_dia s) of (r, d) \<Rightarrow> (r, s\<lparr>au_dia := d\<rparr>))"

definition au_get :: "('d \<Rightarrow> 'a result) \<Rightarrow> ('d, 'k, 'r) auth \<Rightarrow> 'a result \<times> ('d, 'k, 'r) auth" where
  "au_get f s = (f (au_dia s), s)"

text \<open>A call of the relay connection, with its entry in the trace.\<close>

definition au_relay_op ::
  "outgoing_msg \<Rightarrow> ('k \<Rightarrow> unit result \<times> 'k) \<Rightarrow> ('d, 'k, 'r) auth \<Rightarrow> unit result \<times> ('d, 'k, 'r) auth" where
  "au_relay_op m f s = (case f (au_relay s) of (r, k) \<Rightarrow> (r, s\<lparr>au_relay := k, outbox := outbox s @ [m]\<rparr>))"

definition au_send :: "('d, 'k) auth_env \<Rightarrow> bytes \<Rightarrow> ('d, 'k, 'r) auth \<Rightarrow> unit result \<times> ('d, 'k, 'r) auth" where
  "au_send env m = au_relay_op (OSend m) (relay_send env m)"

definition die :: "string \<Rightarrow> error \<Rightarrow> ('d, 'k, 'r) auth \<Rightarrow> ('d, 'k, 'r) auth" where
  "die msg e s = s\<lparr>au_main := Died (msg @ e)\<rparr>"

section \<open>Setting up\<close>

definition auth_cache_options :: "app_config \<Rightarrow> cache_options" where
  "auth_cache_options cfg = \<lparr>co_Enabled = True, co_Addr = ac_RedisAddr cfg, co_Username = ac_RedisUser cfg,
     co_Password = ac_RedisPass cfg, co_DB = ac_RedisDB cfg, co_Prefix = ac_RedisPrefix cfg, co_TTL = ac_PeerTTL cfg\<rparr>"

text \<open>The lookup; an error or a blob that the library refuses counts as a miss.\<close>

definition auth_lookup ::
  "('d, 'k) auth_env \<Rightarrow> app_config \<Rightarrow> string \<Rightarrow> 'r cache option \<Rightarrow> 'd \<Rightarrow> bool \<times> 'r cache option \<times> 'd" where
  "auth_lookup env cfg phone cache d =
     (case cache of None \<Rightarrow> (False, cache, d)
      | Some _ \<Rightarrow> (case CacheGet cache (ac_SelfPhone cfg) phone of
            (Inl e, c) \<Rightarrow> (False, c, d)
          | (Inr None, c) \<Rightarrow> (False, c, d)
          | (Inr (Some blob), c) \<Rightarrow> (case dia_ApplyPeerSession env blob d of
                (Inl e, d1) \<Rightarrow> (False, c, d1)
              | (Inr _, d1) \<Rightarrow> (True, c, d1))))"

text \<open>On a hit: the topic, the request (for the caller) and the ticket of RUA.\<close>

definition auth_hit ::
  "('d, 'k) auth_env \<Rightarrow> bool \<Rightarrow> 'd \<Rightarrow> (string \<times> bytes \<times> bytes \<times> 'd) result" where
  "auth_hit env outgoing d =
     (case dia_RUADeriveTopic env d of
        (Inl e, _) \<Rightarrow> Inl (''[Cache] RUA topic derivation failed: '' @ e)
      | (Inr ruaTopic, d) \<Rightarrow>
     (case (if outgoing then dia_RUARequest env d else (Inr [], d)) of
        (Inl e, _) \<Rightarrow> Inl (''[Cache] Failed to create RUA request: '' @ e)
      | (Inr request, d) \<Rightarrow>
     (case dia_TransitionToRUA env d of
        (Inl e, _) \<Rightarrow> Inl (''[Cache] Transition to RUA failed: '' @ e)
      | (Inr _, d) \<Rightarrow>
     (case dia_Ticket env d of
        Inl e \<Rightarrow> Inl (''[Cache] Ticket derivation failed: '' @ e)
      | Inr ticket \<Rightarrow> Inr (ruaTopic, ticket, request, d)))))"

definition auth_connect ::
  "('d, 'k) auth_env \<Rightarrow> app_config \<Rightarrow> string \<Rightarrow> bool \<Rightarrow> bool \<Rightarrow> 'r cache option \<Rightarrow> string \<Rightarrow> bytes \<Rightarrow> bytes \<Rightarrow> 'd
    \<Rightarrow> ('d, 'k, 'r) auth result" where
  "auth_connect env cfg phone outgoing hit cache topic ticket request d =
     (case relay_new env \<lparr>RelayServerAddr = ac_RelayServerAddr cfg, UseTLS = ac_UseTLS cfg,
             InitialTopic = topic, InitialTicket = ticket\<rparr> d of
        Inl e \<Rightarrow> Inl (''Failed to create controller: '' @ e)
      | Inr k \<Rightarrow> Inr \<lparr>au_config = cfg, au_phone = phone, au_outgoing = outgoing, au_dia = d, au_relay = relay_start env k,
          au_cache = cache, cachedRUARequest = request, odaTriggered = False, odaHandled = False, ruaComplete = False,
          byeSent = False, cacheHit = hit, oda_waiting = 0, interrupted = False, au_main = Beginning, outbox = [],
          oda_requests = []\<rparr>)"

definition auth_setup ::
  "('d, 'k) auth_env \<Rightarrow> (string \<Rightarrow> string \<Rightarrow> string \<Rightarrow> int \<Rightarrow> 'r redis) \<Rightarrow> string \<Rightarrow> bool \<Rightarrow> app_config \<Rightarrow> ('d, 'k, 'r) auth result" where
  "auth_setup env connect phone outgoing cfg =
     (case dia_NewCallState env phone outgoing of
        Inl e \<Rightarrow> Inl (''Failed to create call state: '' @ e)
      | Inr d \<Rightarrow>
     (case dia_AKEInit env d of
        (Inl e, _) \<Rightarrow> Inl (''Failed to init AKE: '' @ e)
      | (Inr _, d) \<Rightarrow>
     (case (if ac_CacheEnabled cfg then NewCache connect (auth_cache_options cfg) else Inr None) of
        Inl e \<Rightarrow> Inl (''[Cache] init failed: '' @ e)
      | Inr cache \<Rightarrow>
     (case auth_lookup env cfg phone cache d of
        (False, cache, d) \<Rightarrow> auth_connect env cfg phone outgoing False cache [] [] [] d
      | (True, cache, d) \<Rightarrow>
         (case auth_hit env outgoing d of
            Inl e \<Rightarrow> Inl e
          | Inr (topic, ticket, request, d) \<Rightarrow>
              auth_connect env cfg phone outgoing True cache topic ticket request d)))))"

text \<open>\<^verbatim>\<open>main\<close> from the flags to \<^verbatim>\<open>controller.Start\<close>; \<open>file\<close> reads the env file, \<open>library\<close> is the library with a configuration.\<close>

definition callauth_main ::
  "('c \<Rightarrow> ('d, 'k) auth_env) \<Rightarrow> (bytes \<Rightarrow> 'c result) \<Rightarrow> (string \<Rightarrow> bytes result)
    \<Rightarrow> (string \<Rightarrow> string \<Rightarrow> string \<Rightarrow> int \<Rightarrow> 'r redis) \<Rightarrow> flag_values \<Rightarrow> ('d, 'k, 'r) auth result" where
  "callauth_main library configFromEnv file connect flags =
     (case parseFlags flags of
        Inl e \<Rightarrow> Inl e
      | Inr (envFile, phone, outgoing, cfg) \<Rightarrow>
         (case loadDIAConfig (file envFile) configFromEnv of
            Inl e \<Rightarrow> Inl (''Failed to load DIA config: '' @ e)
          | Inr diaCfg \<Rightarrow> auth_setup (library diaCfg) connect phone outgoing cfg))"

text \<open>\<^verbatim>\<open>main\<close> after \<^verbatim>\<open>controller.Start\<close>, until it waits for the end of its context.\<close>

definition auth_begin :: "('d, 'k) auth_env \<Rightarrow> ('d, 'k, 'r) auth \<Rightarrow> ('d, 'k, 'r) auth" where
  "auth_begin env s0 =
     (let s = s0\<lparr>au_main := Listening\<rparr> in
      if cacheHit s then
        (if au_outgoing s
         then on_ok (au_send env (cachedRUARequest s) s) (die ''[Cache] Failed to send RUA request: '') (\<lambda>_ s. s)
         else on_ok (au_op (dia_RUAInit env) s) (die ''[Cache] Failed to init RUA: '') (\<lambda>_ s. s))
      else if au_outgoing s then
        on_ok (au_op (dia_AKERequest env) s) (die ''Failed to create AKE request: '') (\<lambda>request s.
        on_ok (au_send env request s) (die ''Failed to send AKE request: '') (\<lambda>_ s. s))
      else s)"

definition auth_close :: "('d, 'k) auth_env \<Rightarrow> ('d, 'k, 'r) auth \<Rightarrow> ('d, 'k, 'r) auth" where
  "auth_close env s = s\<lparr>au_relay := relay_close env (au_relay s), au_main := Finished\<rparr>"

section \<open>The end of a session\<close>

definition stop_main :: "('d, 'k, 'r) auth \<Rightarrow> ('d, 'k, 'r) auth" where
  "stop_main s = s\<lparr>interrupted := True\<rparr>"

definition sendByeThenStop :: "('d, 'k) auth_env \<Rightarrow> ('d, 'k, 'r) auth \<Rightarrow> ('d, 'k, 'r) auth" where
  "sendByeThenStop env s =
     (if byeSent s then stop_main s
      else on_ok (au_op (dia_CreateByeMessage env) (s\<lparr>byeSent := True\<rparr>)) (\<lambda>_. stop_main) (\<lambda>bye s.
           on_ok (au_relay_op (OImmediate bye) (relay_immediate env bye) s) (\<lambda>_. stop_main) (\<lambda>_ s. stop_main s)))"

definition maybeScheduleODA :: "('d, 'k, 'r) auth \<Rightarrow> ('d, 'k, 'r) auth" where
  "maybeScheduleODA s =
     (if ODADelaySec (au_config s) < 0 \<or> length (ODAAttrs (au_config s)) = 0 then s
      else if odaTriggered s then s
      else s\<lparr>odaTriggered := True, oda_waiting := Suc (oda_waiting s)\<rparr>)"

text \<open>The goroutine that it starts, once the delay is over.\<close>

definition auth_oda :: "('d, 'k) auth_env \<Rightarrow> ('d, 'k, 'r) auth \<Rightarrow> ('d, 'k, 'r) auth" where
  "auth_oda env s =
     (if oda_waiting s = 0 then s
      else on_ok (au_op (dia_ODARequest env (ODAAttrs (au_config s)))
             (s\<lparr>oda_waiting := oda_waiting s - 1, oda_requests := oda_requests s @ [ODAAttrs (au_config s)]\<rparr>)) give_up (\<lambda>request s.
           on_ok (au_send env request s) give_up (\<lambda>_ s. s)))"

text \<open>What caller and recipient do once RUA is complete: ODA, the flag, the peer session for the cache.\<close>

definition auth_store :: "('d, 'k) auth_env \<Rightarrow> ('d, 'k, 'r) auth \<Rightarrow> ('d, 'k, 'r) auth" where
  "auth_store env s =
     (if au_cache s \<noteq> None \<and> ac_SelfPhone (au_config s) \<noteq> []
      then on_ok (au_get (dia_ExportPeerSession env) s) give_up (\<lambda>blob s.
             s\<lparr>au_cache := snd (CacheSet (au_cache s) (ac_SelfPhone (au_config s)) (au_phone s) blob)\<rparr>)
      else s)"

definition rua_done :: "('d, 'k) auth_env \<Rightarrow> ('d, 'k, 'r) auth \<Rightarrow> ('d, 'k, 'r) auth" where
  "rua_done env s = auth_store env ((maybeScheduleODA s)\<lparr>ruaComplete := True\<rparr>)"

section \<open>Messages\<close>

definition handleRecipientMessage :: "('d, 'k) auth_env \<Rightarrow> dia_type \<Rightarrow> bytes \<Rightarrow> ('d, 'k, 'r) auth \<Rightarrow> ('d, 'k, 'r) auth" where
  "handleRecipientMessage env ty rawData s = (case ty of
      MsgAKERequest \<Rightarrow>
        on_ok (au_op (dia_AKEResponse env rawData) s) give_up (\<lambda>response s.
        on_ok (au_send env response s) give_up (\<lambda>_ s. s))
    | MsgAKEComplete \<Rightarrow>
        on_ok (au_op (dia_AKEFinalize env rawData) s) give_up (\<lambda>_ s.
        on_ok (au_op (dia_RUADeriveTopic env) s) give_up (\<lambda>ruaTopic s.
        on_ok (au_op (dia_TransitionToRUA env) s) give_up (\<lambda>_ s.
        on_ok (au_get (dia_Ticket env) s) give_up (\<lambda>ticket s.
        on_ok (au_relay_op (OSubscribe ruaTopic [] ticket) (relay_subscribe env ruaTopic [] ticket) s) give_up (\<lambda>_ s.
        on_ok (au_op (dia_RUAInit env) s) give_up (\<lambda>_ s. s))))))
    | MsgRUARequest \<Rightarrow>
        if ruaComplete s then s
        else
        on_ok (au_op (dia_RUAResponse env rawData) s) give_up (\<lambda>response s.
        on_ok (au_send env response s) give_up (\<lambda>_ s.
          let s1 = rua_done env s in
          if Bye (au_config s1) \<and> ODADelaySec (au_config s1) < 0 then sendByeThenStop env s1 else s1))
    | _ \<Rightarrow> s)"

definition handleCallerMessage :: "('d, 'k) auth_env \<Rightarrow> dia_type \<Rightarrow> bytes \<Rightarrow> ('d, 'k, 'r) auth \<Rightarrow> ('d, 'k, 'r) auth" where
  "handleCallerMessage env ty rawData s = (case ty of
      MsgAKEResponse \<Rightarrow>
        (let oldTopic = val (dia_CurrentTopic env (au_dia s)) in
        on_ok (au_op (dia_AKEComplete env rawData) s) give_up (\<lambda>complete s.
        on_ok (au_relay_op (OSendTo oldTopic complete []) (relay_send_to env oldTopic complete []) s) give_up (\<lambda>_ s.
        on_ok (au_op (dia_RUADeriveTopic env) s) give_up (\<lambda>ruaTopic s.
        on_ok (au_op (dia_RUARequest env) s) give_up (\<lambda>ruaRequest s.
        (let ticket = val (dia_Ticket env (au_dia s)) in
        on_ok (au_op (dia_TransitionToRUA env) s) give_up (\<lambda>_ s.
        on_ok (au_relay_op (OSubscribe ruaTopic ruaRequest ticket) (relay_subscribe env ruaTopic ruaRequest ticket) s)
          give_up (\<lambda>_ s. s))))))))
    | MsgRUAResponse \<Rightarrow>
        on_ok (au_op (dia_RUAFinalize env rawData) s) give_up (\<lambda>_ s. rua_done env s)
    | _ \<Rightarrow> s)"

definition auth_oda_request :: "('d, 'k) auth_env \<Rightarrow> bytes \<Rightarrow> ('d, 'k, 'r) auth \<Rightarrow> ('d, 'k, 'r) auth" where
  "auth_oda_request env data s =
     on_ok (au_op (dia_ODAResponse env data) s) give_up (\<lambda>response s.
     on_ok (au_send env response s) give_up (\<lambda>_ s. s\<lparr>odaHandled := True\<rparr>))"

definition auth_oda_response :: "('d, 'k) auth_env \<Rightarrow> bytes \<Rightarrow> ('d, 'k, 'r) auth \<Rightarrow> ('d, 'k, 'r) auth" where
  "auth_oda_response env data s =
     on_ok (au_op (dia_ODAVerify env data) s) give_up (\<lambda>_ s0.
       let s = s0\<lparr>odaHandled := True\<rparr> in
       if odaTriggered s \<and> Bye (au_config s) then sendByeThenStop env s else s)"

definition handleMessage :: "('d, 'k) auth_env \<Rightarrow> bytes \<Rightarrow> ('d, 'k, 'r) auth \<Rightarrow> ('d, 'k, 'r) auth" where
  "handleMessage env data s =
     (case dia_ParseMessage env data of
        Inl e \<Rightarrow> s
      | Inr (ty, sender) \<Rightarrow>
          if val sender = val (dia_SenderID env (au_dia s)) then s
          else if ty = MsgBye then stop_main s
          else if val (dia_MessageTopic env data) \<noteq> val (dia_CurrentTopic env (au_dia s)) then s
          else if cacheHit s \<and> ty \<in> {MsgAKERequest, MsgAKEResponse, MsgAKEComplete} then s
          else if ty = MsgHeartbeat then s
          else if ty = MsgODARequest then auth_oda_request env data s
          else if ty = MsgODAResponse then auth_oda_response env data s
          else if dia_IsRecipient env (au_dia s) then handleRecipientMessage env ty data s
          else if dia_IsCaller env (au_dia s) then handleCallerMessage env ty data s
          else s)"

section \<open>Steps\<close>

datatype auth_event = AuthBegin | AuthMessage bytes | AuthODA | AuthInterrupt | AuthClose

definition running :: "('d, 'k, 'r) auth \<Rightarrow> bool" where
  "running s \<longleftrightarrow> au_main s = Beginning \<or> au_main s = Listening"

definition auth_step :: "('d, 'k) auth_env \<Rightarrow> ('d, 'k, 'r) auth \<Rightarrow> auth_event \<Rightarrow> ('d, 'k, 'r) auth" where
  "auth_step env s e =
     (if \<not> running s then s
      else case e of
        AuthBegin \<Rightarrow> if au_main s = Beginning then auth_begin env s else s
      | AuthMessage data \<Rightarrow> handleMessage env data s
      | AuthODA \<Rightarrow> auth_oda env s
      | AuthInterrupt \<Rightarrow> stop_main s
      | AuthClose \<Rightarrow> if au_main s = Listening \<and> interrupted s then auth_close env s else s)"

end
