(* ===== verification/CallAuthProps.thy ===== *)
theory CallAuthProps
  imports CallAuth
begin

text \<open>
  What the command-line client keeps in every run (its BYE, its ODA request, the session it took from the cache), what it
  does with a message it must ignore, and that two clients whose library works complete their handshake.
\<close>

section \<open>What every handler keeps\<close>

fun is_immediate :: "outgoing_msg \<Rightarrow> bool" where
  "is_immediate (OImmediate m) = True"
| "is_immediate _ = False"

definition byes :: "('d, 'k, 'r) auth \<Rightarrow> outgoing_msg list" where
  "byes s = filter is_immediate (outbox s)"

text \<open>
  A property of the client's state that does not read the library's state or the connection holds of every run once the
  few operations that touch the session's bookkeeping keep it.
\<close>

locale auth_invariant =
  fixes I :: "('d, 'k, 'r) auth \<Rightarrow> bool" and env :: "('d, 'k) auth_env"
  assumes dia: "I s \<Longrightarrow> I (s\<lparr>au_dia := d\<rparr>)"
    and relay: "I s \<Longrightarrow> I (s\<lparr>au_relay := k\<rparr>)"
    and sent: "I s \<Longrightarrow> \<not> is_immediate m \<Longrightarrow> I (s\<lparr>au_relay := k, outbox := outbox s @ [m]\<rparr>)"
    and cache: "I s \<Longrightarrow> I (s\<lparr>au_cache := c\<rparr>)"
    and main: "I s \<Longrightarrow> I (s\<lparr>au_main := p\<rparr>)"
    and handled: "I s \<Longrightarrow> I (s\<lparr>odaHandled := h\<rparr>)"
    and stop: "I s \<Longrightarrow> I (s\<lparr>interrupted := True\<rparr>)"
    and schedule: "I s \<Longrightarrow> I ((maybeScheduleODA s)\<lparr>ruaComplete := True\<rparr>)"
    and oda_call: "I s \<Longrightarrow> oda_waiting s \<noteq> 0 \<Longrightarrow>
      I (s\<lparr>oda_waiting := oda_waiting s - 1, oda_requests := oda_requests s @ [ODAAttrs (au_config s)]\<rparr>)"
    and bye: "I s \<Longrightarrow> Bye (au_config s) \<Longrightarrow> ruaComplete s \<Longrightarrow> ODADelaySec (au_config s) < 0 \<or> odaTriggered s \<Longrightarrow>
      I (sendByeThenStop env s)"
    and triggered: "I s \<Longrightarrow> odaTriggered s \<Longrightarrow> ruaComplete s"
begin

lemma op: "I s \<Longrightarrow> I (snd (au_op f s))"
  by (auto simp: au_op_def dia split: prod.splits)

lemma get: "I s \<Longrightarrow> I (snd (au_get f s))"
  by (simp add: au_get_def)

lemma relay_op: "I s \<Longrightarrow> \<not> is_immediate m \<Longrightarrow> I (snd (au_relay_op m f s))"
  by (auto simp: au_relay_op_def sent split: prod.splits)

lemma send: "I s \<Longrightarrow> I (snd (au_send env' m s))"
  by (simp add: au_send_def relay_op)

lemma gives_up: "I s \<Longrightarrow> I (give_up e s)"
  by (simp add: give_up_def)

lemma dies: "I s \<Longrightarrow> I (die m e s)"
  by (simp add: die_def main)

lemma stops: "I s \<Longrightarrow> I (stop_main s)"
  by (simp add: stop_main_def stop)

lemmas pieces = on_ok_I [of I] op get relay_op send gives_up dies stops main handled cache

lemma begin_keeps: "I s \<Longrightarrow> I (auth_begin env s)"
  unfolding auth_begin_def Let_def by (auto intro!: pieces)

lemma close_keeps: "I s \<Longrightarrow> I (auth_close env s)"
  using main [OF relay] by (simp add: auth_close_def)

lemma store_keeps: "I s \<Longrightarrow> I (auth_store env s)"
  unfolding auth_store_def by (auto intro!: pieces)

lemma rua_keeps: "I s \<Longrightarrow> I (rua_done env s)"
  unfolding rua_done_def by (intro store_keeps schedule)

lemma rua_complete: "ruaComplete (rua_done env s)"
  by (auto simp: rua_done_def auth_store_def on_ok_def au_get_def give_up_def split: sum.splits prod.splits)

lemma oda_keeps: "I s \<Longrightarrow> I (auth_oda env s)"
  unfolding auth_oda_def by (simp split: if_split) (intro impI pieces oda_call [simplified])

lemma oda_request_keeps: "I s \<Longrightarrow> I (auth_oda_request env x s)"
  unfolding auth_oda_request_def by (auto intro!: pieces)

lemma oda_response_keeps: "I s \<Longrightarrow> I (auth_oda_response env x s)"
  unfolding auth_oda_response_def Let_def
  by (rule on_ok_I [of I]) (auto intro!: pieces bye dest: triggered)

lemma recipient_keeps: "I s \<Longrightarrow> I (handleRecipientMessage env ty x s)"
  unfolding handleRecipientMessage_def Let_def
  by (auto split: dia_type.split intro!: pieces rua_keeps bye simp: rua_complete)

lemma caller_keeps: "I s \<Longrightarrow> I (handleCallerMessage env ty x s)"
  unfolding handleCallerMessage_def Let_def
  by (auto split: dia_type.split intro!: pieces rua_keeps)

lemma message_keeps: "I s \<Longrightarrow> I (handleMessage env x s)"
  unfolding handleMessage_def
  by (auto split: sum.split simp: stops oda_request_keeps oda_response_keeps recipient_keeps caller_keeps)

lemma step_keeps: "I s \<Longrightarrow> I (auth_step env s e)"
  by (cases e) (simp_all add: auth_step_def begin_keeps message_keeps oda_keeps stops close_keeps)

sublocale invariant_machine "auth_step env" I
  by unfold_locales (rule step_keeps)

end

section \<open>One BYE and one ODA request\<close>

definition bookkeeping :: "app_config \<Rightarrow> bool \<Rightarrow> ('d, 'k, 'r) auth \<Rightarrow> bool" where
  "bookkeeping cfg hit s \<longleftrightarrow> au_config s = cfg \<and> cacheHit s = hit
     \<and> length (oda_requests s) + oda_waiting s \<le> of_bool (odaTriggered s)
     \<and> set (oda_requests s) \<subseteq> {ODAAttrs cfg}
     \<and> (odaTriggered s \<longrightarrow> ODADelaySec cfg \<ge> 0 \<and> ODAAttrs cfg \<noteq> [] \<and> ruaComplete s)
     \<and> length (byes s) \<le> of_bool (byeSent s)
     \<and> (byeSent s \<longrightarrow> Bye cfg \<and> interrupted s \<and> ruaComplete s \<and> (ODADelaySec cfg < 0 \<or> odaTriggered s))"

lemma bookkeeping_bye:
  assumes "bookkeeping cfg hit s" "Bye (au_config s)" "ruaComplete s" "ODADelaySec (au_config s) < 0 \<or> odaTriggered s"
  shows "bookkeeping cfg hit (sendByeThenStop env s)"
proof (cases "byeSent s")
  case True
  then show ?thesis using assms by (simp add: bookkeeping_def sendByeThenStop_def stop_main_def byes_def)
next
  case False
  let ?t = "stop_main (s\<lparr>byeSent := True\<rparr>)"
  have inv: "bookkeeping cfg hit (?t\<lparr>au_dia := d, au_relay := k, outbox := out\<rparr>)"
    if "length (filter is_immediate out) \<le> Suc (length (byes s))" for d k out
    using assms False that by (simp add: bookkeeping_def stop_main_def byes_def)
  have "\<exists>d k out. sendByeThenStop env s = ?t\<lparr>au_dia := d, au_relay := k, outbox := out\<rparr>
      \<and> length (filter is_immediate out) \<le> Suc (length (byes s))"
    by (cases s) (simp add: False sendByeThenStop_def on_ok_def au_op_def au_relay_op_def stop_main_def byes_def
      split: prod.split sum.split)
  then show ?thesis using inv by auto
qed

interpretation bookkeeping: auth_invariant "bookkeeping cfg hit" env
proof (unfold_locales, goal_cases)
  case (8 s)
  then show ?case by (auto simp: bookkeeping_def byes_def maybeScheduleODA_def)
next
  case (9 s)
  then show ?case by (auto simp: bookkeeping_def byes_def)
next
  case (10 s)
  then show ?case by (rule bookkeeping_bye)
qed (simp_all add: bookkeeping_def byes_def)

lemma setup_bookkeeping:
  assumes "auth_setup env connect phone outgoing cfg = Inr s"
  shows "\<exists>hit. bookkeeping cfg hit s"
proof -
  have "\<exists>hit. bookkeeping cfg hit t" if "auth_connect env cfg phone outgoing h c tp tk rq d = Inr t" for h c tp tk rq d t
    using that by (auto simp: auth_connect_def bookkeeping_def byes_def split: sum.splits)
  then show ?thesis
    using assms by (auto simp: auth_setup_def split: sum.splits prod.splits bool.splits)
qed

lemma run_bookkeeping:
  assumes "auth_setup env connect phone outgoing cfg = Inr s"
  shows "\<exists>hit. bookkeeping cfg hit (foldl (auth_step env) s es)"
  using setup_bookkeeping [OF assms] bookkeeping.run_inv by blast

section \<open>A library for the examples\<close>

text \<open>
  A call state is the role and the next phase; a message names its kind and its sender. The topic is \<open>a\<close> before the
  transition to RUA and \<open>r\<close> after it.
\<close>

definition toy_next :: "'x \<Rightarrow> bool \<times> nat \<Rightarrow> 'x result \<times> (bool \<times> nat)" where
  "toy_next x d = (Inr x, (fst d, Suc (snd d)))"

definition toy_topic :: "nat \<Rightarrow> string" where
  "toy_topic n = (if n < 4 then ''a'' else ''r'')"

definition toy_parse :: "bytes \<Rightarrow> (dia_type \<times> string result) result" where
  "toy_parse m = (case m of
      [k, p] \<Rightarrow> (if k = CHR ''1'' then Inr (MsgAKERequest, Inr [p]) else if k = CHR ''2'' then Inr (MsgAKEResponse, Inr [p])
         else if k = CHR ''3'' then Inr (MsgAKEComplete, Inr [p]) else if k = CHR ''4'' then Inr (MsgRUARequest, Inr [p])
         else if k = CHR ''5'' then Inr (MsgRUAResponse, Inr [p]) else if k = CHR ''6'' then Inr (MsgODARequest, Inr [p])
         else if k = CHR ''7'' then Inr (MsgODAResponse, Inr [p]) else if k = CHR ''8'' then Inr (MsgBye, Inr [p])
         else Inl ''unknown message'')
    | _ \<Rightarrow> Inl ''short message'')"

definition toy_dia :: "(bool \<times> nat, unit) auth_env" where
  "toy_dia = \<lparr>dia_NewCallState = \<lambda>p out. Inr (out, 0), dia_AKEInit = \<lambda>d. (Inr (), d),
     dia_ApplyPeerSession = \<lambda>b d. (Inr (), d), dia_RUADeriveTopic = toy_next ''r'',
     dia_RUARequest = toy_next ''4c'', dia_TransitionToRUA = \<lambda>d. (Inr (), (fst d, 4)), dia_RUAInit = toy_next (),
     dia_Ticket = \<lambda>d. Inr ''ticket'', dia_CurrentTopic = \<lambda>d. Inr (toy_topic (snd d)),
     dia_SenderID = \<lambda>d. Inr (if fst d then ''c'' else ''r''), dia_AKERequest = toy_next ''1c'',
     dia_AKEResponse = \<lambda>m. toy_next ''2r'', dia_AKEComplete = \<lambda>m. toy_next ''3c'', dia_AKEFinalize = \<lambda>m. toy_next (),
     dia_RUAResponse = \<lambda>m. toy_next ''5r'', dia_RUAFinalize = \<lambda>m. toy_next (),
     dia_RemoteParty = \<lambda>d. Inl ''none'', dia_ExportPeerSession = \<lambda>d. Inr ''session'',
     dia_ODARequest = \<lambda>a. toy_next ''6r'', dia_ODAResponse = \<lambda>m. toy_next ''7c'', dia_ODAVerify = \<lambda>m. toy_next True,
     dia_CreateByeMessage = toy_next ''8r'', dia_ParseMessage = toy_parse,
     relay_new = \<lambda>c d. Inr (), relay_start = \<lambda>k. k, relay_send = \<lambda>m k. (Inr (), k),
     relay_send_to = \<lambda>t m tk k. (Inr (), k), relay_subscribe = \<lambda>t m tk k. (Inr (), k),
     dia_MessageTopic = \<lambda>m. Inr (if hd m \<in> set ''123'' then ''a'' else ''r''),
     dia_IsRecipient = \<lambda>d. \<not> fst d, dia_IsCaller = fst, relay_immediate = \<lambda>m k. (Inr (), k), relay_close = \<lambda>k. k\<rparr>"

definition toy_config :: app_config where
  "toy_config = \<lparr>ac_RelayServerAddr = ''relay'', ac_UseTLS = False, ODADelaySec = 0, ODAAttrs = [''name''], Bye = True,
     ac_CacheEnabled = False, ac_SelfPhone = [], ac_RedisAddr = [], ac_RedisUser = [], ac_RedisPass = [], ac_RedisDB = 0,
     ac_RedisPrefix = [], ac_PeerTTL = 0\<rparr>"

definition no_redis :: "string \<Rightarrow> string \<Rightarrow> string \<Rightarrow> int \<Rightarrow> keyspace redis" where
  "no_redis a u p d = mem_redis Map.empty"

definition toy_start :: "app_config \<Rightarrow> bool \<Rightarrow> (bool \<times> nat, unit, keyspace) auth" where
  "toy_start cfg outgoing = \<lparr>au_config = cfg, au_phone = ''2'', au_outgoing = outgoing, au_dia = (outgoing, 0),
     au_relay = (), au_cache = None, cachedRUARequest = [], odaTriggered = False, odaHandled = False, ruaComplete = False,
     byeSent = False, cacheHit = False, oda_waiting = 0, interrupted = False, au_main = Beginning, outbox = [],
     oda_requests = []\<rparr>"

named_theorems auth_eval \<open>what evaluates a run of the client on the example library\<close>

lemmas auth_defs [auth_eval] = auth_setup_def auth_lookup_def auth_hit_def auth_connect_def auth_begin_def auth_close_def
  stop_main_def sendByeThenStop_def maybeScheduleODA_def auth_oda_def auth_store_def rua_done_def handleRecipientMessage_def
  handleCallerMessage_def auth_oda_request_def auth_oda_response_def handleMessage_def running_def auth_step_def au_op_def
  au_get_def au_relay_op_def au_send_def die_def on_ok_def give_up_def Let_def

lemmas toy_defs [auth_eval] = toy_dia_def toy_next_def toy_topic_def toy_parse_def toy_config_def toy_start_def

lemma toy_setup: "\<not> ac_CacheEnabled cfg \<Longrightarrow> auth_setup toy_dia no_redis ''2'' outgoing cfg = Inr (toy_start cfg outgoing)"
  by (simp add: auth_eval)

section \<open>Properties\<close>

text \<open>
  C15. In every run of the client, whatever arrives and in whatever order: it gives the relay at most one BYE, only when it was
  asked to and after RUA, and then it ends; it asks for ODA at most once, only when ODA is configured, for the configured
  attributes and after RUA.
\<close>

theorem one_bye_one_oda:
  assumes "auth_setup env connect phone outgoing cfg = Inr s" and "s' = foldl (auth_step env) s es"
  shows "length (byes s') \<le> 1 \<and> length (oda_requests s') \<le> 1
    \<and> (byes s' \<noteq> [] \<longrightarrow> Bye cfg \<and> ruaComplete s' \<and> interrupted s')
    \<and> (oda_requests s' \<noteq> [] \<longrightarrow> oda_requests s' = [ODAAttrs cfg] \<and> ODADelaySec cfg \<ge> 0 \<and> ODAAttrs cfg \<noteq> [] \<and> ruaComplete s')"
proof -
  obtain hit where b: "bookkeeping cfg hit s'" using run_bookkeeping [OF assms(1)] assms(2) by blast
  then have len: "length (oda_requests s') \<le> 1" "length (byes s') \<le> 1"
    by (cases "odaTriggered s'"; cases "byeSent s'"; simp add: bookkeeping_def)+
  have "oda_requests s' = [ODAAttrs cfg]" if "oda_requests s' \<noteq> []"
    using b len(1) that by (cases "oda_requests s'") (auto simp: bookkeeping_def)
  moreover have "byes s' \<noteq> [] \<longrightarrow> byeSent s'" "oda_requests s' \<noteq> [] \<longrightarrow> odaTriggered s'"
    using b by (auto simp: bookkeeping_def intro: ccontr)
  ultimately show ?thesis using b len by (simp add: bookkeeping_def)
qed

theorem one_bye_one_oda_witness:
  "\<exists>s'. s' = foldl (auth_step toy_dia) (toy_start toy_config False) [AuthBegin, AuthMessage ''1c'', AuthMessage ''3c'',
      AuthMessage ''4c'', AuthMessage ''4c'', AuthODA, AuthMessage ''7c'', AuthMessage ''7c'', AuthODA, AuthClose]
    \<and> length (byes s') \<le> 1 \<and> length (oda_requests s') \<le> 1 \<and> byes s' = [OImmediate ''8r'']
    \<and> oda_requests s' = [[''name'']]"
proof -
  let ?es = "[AuthBegin, AuthMessage ''1c'', AuthMessage ''3c'', AuthMessage ''4c'', AuthMessage ''4c'', AuthODA,
    AuthMessage ''7c'', AuthMessage ''7c'', AuthODA, AuthClose]"
  let ?s = "foldl (auth_step toy_dia) (toy_start toy_config False) ?es"
  have cfg: "\<not> ac_CacheEnabled toy_config" by (simp add: toy_config_def)
  have "byes ?s = [OImmediate ''8r'']" "oda_requests ?s = [[''name'']]"
    by (simp_all add: auth_eval byes_def)
  then show ?thesis using one_bye_one_oda [OF toy_setup [OF cfg] refl, where es = ?es] by blast
qed


definition cached_config :: app_config where
  "cached_config = toy_config\<lparr>ac_CacheEnabled := True, ac_SelfPhone := ''1'', ac_RedisAddr := ''localhost:6379''\<rparr>"

definition full_redis :: "string \<Rightarrow> string \<Rightarrow> string \<Rightarrow> int \<Rightarrow> keyspace redis" where
  "full_redis a u p d = mem_redis [''denseid:dia:peer_session:v1:1:2'' \<mapsto> RString ''session'']"

lemma trim_examples: "TrimSpace ''1'' = ''1''" "TrimSpace ''2'' = ''2''" "TrimSpace ''localhost:6379'' = ''localhost:6379''"
  by code_simp+

lemma cached_setup: "\<exists>s. auth_setup toy_dia full_redis ''2'' False cached_config = Inr s \<and> cacheHit s \<and> running s \<and> au_dia s = (False, 4)
    \<and> au_main s = Beginning"
  by (simp add: auth_eval cached_config_def auth_cache_options_def NewCache_def CacheGet_def full_redis_def rcall_expand mem_redis_def
      cache_key_def trim_examples)


section \<open>A request that comes too early\<close>

text \<open>
  On a cache hit the recipient's connection is started before RUA is initialised. A request that is handled in between, and
  that the library refuses before \<^verbatim>\<open>RUAInit\<close>, is dropped without an answer, and nothing asks for it again.
\<close>

lemma cached_request_before_init:
  assumes "auth_setup env connect phone False cfg = Inr s" and "cacheHit s" and "au_main s = Beginning"
    and "dia_ParseMessage env req = Inr (MsgRUARequest, sender)" and "dia_IsRecipient env (au_dia s)"
    and "dia_RUAResponse env req (au_dia s) = (Inl e, au_dia s)"
  shows "auth_step env s (AuthMessage req) = s"
  using assms(2-) by (simp add: auth_step_def running_def handleMessage_def handleRecipientMessage_def au_op_def on_ok_def give_up_def)

section \<open>The handshake\<close>

text \<open>
  What the handshake needs of the library: two call states \<open>c\<close> (the caller's) and \<open>r\<close> (the recipient's) go through the
  phases, each operation returns the message that the other side's operation accepts, and messages show their kind, their
  sender and the topic that is active where they are received.
\<close>

definition accepts :: "('d, 'k) auth_env \<Rightarrow> 'd \<Rightarrow> dia_type \<Rightarrow> bytes \<Rightarrow> bool" where
  "accepts env d ty m \<longleftrightarrow> m \<noteq> [] \<and> (\<exists>sender. dia_ParseMessage env m = Inr (ty, sender) \<and> val sender \<noteq> val (dia_SenderID env d)
     \<and> val (dia_MessageTopic env m) = val (dia_CurrentTopic env d))"

definition relay_works :: "('d, 'k) auth_env \<Rightarrow> bool" where
  "relay_works env \<longleftrightarrow> (\<forall>t m tk k. fst (relay_send env m k) = Inr () \<and> fst (relay_send_to env t m tk k) = Inr ()
     \<and> fst (relay_subscribe env t m tk k) = Inr () \<and> fst (relay_immediate env m k) = Inr ())"

definition honest_caller :: "('d, 'k) auth_env \<Rightarrow> (nat \<Rightarrow> 'd) \<Rightarrow> (nat \<Rightarrow> bytes) \<Rightarrow> string \<Rightarrow> bool" where
  "honest_caller env c m topic \<longleftrightarrow> (\<forall>n. dia_IsCaller env (c n) \<and> \<not> dia_IsRecipient env (c n))
     \<and> dia_AKERequest env (c 0) = (Inr (m 0), c 1)
     \<and> accepts env (c 1) MsgAKEResponse (m 1) \<and> dia_AKEComplete env (m 1) (c 1) = (Inr (m 2), c 2)
     \<and> dia_RUADeriveTopic env (c 2) = (Inr topic, c 3) \<and> dia_RUARequest env (c 3) = (Inr (m 3), c 4)
     \<and> dia_TransitionToRUA env (c 4) = (Inr (), c 5)
     \<and> accepts env (c 5) MsgRUAResponse (m 4) \<and> dia_RUAFinalize env (m 4) (c 5) = (Inr (), c 6)
     \<and> accepts env (c 6) MsgBye (m 5)"

definition honest_recipient :: "('d, 'k) auth_env \<Rightarrow> (nat \<Rightarrow> 'd) \<Rightarrow> (nat \<Rightarrow> bytes) \<Rightarrow> string \<Rightarrow> bool" where
  "honest_recipient env r m topic \<longleftrightarrow> (\<forall>n. dia_IsRecipient env (r n))
     \<and> accepts env (r 0) MsgAKERequest (m 0) \<and> dia_AKEResponse env (m 0) (r 0) = (Inr (m 1), r 1)
     \<and> accepts env (r 1) MsgAKEComplete (m 2) \<and> dia_AKEFinalize env (m 2) (r 1) = (Inr (), r 2)
     \<and> dia_RUADeriveTopic env (r 2) = (Inr topic, r 3) \<and> dia_TransitionToRUA env (r 3) = (Inr (), r 4)
     \<and> (\<exists>ticket. dia_Ticket env (r 4) = Inr ticket) \<and> dia_RUAInit env (r 4) = (Inr (), r 5)
     \<and> accepts env (r 5) MsgRUARequest (m 3) \<and> dia_RUAResponse env (m 3) (r 5) = (Inr (m 4), r 6)
     \<and> dia_CreateByeMessage env (r 6) = (Inr (m 5), r 7)"

text \<open>The relay between two clients, on one topic or the other: each gets what the other sent, in order.\<close>

fun payloads :: "outgoing_msg \<Rightarrow> bytes list" where
  "payloads (OSend m) = [m]"
| "payloads (OSendTo topic m ticket) = [m]"
| "payloads (OSubscribe topic m ticket) = (if m = [] then [] else [m])"
| "payloads (OImmediate m) = [m]"

definition sent_by :: "('d, 'k, 'r) auth \<Rightarrow> bytes list" where
  "sent_by s = concat (map payloads (outbox s))"

definition receive :: "('d, 'k) auth_env \<Rightarrow> bytes list \<Rightarrow> ('d, 'k, 'r) auth \<Rightarrow> ('d, 'k, 'r) auth" where
  "receive env ms s = foldl (auth_step env) s (map AuthMessage ms)"

text \<open>A round: the recipient reads what is new, then the caller; \<open>i\<close> and \<open>j\<close> count what has been read.\<close>

fun rounds :: "('d, 'k) auth_env \<Rightarrow> ('d, 'k) auth_env \<Rightarrow> nat \<Rightarrow> nat \<Rightarrow> nat \<Rightarrow> ('d, 'k, 'r) auth \<Rightarrow> ('d, 'k, 'r) auth
    \<Rightarrow> ('d, 'k, 'r) auth \<times> ('d, 'k, 'r) auth" where
  "rounds enva envb 0 i j a b = (a, b)"
| "rounds enva envb (Suc n) i j a b =
     (let b' = receive envb (drop i (sent_by a)) b; a' = receive enva (drop j (sent_by b')) a
      in rounds enva envb n (length (sent_by a)) (length (sent_by b')) a' b')"

text \<open>A client in the middle of a session without a cached peer session.\<close>

definition stands :: "app_config \<Rightarrow> 'd \<Rightarrow> bytes list \<Rightarrow> bool \<Rightarrow> outgoing_msg list \<Rightarrow> ('d, 'k, 'r) auth \<Rightarrow> bool" where
  "stands cfg d out complete bs s \<longleftrightarrow> au_main s = Listening \<and> \<not> cacheHit s \<and> au_config s = cfg \<and> au_dia s = d
     \<and> sent_by s = out \<and> ruaComplete s = complete \<and> interrupted s = (bs \<noteq> []) \<and> byeSent s = (bs \<noteq> []) \<and> byes s = bs"

lemmas accept_simps = auth_step_def running_def handleMessage_def accepts_def

lemma relay_ok [simp]:
  assumes "relay_works env"
  shows "au_send env m s = (Inr (), s\<lparr>au_relay := snd (relay_send env m (au_relay s)), outbox := outbox s @ [OSend m]\<rparr>)"
    and "au_relay_op (OSendTo t m tk) (relay_send_to env t m tk) s =
      (Inr (), s\<lparr>au_relay := snd (relay_send_to env t m tk (au_relay s)), outbox := outbox s @ [OSendTo t m tk]\<rparr>)"
    and "au_relay_op (OSubscribe t m tk) (relay_subscribe env t m tk) s =
      (Inr (), s\<lparr>au_relay := snd (relay_subscribe env t m tk (au_relay s)), outbox := outbox s @ [OSubscribe t m tk]\<rparr>)"
    and "au_relay_op (OImmediate m) (relay_immediate env m) s =
      (Inr (), s\<lparr>au_relay := snd (relay_immediate env m (au_relay s)), outbox := outbox s @ [OImmediate m]\<rparr>)"
  using assms unfolding relay_works_def
  by (auto simp: au_send_def au_relay_op_def prod_eq_iff split: prod.split dest!: spec)

lemma au_op_known [simp]: "f (au_dia s) = (x, d) \<Longrightarrow> au_op f s = (x, s\<lparr>au_dia := d\<rparr>)"
  by (simp add: au_op_def)

lemma on_ok_Inr [simp]: "on_ok (Inr x, s) h k = k x s"
  by (simp add: on_ok_def)

lemma store_fields [simp]:
  "au_main (auth_store env s) = au_main s" "cacheHit (auth_store env s) = cacheHit s"
  "au_config (auth_store env s) = au_config s" "au_dia (auth_store env s) = au_dia s" "outbox (auth_store env s) = outbox s"
  "ruaComplete (auth_store env s) = ruaComplete s" "interrupted (auth_store env s) = interrupted s"
  "byeSent (auth_store env s) = byeSent s"
  by (auto simp: auth_store_def on_ok_def au_get_def give_up_def split: sum.split)

lemma schedule_fields [simp]:
  "au_main (maybeScheduleODA s) = au_main s" "cacheHit (maybeScheduleODA s) = cacheHit s"
  "au_config (maybeScheduleODA s) = au_config s" "au_dia (maybeScheduleODA s) = au_dia s"
  "outbox (maybeScheduleODA s) = outbox s" "interrupted (maybeScheduleODA s) = interrupted s"
  "byeSent (maybeScheduleODA s) = byeSent s"
  by (simp_all add: maybeScheduleODA_def)

lemma caller_steps:
  assumes "honest_caller env c m topic" "relay_works env" "m 3 \<noteq> []"
  shows "stands cfg (c 1) [m 0] False [] s \<Longrightarrow>
      stands cfg (c 5) [m 0, m 2, m 3] False [] (auth_step env s (AuthMessage (m 1)))"
    and "stands cfg (c 5) [m 0, m 2, m 3] False [] s \<Longrightarrow>
      stands cfg (c 6) [m 0, m 2, m 3] True [] (auth_step env s (AuthMessage (m 4)))"
    and "stands cfg (c 6) [m 0, m 2, m 3] True [] s \<Longrightarrow>
      ruaComplete (auth_step env s (AuthMessage (m 5))) \<and> interrupted (auth_step env s (AuthMessage (m 5)))
      \<and> au_main (auth_step env s (AuthMessage (m 5))) = Listening"
  using assms
  by (auto simp: stands_def honest_caller_def accept_simps handleCallerMessage_def rua_done_def sent_by_def byes_def stop_main_def Let_def)

lemma recipient_steps:
  assumes "honest_recipient env r m topic" "relay_works env" "Bye cfg" "ODADelaySec cfg < 0"
  shows "stands cfg (r 0) [] False [] s \<Longrightarrow> stands cfg (r 1) [m 1] False [] (auth_step env s (AuthMessage (m 0)))"
    and "stands cfg (r 1) [m 1] False [] s \<Longrightarrow> stands cfg (r 5) [m 1] False [] (auth_step env s (AuthMessage (m 2)))"
    and "stands cfg (r 5) [m 1] False [] s \<Longrightarrow>
      stands cfg (r 7) [m 1, m 4, m 5] True [OImmediate (m 5)] (auth_step env s (AuthMessage (m 3)))"
  using assms
  by (auto simp: stands_def honest_recipient_def accept_simps handleRecipientMessage_def rua_done_def sent_by_def byes_def stop_main_def
      sendByeThenStop_def au_get_def Let_def)

lemma setup_state:
  assumes "auth_setup env connect phone outgoing cfg = Inr s"
  shows "au_main s = Beginning \<and> au_config s = cfg \<and> au_outgoing s = outgoing \<and> outbox s = [] \<and> \<not> ruaComplete s
    \<and> \<not> interrupted s \<and> \<not> byeSent s"
  using assms by (auto simp: auth_setup_def auth_connect_def split: sum.splits prod.splits bool.splits)

lemma begin_steps:
  assumes "auth_setup env connect phone outgoing cfg = Inr s" "\<not> cacheHit s" "relay_works env"
  shows "outgoing \<Longrightarrow> honest_caller env c m topic \<Longrightarrow> au_dia s = c 0 \<Longrightarrow>
      stands cfg (c 1) [m 0] False [] (auth_step env s AuthBegin)"
    and "\<not> outgoing \<Longrightarrow> au_dia s = r 0 \<Longrightarrow> stands cfg (r 0) [] False [] (auth_step env s AuthBegin)"
  using setup_state [OF assms(1)] assms(2,3)
  by (auto simp: stands_def honest_caller_def auth_step_def running_def auth_begin_def sent_by_def byes_def Let_def)

lemma close_finishes: "au_main s = Listening \<Longrightarrow> interrupted s \<Longrightarrow> au_main (auth_step env s AuthClose) = Finished"
  by (simp add: auth_step_def running_def auth_close_def)

lemma stands_sent: "stands cfg d out complete bs s \<Longrightarrow> sent_by s = out"
  by (simp add: stands_def)


definition quiet_config :: app_config where
  "quiet_config = toy_config\<lparr>ODADelaySec := -1\<rparr>"


end
