(* ===== verification/Experiment.thy ===== *)
theory Experiment
  imports SipController
begin

text \<open>
  \<^verbatim>\<open>cmd/sipcontroller/main.go\<close>: the program around the SIP controller. The rows of its CSV file, the goroutine that writes the
  receiver's results, the commands of its prompt, and \<^verbatim>\<open>runExperiment\<close>, which keeps calls in flight until enough of them
  are over. The experiment's goroutine is a program counter over the controller's state; baresip's events, messages, timers
  and the controller's goroutines run between its steps. What the file system answers is an argument (\<open>file_env\<close>), and a row of
  the CSV file is the list of its fields.
\<close>

section \<open>The CSV file\<close>

text \<open>\<^verbatim>\<open>%d\<close> and \<^verbatim>\<open>%v\<close> of \<^verbatim>\<open>fmt.Sprintf\<close>.\<close>

definition show_int :: "int \<Rightarrow> string" where
  "show_int i = (if i < 0 then CHR ''-'' # show_nat (nat (- i)) else show_nat (nat i))"

definition show_bool :: "bool \<Rightarrow> string" where
  "show_bool b = (if b then ''true'' else ''false'')"

definition csv_header :: "string list" where
  "csv_header = [''attempt_id'', ''call_id'', ''self_phone'', ''peer_phone'', ''peer_uri'', ''direction'',
     ''protocol_enabled'', ''dial_sent_unix_ms'', ''answered_unix_ms'', ''latency_ms'', ''oda_requested_unix_ms'',
     ''oda_completed_unix_ms'', ''oda_latency_ms'', ''outcome'', ''error'']"

definition csv_record :: "call_result \<Rightarrow> string list" where
  "csv_record r = [cr_AttemptID r, cr_CallID r, cr_SelfPhone r, cr_PeerPhone r, cr_PeerURI r, cr_Direction r,
     show_bool (cr_ProtocolEnabled r), show_int (cr_DialSentAtUnixMs r), show_int (cr_AnsweredAtUnixMs r),
     show_int (cr_LatencyMs r), show_int (cr_ODAReqUnixMs r), show_int (cr_ODADoneUnixMs r), show_int (cr_ODALatencyMs r),
     cr_Outcome r, cr_Error r]"

text \<open>
  The rows of the open file, or \<^const>\<open>None\<close> without one. \<open>fs_write\<close> and \<open>fs_flush\<close> get the rows that are there and
  the new one.
\<close>

type_synonym csv = "string list list option"

record file_env =
  path_dir :: "string \<Rightarrow> string"
  fs_mkdir :: "string \<Rightarrow> error option"
  fs_create :: "string \<Rightarrow> error option"
  fs_write :: "string list list \<Rightarrow> string list \<Rightarrow> error option"
  fs_flush :: "string list list \<Rightarrow> string list \<Rightarrow> error option"

definition openCSV :: "file_env \<Rightarrow> string \<Rightarrow> csv result" where
  "openCSV fe path =
     (if TrimSpace path = [] then Inr None
      else let mkdir_error = fs_mkdir fe (path_dir fe path) in
        if mkdir_error \<noteq> None \<and> path_dir fe path \<noteq> ''.'' then Inl (''creating csv output dir: '' @ the mkdir_error)
        else (case fs_create fe path of
            Some e \<Rightarrow> Inl (''creating csv file: '' @ e)
          | None \<Rightarrow> (case fs_write fe [] csv_header of
              Some e \<Rightarrow> Inl (''writing csv header: '' @ e)
            | None \<Rightarrow> (case fs_flush fe [] csv_header of
                Some e \<Rightarrow> Inl (''flushing csv header: '' @ e)
              | None \<Rightarrow> Inr (Some [csv_header])))))"

definition writeCSVRecord :: "file_env \<Rightarrow> call_result \<Rightarrow> csv \<Rightarrow> error option \<times> csv" where
  "writeCSVRecord fe res w = (case w of
      None \<Rightarrow> (None, None)
    | Some rows \<Rightarrow> (case fs_write fe rows (csv_record res) of
          Some e \<Rightarrow> (Some e, w)
        | None \<Rightarrow> (fs_flush fe rows (csv_record res), Some (rows @ [csv_record res]))))"

section \<open>The receiver's results\<close>

text \<open>One round of the goroutine: the attempts with a protocol outcome so far, and the file.\<close>

definition receiver_step :: "file_env \<Rightarrow> sip_config \<Rightarrow> call_result \<Rightarrow> string set \<times> csv \<Rightarrow> string set \<times> csv" where
  "receiver_step fe cfg res sw = (case sw of (seen, w) \<Rightarrow>
     (let seen' = (if cr_AttemptID res \<noteq> [] \<and> (cr_Outcome res = ''oda_done'' \<or> cr_Outcome res = ''oda_timeout'')
                   then insert (cr_AttemptID res) seen else seen)
      in if cr_AttemptID res \<noteq> [] \<and> IncomingMode cfg \<noteq> [] \<and> cr_Outcome res = ''closed'' \<and> cr_AttemptID res \<in> seen'
         then (seen', w)
         else (seen', snd (writeCSVRecord fe res w))))"

section \<open>The prompt\<close>

text \<open>\<^verbatim>\<open>strings.Fields\<close>.\<close>

definition starts_white :: "string \<Rightarrow> bool" where
  "starts_white s \<longleftrightarrow> find (\<lambda>p. p \<noteq> [] \<and> p = take (length p) s) white_runes \<noteq> None"

fun first_word :: "string \<Rightarrow> string" where
  "first_word [] = []"
| "first_word (c # cs) = (if starts_white (c # cs) then [] else c # first_word cs)"

lemma trim_with_length: "length (trim_with ps s) \<le> length s"
  by (induction ps s rule: trim_with.induct) (subst trim_with.simps, auto split: option.split)

lemma trim_with_stops: "find (\<lambda>p. p \<noteq> [] \<and> p = take (length p) (trim_with ps s)) ps = None"
proof (induction ps s rule: trim_with.induct)
  case (1 ps s)
  show ?case
  proof (cases "find (\<lambda>p. p \<noteq> [] \<and> p = take (length p) s) ps")
    case None
    then have "trim_with ps s = s" by (subst trim_with.simps) simp
    then show ?thesis using None by simp
  next
    case (Some p)
    then have "trim_with ps s = trim_with ps (drop (length p) s)" by (subst trim_with.simps) simp
    then show ?thesis using 1 [OF Some] by simp
  qed
qed

lemma first_word_trimmed: "trim_with white_runes s \<noteq> [] \<Longrightarrow> first_word (trim_with white_runes s) \<noteq> []"
  using trim_with_stops [of white_runes s] by (cases "trim_with white_runes s") (simp_all add: starts_white_def)

function fields :: "string \<Rightarrow> string list" where
  "fields s = (let t = trim_with white_runes s in
     if t = [] then [] else first_word t # fields (drop (length (first_word t)) t))"
  by pat_completeness auto
termination
proof (relation "measure length")
  fix s t
  assume t: "t = trim_with white_runes s" "t \<noteq> []"
  then have "length (first_word t) > 0" "length t > 0" using first_word_trimmed [of s] by simp_all
  moreover have "length t \<le> length s" using trim_with_length [of white_runes s] t(1) by simp
  ultimately show "(drop (length (first_word t)) t, s) \<in> measure length"
    unfolding in_measure length_drop by linarith
qed simp

declare fields.simps [simp del]

text \<open>
  \<^verbatim>\<open>strings.ToLower\<close>, where its result is compared with an ASCII word: besides the ASCII letters only the dotted capital I and
  the Kelvin sign have an ASCII letter in lower case.
\<close>

fun to_lower :: "string \<Rightarrow> string" where
  "to_lower [] = []"
| "to_lower (c # cs) =
     (if take 2 (c # cs) = [CHR 0xC4, CHR 0xB0] then CHR ''i'' # to_lower (drop 1 cs)
      else if take 3 (c # cs) = [CHR 0xE2, CHR 0x84, CHR 0xAA] then CHR ''k'' # to_lower (drop 2 cs)
      else (if (65::nat) \<le> of_char c \<and> of_char c \<le> (90::nat) then char_of ((of_char c :: nat) + 32) else c) # to_lower cs)"

text \<open>\<^verbatim>\<open>fmt.Sscanf(s, "%d", &n)\<close> on a field, which has no blanks: \<open>n\<close> keeps its value when there is no number.\<close>

definition sscan_int :: "string \<Rightarrow> int \<Rightarrow> int" where
  "sscan_int s n = (case atoi_sign s of (neg, rest) \<Rightarrow>
     (let ds = takeWhile is_digit rest; v = int (dec_value ds) in
      if ds = [] then n
      else if neg then (if v \<le> 2 ^ 63 then - v else n)
      else (if v < 2 ^ 63 then v else n)))"

datatype user_command = Skip | Usage string | CmdDial string bool | CmdList | CmdODA string "string list" | CmdQuit
  | CmdRun string string int int | CmdHelp | Unknown string

definition proto_arg :: "string \<Rightarrow> bool option" where
  "proto_arg p = (if to_lower p \<in> {''on'', ''true'', ''1'', ''proto_on''} then Some True
     else if to_lower p \<in> {''off'', ''false'', ''0'', ''proto_off''} then Some False else None)"

definition parse_dial :: "string list \<Rightarrow> user_command" where
  "parse_dial parts =
     (if length parts < 2 then Usage ''dial <phone_number> [proto_on|proto_off]''
      else if length parts \<ge> 3 then
        (case proto_arg (parts ! 2) of Some b \<Rightarrow> CmdDial (parts ! 1) b | None \<Rightarrow> Usage ''proto must be on|off'')
      else CmdDial (parts ! 1) True)"

definition parse_command :: "string \<Rightarrow> user_command" where
  "parse_command text =
     (let line = TrimSpace text in
      if line = [] then Skip
      else let parts = fields line; cmd = parts ! 0 in
        if cmd = ''dial'' then parse_dial parts
        else if cmd = ''list'' then CmdList
        else if cmd = ''oda'' then
          (if length parts < 3 then Usage ''oda <call_id> <attr1,attr2,...>''
           else CmdODA (parts ! 1) (split_on (CHR '','') (parts ! 2)))
        else if cmd = ''quit'' \<or> cmd = ''exit'' then CmdQuit
        else if cmd = ''run'' then
          (if length parts < 4 then Usage ''run <baseline|integrated> <phone> <runs> [concurrency]''
           else CmdRun (parts ! 1) (parts ! 2) (sscan_int (parts ! 3) 0)
             (if length parts \<ge> 5 then sscan_int (parts ! 4) 1 else 1))
        else if cmd = ''help'' then CmdHelp
        else Unknown cmd)"

text \<open>What a command does to the controller; a run is \<open>runExperiment\<close> below.\<close>

definition command_event :: "user_command \<Rightarrow> ctl_event option" where
  "command_event c = (case c of
      CmdDial phone prot \<Rightarrow> Some (EvCall phone prot)
    | CmdODA callID attrs \<Rightarrow> Some (EvTriggerODA callID attrs)
    | CmdQuit \<Rightarrow> Some EvStop
    | _ \<Rightarrow> None)"

section \<open>An experiment\<close>

record attempt_state =
  printed :: bool
  st_closed :: bool
  hangupSent :: bool
  csvAnswered :: bool
  csvODA :: bool
  csvTerminal :: bool
  pendingODA :: "call_result option"

definition new_attempt_state :: attempt_state where
  "new_attempt_state = \<lparr>printed = False, st_closed = False, hangupSent = False, csvAnswered = False, csvODA = False,
     csvTerminal = False, pendingODA = None\<rparr>"

text \<open>
  Where the experiment's goroutine is: before the next call of the priming loop, waiting for the response to a dial (and then
  back to the loop it came from), before its \<^verbatim>\<open>select\<close>, in the delay between two attempts, or done.
\<close>

datatype exp_pc = Priming | Receiving | AwaitDial exp_pc "call \<times> int" | Pausing | Returned "error option"

record ('d, 'k, 'r) experiment_run =
  ex_ctl :: "('d, 'k, 'r) controller"
  ex_phone :: string
  ex_protocol :: bool
  runs :: int
  concurrency :: int
  started :: int
  completed :: int
  inFlight :: "string \<Rightarrow> attempt_state option"
  csvWriter :: csv
  stdout :: "call_result list"
  ex_pc :: exp_pc

definition runExperiment ::
  "file_env \<Rightarrow> ('d, 'k, 'r) controller \<Rightarrow> string \<Rightarrow> string \<Rightarrow> int \<Rightarrow> int \<Rightarrow> ('d, 'k, 'r) experiment_run result" where
  "runExperiment fe s mode phone n conc =
     (if n \<le> 0 then Inl ''runs must be > 0''
      else if to_lower mode \<noteq> ''baseline'' \<and> to_lower mode \<noteq> ''integrated'' then Inl (''unknown mode: '' @ mode)
      else (case (if TrimSpace (OutputCSV (config s)) \<noteq> [] then openCSV fe (TrimSpace (OutputCSV (config s))) else Inr None) of
          Inl e \<Rightarrow> Inl e
        | Inr w \<Rightarrow> Inr \<lparr>ex_ctl = s, ex_phone = phone, ex_protocol = (to_lower mode = ''integrated''), runs = n,
            concurrency = (if conc \<le> 0 then 1 else conc), started = 0, completed = 0, inFlight = Map.empty,
            csvWriter = w, stdout = [], ex_pc = Priming\<rparr>))"

definition waitForODA :: "sip_config \<Rightarrow> bool" where
  "waitForODA cfg \<longleftrightarrow> OutgoingODADelaySec cfg \<ge> 0 \<and> length (ODAAttributes cfg) > 0"

text \<open>\<^verbatim>\<open>startOne\<close>: the call up to its dial command, and from the response on.\<close>

definition startOne :: "('d, 'k) ctl_env \<Rightarrow> exp_pc \<Rightarrow> ('d, 'k, 'r) experiment_run \<Rightarrow> ('d, 'k, 'r) experiment_run" where
  "startOne env back x =
     (case InitiateOutgoingCall env (ex_phone x) (ex_protocol x) (ex_ctl x) of
        (Some (a, e), s) \<Rightarrow> x\<lparr>ex_ctl := s, ex_pc := Returned (Some e)\<rparr>
      | (None, s) \<Rightarrow> x\<lparr>ex_ctl := s, ex_pc := AwaitDial back (last (dialing s))\<rparr>)"

definition started_one :: "baresip_response result \<Rightarrow> ('d, 'k, 'r) experiment_run \<Rightarrow> ('d, 'k, 'r) experiment_run" where
  "started_one reply x = (case ex_pc x of
      AwaitDial back (i, t) \<Rightarrow>
        (case dial_finish i t reply ((ex_ctl x)\<lparr>dialing := remove1 (i, t) (dialing (ex_ctl x))\<rparr>) of
           ((a, Some e), s) \<Rightarrow> x\<lparr>ex_ctl := s, ex_pc := Returned (Some e)\<rparr>
         | ((a, None), s) \<Rightarrow> x\<lparr>ex_ctl := s, inFlight := (inFlight x)(a \<mapsto> new_attempt_state),
             started := started x + 1, ex_pc := back\<rparr>)
    | _ \<Rightarrow> x)"

text \<open>The CSV part of the loop's body: the error that ends the experiment, the attempt's state, the file.\<close>

definition write_pending :: "file_env \<Rightarrow> attempt_state \<Rightarrow> csv \<Rightarrow> error option \<times> attempt_state \<times> csv" where
  "write_pending fe st w = (case pendingODA st of
      None \<Rightarrow> (None, st, w)
    | Some res \<Rightarrow>
        if csvODA st then (None, st, w)
        else (case writeCSVRecord fe res w of
            (Some e, w) \<Rightarrow> (Some e, st, w)
          | (None, w) \<Rightarrow> (None, st\<lparr>csvODA := True, pendingODA := None\<rparr>, w)))"

definition csv_answered :: "file_env \<Rightarrow> call_result \<Rightarrow> attempt_state \<Rightarrow> csv \<Rightarrow> error option \<times> attempt_state \<times> csv" where
  "csv_answered fe res st w =
     (if csvAnswered st then (None, st, w)
      else (case writeCSVRecord fe res w of
          (Some e, w) \<Rightarrow> (Some e, st, w)
        | (None, w) \<Rightarrow> write_pending fe (st\<lparr>csvAnswered := True\<rparr>) w))"

definition csv_oda :: "file_env \<Rightarrow> call_result \<Rightarrow> attempt_state \<Rightarrow> csv \<Rightarrow> error option \<times> attempt_state \<times> csv" where
  "csv_oda fe res st w =
     (if csvODA st then (None, st, w)
      else if csvAnswered st then (case writeCSVRecord fe res w of
          (Some e, w) \<Rightarrow> (Some e, st, w)
        | (None, w) \<Rightarrow> (None, st\<lparr>csvODA := True\<rparr>, w))
      else (None, st\<lparr>pendingODA := Some res\<rparr>, w))"

definition csv_terminal :: "file_env \<Rightarrow> call_result \<Rightarrow> attempt_state \<Rightarrow> csv \<Rightarrow> error option \<times> attempt_state \<times> csv" where
  "csv_terminal fe res st w = (case writeCSVRecord fe res w of
      (Some e, w) \<Rightarrow> (Some e, st, w)
    | (None, w) \<Rightarrow> (None, st\<lparr>csvTerminal := True\<rparr>, w))"

definition csv_closed :: "file_env \<Rightarrow> call_result \<Rightarrow> attempt_state \<Rightarrow> csv \<Rightarrow> error option \<times> attempt_state \<times> csv" where
  "csv_closed fe res st w = (case write_pending fe st w of
      (Some e, st, w) \<Rightarrow> (Some e, st, w)
    | (None, st, w) \<Rightarrow>
        if \<not> csvAnswered st \<and> \<not> csvODA st \<and> \<not> csvTerminal st then csv_terminal fe res st w else (None, st, w))"

definition csv_step :: "file_env \<Rightarrow> call_result \<Rightarrow> attempt_state \<Rightarrow> csv \<Rightarrow> error option \<times> attempt_state \<times> csv" where
  "csv_step fe res st w =
     (if w = None then (None, st, w)
      else if cr_Outcome res = ''answered'' then csv_answered fe res st w
      else if cr_Outcome res = ''oda_done'' \<or> cr_Outcome res = ''oda_timeout'' then csv_oda fe res st w
      else if cr_Outcome res = ''error'' then (if csvTerminal st then (None, st, w) else csv_terminal fe res st w)
      else if cr_Outcome res = ''closed'' then csv_closed fe res st w
      else (None, st, w))"

definition print_step :: "call_result \<Rightarrow> attempt_state \<Rightarrow> bool" where
  "print_step res st \<longleftrightarrow> \<not> printed st \<and> cr_Outcome res \<in> {''answered'', ''error'', ''closed''}"

definition hangup_step :: "('d, 'k, 'r) experiment_run \<Rightarrow> call_result \<Rightarrow> attempt_state \<Rightarrow> bool" where
  "hangup_step x res st \<longleftrightarrow> \<not> waitForODA (config (ex_ctl x)) \<and> cr_Outcome res = ''answered'' \<and> \<not> hangupSent st \<and> cr_CallID res \<noteq> []"

definition closes :: "sip_config \<Rightarrow> call_result \<Rightarrow> bool" where
  "closes cfg res \<longleftrightarrow> cr_Outcome res = ''closed'' \<or> cr_Outcome res = ''error''
     \<or> waitForODA cfg \<and> (cr_Outcome res = ''oda_done'' \<or> cr_Outcome res = ''oda_timeout'')"

text \<open>The end of an attempt, and the next one.\<close>

definition attempt_over :: "('d, 'k) ctl_env \<Rightarrow> string \<Rightarrow> ('d, 'k, 'r) experiment_run \<Rightarrow> ('d, 'k, 'r) experiment_run" where
  "attempt_over env a x0 =
     (let x = x0\<lparr>inFlight := (inFlight x0)(a := None), completed := completed x0 + 1\<rparr> in
      if started x < runs x then
        (if ExperimentInterAttemptDelayMs (config (ex_ctl x)) > 0 then x\<lparr>ex_pc := Pausing\<rparr> else startOne env Receiving x)
      else x)"

definition handle_result :: "('d, 'k) ctl_env \<Rightarrow> file_env \<Rightarrow> call_result \<Rightarrow> ('d, 'k, 'r) experiment_run \<Rightarrow> ('d, 'k, 'r) experiment_run" where
  "handle_result env fe res x =
     (let a = cr_AttemptID res in
      case inFlight x a of
        None \<Rightarrow> x
      | Some st0 \<Rightarrow>
         (let x1 = (if print_step res st0 then x\<lparr>stdout := stdout x @ [res]\<rparr> else x);
              st1 = (if print_step res st0 then st0\<lparr>printed := True\<rparr> else st0);
              x2 = (if hangup_step x1 res st1 then x1\<lparr>ex_ctl := snd (HangupCall env (cr_CallID res) (ex_ctl x1))\<rparr> else x1);
              st2 = (if hangup_step x1 res st1 then st1\<lparr>hangupSent := True\<rparr> else st1)
          in case csv_step fe res st2 (csvWriter x2) of
               (Some e, st3, w) \<Rightarrow> x2\<lparr>csvWriter := w, ex_pc := Returned (Some (''writing csv record: '' @ e))\<rparr>
             | (None, st3, w) \<Rightarrow>
                 (let st4 = (if closes (config (ex_ctl x2)) res then st3\<lparr>st_closed := True\<rparr> else st3);
                      x3 = x2\<lparr>csvWriter := w, inFlight := (inFlight x2)(a \<mapsto> st4)\<rparr>
                  in if st_closed st4 then attempt_over env a x3 else x3)))"

text \<open>The next step of the goroutine; \<open>cancelled\<close> is the \<^verbatim>\<open>select\<close> taking the end of its context.\<close>

definition exp_go :: "('d, 'k) ctl_env \<Rightarrow> file_env \<Rightarrow> bool \<Rightarrow> ('d, 'k, 'r) experiment_run \<Rightarrow> ('d, 'k, 'r) experiment_run" where
  "exp_go env fe cancelled x = (case ex_pc x of
      Priming \<Rightarrow> if started x < runs x \<and> started x < concurrency x then startOne env Priming x else x\<lparr>ex_pc := Receiving\<rparr>
    | Receiving \<Rightarrow>
        if completed x \<ge> runs x then x\<lparr>ex_pc := Returned None\<rparr>
        else if cancelled then x\<lparr>ex_pc := Returned (Some ''context canceled'')\<rparr>
        else (case recv (results (ex_ctl x)) of
            (Received res, q) \<Rightarrow> handle_result env fe res (x\<lparr>ex_ctl := (ex_ctl x)\<lparr>results := q\<rparr>\<rparr>)
          | _ \<Rightarrow> x)
    | Pausing \<Rightarrow> startOne env Receiving x
    | _ \<Rightarrow> x)"

datatype exp_event = ExGo bool | ExDial "baresip_response result" | ExCtl ctl_event

text \<open>What happens beside the experiment; the prompt waits for it, so nobody else makes a call.\<close>

definition background :: "ctl_event \<Rightarrow> bool" where
  "background e = (case e of EvCall _ _ \<Rightarrow> False | EvDialDone _ _ \<Rightarrow> False | _ \<Rightarrow> True)"

definition exp_step :: "('d, 'k) ctl_env \<Rightarrow> file_env \<Rightarrow> ('d, 'k, 'r) experiment_run \<Rightarrow> int \<times> exp_event \<Rightarrow> ('d, 'k, 'r) experiment_run" where
  "exp_step env fe x0 te =
     (let x = x0\<lparr>ex_ctl := (ex_ctl x0)\<lparr>clock := fst te\<rparr>\<rparr> in
      case snd te of
        ExGo cancelled \<Rightarrow> exp_go env fe cancelled x
      | ExDial reply \<Rightarrow> started_one reply x
      | ExCtl e \<Rightarrow> if background e then x\<lparr>ex_ctl := ctl_action env e (ex_ctl x)\<rparr> else x)"

section \<open>The program\<close>

text \<open>
  \<^verbatim>\<open>main\<close> until its loops run: the cache cleared (with the number of keys, or never done), a fatal message, an experiment,
  or the prompt, with the file of the receiver's goroutine. \<open>connected\<close> is what the connection to baresip answers.
\<close>

datatype ('c, 'd, 'k, 'r) main_outcome = Clearing "(int \<times> error option) option" | Fatal error
  | Experimenting 'c "('d, 'k, 'r) experiment_run" | Prompting 'c "('d, 'k, 'r) controller" csv

definition with_self_phone :: "sip_config \<Rightarrow> string \<Rightarrow> sip_config" where
  "with_self_phone cfg selfPhone = cfg\<lparr>SelfPhone := (if TrimSpace selfPhone \<noteq> [] then selfPhone else TrimSpace (SipAccount cfg))\<rparr>"

definition start_controller ::
  "('d, 'k) ctl_env \<Rightarrow> error option \<Rightarrow> error option \<Rightarrow> ('d, 'k, 'r) controller \<Rightarrow> ('d, 'k, 'r) controller result" where
  "start_controller env connected cacheErr s =
     (case check_cache cacheErr s of
        Some e \<Rightarrow> Inl e
      | None \<Rightarrow> (case connected of
          Some e \<Rightarrow> Inl (''connecting to baresip: '' @ e)
        | None \<Rightarrow> Inr (if Verbose (config s) then snd (command env BRegInfo s) else s)))"

definition run_mode :: "file_env \<Rightarrow> 'c \<Rightarrow> ('d, 'k, 'r) controller \<Rightarrow> ('c, 'd, 'k, 'r) main_outcome" where
  "run_mode fe dia s = (let cfg = config s in
     if ExperimentMode cfg \<noteq> [] then
       (if ExperimentPhone cfg = [] then Fatal ''-phone is required when -experiment is set''
        else (case runExperiment fe s (ExperimentMode cfg) (ExperimentPhone cfg) (ExperimentRuns cfg) (ExperimentConcurrency cfg) of
            Inl e \<Rightarrow> Fatal (''Experiment failed: '' @ e)
          | Inr x \<Rightarrow> Experimenting dia x))
     else if TrimSpace (OutputCSV cfg) \<noteq> [] then
       (case openCSV fe (TrimSpace (OutputCSV cfg)) of
          Inl e \<Rightarrow> Fatal (''CSV init failed: '' @ e)
        | Inr w \<Rightarrow> Prompting dia s w)
     else Prompting dia s None)"

definition sipcontroller_main ::
  "('c \<Rightarrow> ('d, 'k) ctl_env) \<Rightarrow> (bytes \<Rightarrow> 'c result) \<Rightarrow> (string \<Rightarrow> bytes result)
    \<Rightarrow> (string \<Rightarrow> string \<Rightarrow> string \<Rightarrow> int \<Rightarrow> 'r redis) \<Rightarrow> error option \<Rightarrow> file_env \<Rightarrow> sip_config
    \<Rightarrow> ('c, 'd, 'k, 'r) main_outcome" where
  "sipcontroller_main library configFromEnv file connect connected fe cfg =
     (if ClearCache cfg then Clearing (ClearPeerSessionCache connect (Some cfg))
      else (case LoadDIAConfigAndSelfPhone (file (DIAEnvFile cfg)) configFromEnv of
          Inl e \<Rightarrow> Fatal (''Failed to load DIA config: '' @ e)
        | Inr (dia, selfPhone) \<Rightarrow>
           (case NewSipController connect (with_self_phone cfg selfPhone) of
              (s, cacheErr) \<Rightarrow> (case start_controller (library dia) connected cacheErr s of
                  Inl e \<Rightarrow> Fatal (''Failed to start controller: '' @ e)
                | Inr s1 \<Rightarrow> run_mode fe dia s1))))"

text \<open>How the program ends once the experiment has returned.\<close>

definition experiment_exit :: "('d, 'k) ctl_env \<Rightarrow> ('d, 'k, 'r) experiment_run \<Rightarrow> error option \<times> ('d, 'k, 'r) controller" where
  "experiment_exit env x = (case ex_pc x of
      Returned (Some e) \<Rightarrow> if e = ''context canceled'' then (None, Stop env (ex_ctl x)) else (Some (''Experiment failed: '' @ e), ex_ctl x)
    | _ \<Rightarrow> (None, Stop env (ex_ctl x)))"

end
