(* ===== verification/ExperimentProps.thy ===== *)
theory ExperimentProps
  imports Experiment SipResults
begin

text \<open>
  The experiment's books in every run (calls started, over and in flight) and the calls it cannot make at the same time.
\<close>

section \<open>Attempts are numbered in order\<close>

text \<open>No event takes a session away from the manager's heap.\<close>

definition at_least :: "call \<Rightarrow> ('d, 'k, 'r) controller \<Rightarrow> bool" where
  "at_least n s \<longleftrightarrow> n \<le> next_call (callMgr s)"

lemma next_call_mono [simp]:
  "next_call (callMgr (upd_sess i f s)) = next_call (callMgr s)"
  "next_call (callMgr (snd (command env cmd s))) = next_call (callMgr s)"
  "next_call (callMgr (spawn t s)) = next_call (callMgr s)"
  "next_call (callMgr (remove_session i s)) = next_call (callMgr s)"
  "next_call (callMgr (emitResult r s)) = next_call (callMgr s)"
  "next_call (callMgr (set_state i st s)) = next_call (callMgr s)"
  "next_call (callMgr (cleanup i s)) = next_call (callMgr s)"
  "next_call (callMgr (set_error i e s)) = next_call (callMgr s)"
  by (simp_all add: upd_sess_def command_def spawn_def remove_session_def emitResult_def set_state_def cleanup_def
      set_error_def upd_call_def)

lemma next_call_results [simp]:
  "next_call (callMgr (maybeEmitAnsweredResult i s)) = next_call (callMgr s)"
  "next_call (callMgr (maybeEmitODATerminalResult i s)) = next_call (callMgr s)"
  by (auto simp: maybeEmitAnsweredResult_def maybeEmitODATerminalResult_def Let_def split: option.split)

lemma next_call_bind [simp]: "next_call (callMgr (snd (bind_outgoing ev s))) = next_call (callMgr s)"
  by (auto simp: bind_outgoing_def BindOutgoingCallID_def Let_def upd_call_def set_pending_def set_callid_def
      split: prod.split list.split)

lemma next_call_new:
  "next_call (callMgr (snd (new_incoming ev s))) = Suc (next_call (callMgr s))"
  "new_outgoing p e s = (i, s1) \<Longrightarrow> i = next_call (callMgr s) \<and> next_call (callMgr s1) = Suc (next_call (callMgr s))"
  by (auto simp: new_incoming_def new_outgoing_def NewIncomingSession_def NewOutgoingAttempt_def new_call_def Let_def
      set_callid_def set_pending_def split: prod.splits)

interpretation grows: step_invariant "at_least n" env for n env
proof unfold_locales
  show "at_least n s \<Longrightarrow> new_outgoing p e s = (i, s1) \<Longrightarrow> cr_Outcome r = ''error'' \<Longrightarrow>
      at_least n (remove_session i (cleanup i (set_state i StateClosed (emitResult r s1))))"
    for s s1 :: "('a, 'b, 'c) controller" and n p e i r
    using next_call_new(2) [of p e s i s1] by (simp add: at_least_def)
  show "at_least n s \<Longrightarrow> active_for env p s = None \<Longrightarrow> at_least n (snd (new_outgoing p e s))"
    for s :: "('a, 'b, 'c) controller" and n env p e
    using next_call_new(2) [of p e s "fst (new_outgoing p e s)"] by (simp add: at_least_def)
qed (simp_all add: at_least_def next_call_new answerCall_def)

lemma action_grows: "next_call (callMgr s) \<le> next_call (callMgr (ctl_action env e s))"
  using grows.ctl_step_inv [of "next_call (callMgr s)" s env "(clock s, e)"] by (simp add: ctl_step_def at_least_def)

section \<open>Calls of an experiment\<close>

definition attempt_name :: "call \<Rightarrow> string" where
  "attempt_name i = attempt_id (of_nat (Suc i))"

lemma attempt_name_inject: "i < 2 ^ 64 - 1 \<Longrightarrow> j < 2 ^ 64 - 1 \<Longrightarrow> attempt_name i = attempt_name j \<longleftrightarrow> i = j"
  using attempt_id_inject [of "Suc i" "Suc j"] by (simp add: attempt_name_def)

lemma initiate_allocates:
  assumes "InitiateOutgoingCall env phone prot s = (None, s')"
  shows "\<exists>t. last (dialing s') = (next_call (callMgr s), t)"
    and "next_call (callMgr s') = Suc (next_call (callMgr s))"
proof -
  define s1 where "s1 = (if Verbose (config s) then snd (command env BRegInfo s) else s)"
  have s1: "next_call (callMgr s1) = next_call (callMgr s)" by (simp add: s1_def)
  obtain i s2 where n: "new_outgoing (ExtractPhoneFromURI phone) prot s1 = (i, s2)"
    by (cases "new_outgoing (ExtractPhoneFromURI phone) prot s1")
  have i: "i = next_call (callMgr s)" "next_call (callMgr s2) = Suc (next_call (callMgr s))"
    using next_call_new(2) [OF n] s1 by simp_all
  have none: "active_for env (ExtractPhoneFromURI phone) s1 = None"
    using assms unfolding InitiateOutgoingCall_def Let_def s1_def [symmetric] by (auto simp: n split: option.splits)
  have s': "s' = (let s3 = set_state i StateDIAInitializing s2; s4 = (if prot then spawn (TOutgoingDIA i) s3 else s3);
      s5 = snd (command env (BDial phone) s4) in s5\<lparr>dialing := dialing s5 @ [(i, clock s5)]\<rparr>)"
    using assms unfolding InitiateOutgoingCall_def Let_def s1_def [symmetric] by (simp add: n none)
  show "\<exists>t. last (dialing s') = (next_call (callMgr s), t)" by (simp add: s' Let_def i)
  show "next_call (callMgr s') = Suc (next_call (callMgr s))" by (simp add: s' Let_def i)
qed

lemma initiate_grows: "next_call (callMgr s) \<le> next_call (callMgr (snd (InitiateOutgoingCall env phone prot s)))"
  using grows.InitiateOutgoingCall_inv [of "next_call (callMgr s)" s env phone prot] by (simp add: at_least_def)

lemma answered_attempt [simp]: "AttemptID (sess (maybeEmitAnsweredResult i s) j) = AttemptID (sess s j)"
  by (auto simp: maybeEmitAnsweredResult_def Let_def emitResult_def upd_sess_def upd_call_def split: option.split)

lemma dial_finish_attempt:
  "dial_finish i t reply s = ((a, None), s') \<Longrightarrow> a = AttemptID (sess s i)"
  by (auto simp: dial_finish_def Let_def upd_sess_def upd_call_def split: sum.splits if_splits)

lemma dial_finish_grows: "next_call (callMgr (snd (dial_finish i t reply s))) = next_call (callMgr s)"
  by (auto simp: dial_finish_def dial_failed_def Let_def split: sum.splits)

section \<open>The books\<close>

fun dials :: "exp_pc \<Rightarrow> int" where
  "dials (AwaitDial back e) = 1"
| "dials Pausing = 1"
| "dials _ = 0"

fun awaits :: "exp_pc \<Rightarrow> call option" where
  "awaits (AwaitDial back e) = Some (fst e)"
| "awaits _ = None"

fun back_ok :: "exp_pc \<Rightarrow> bool" where
  "back_ok (AwaitDial back e) = (back = Priming \<or> back = Receiving)"
| "back_ok _ = True"

definition counts_ok :: "call \<Rightarrow> ('d, 'k, 'r) experiment_run \<Rightarrow> bool" where
  "counts_ok n x \<longleftrightarrow> finite (dom (inFlight x)) \<and> dom (inFlight x) \<subseteq> attempt_name ` {..<n}
     \<and> started x = completed x + int (card (dom (inFlight x)))
     \<and> started x + dials (ex_pc x) \<le> runs x \<and> int (card (dom (inFlight x))) + dials (ex_pc x) \<le> concurrency x
     \<and> (\<forall>i. awaits (ex_pc x) = Some i \<longrightarrow> i < n \<and> attempt_name i \<notin> dom (inFlight x)) \<and> back_ok (ex_pc x)
     \<and> completed x \<ge> 0 \<and> (ex_pc x = Returned None \<longrightarrow> completed x = runs x)"

definition books :: "('d, 'k, 'r) experiment_run \<Rightarrow> bool" where
  "books x \<longleftrightarrow> once_ok (ex_ctl x)
     \<and> (next_call (callMgr (ex_ctl x)) < 2 ^ 64 \<longrightarrow> counts_ok (next_call (callMgr (ex_ctl x))) x)"

lemma counts_mono: "counts_ok m x \<Longrightarrow> m \<le> n \<Longrightarrow> counts_ok n x"
  by (fastforce simp: counts_ok_def)

lemma dials_nonneg [simp]: "0 \<le> dials pc"
  by (cases pc) simp_all

lemma counts_return: "counts_ok n (x\<lparr>ex_pc := pc\<rparr>) \<Longrightarrow> counts_ok n (x\<lparr>ex_pc := Returned (Some e)\<rparr>)"
  by (cases pc) (auto simp: counts_ok_def)

lemma books_return:
  assumes "books (x\<lparr>ex_pc := pc\<rparr>)"
  shows "books (x\<lparr>ex_pc := Returned (Some e)\<rparr>)"
  using assms counts_return [where x = x and pc = pc and e = e] by (simp add: books_def)

lemma books_give_up: "books x \<Longrightarrow> books (x\<lparr>ex_pc := Returned (Some e)\<rparr>)"
  using books_return [where x = x and pc = "ex_pc x"] by simp

lemma books_ctl:
  assumes "books x" "once_ok s" "next_call (callMgr (ex_ctl x)) \<le> next_call (callMgr s)"
  shows "books (x\<lparr>ex_ctl := s\<rparr>)"
  using assms counts_mono [of "next_call (callMgr (ex_ctl x))" x "next_call (callMgr s)"]
  by (auto simp: books_def counts_ok_def)

lemma startOne_books:
  assumes b: "books (x\<lparr>ex_pc := Pausing\<rparr>)" and bk: "back = Priming \<or> back = Receiving"
  shows "books (startOne env back x)"
proof -
  let ?s = "ex_ctl x"
  obtain r s' where i: "InitiateOutgoingCall env (ex_phone x) (ex_protocol x) ?s = (r, s')"
    by (cases "InitiateOutgoingCall env (ex_phone x) (ex_protocol x) ?s")
  have once: "once_ok s'"
    using results_once.InitiateOutgoingCall_inv [of ?s env "ex_phone x" "ex_protocol x"] b i by (simp add: books_def)
  show ?thesis
  proof (cases r)
    case (Some ae)
    have "next_call (callMgr ?s) \<le> next_call (callMgr s')"
      using initiate_grows [of ?s env "ex_phone x" "ex_protocol x"] i by simp
    then have "books (x\<lparr>ex_pc := Pausing, ex_ctl := s'\<rparr>)" using books_ctl [OF b once] by simp
    moreover have "x\<lparr>ex_pc := Pausing, ex_ctl := s'\<rparr> = x\<lparr>ex_ctl := s', ex_pc := Pausing\<rparr>" by (cases x) simp
    ultimately have "books (x\<lparr>ex_ctl := s', ex_pc := Pausing\<rparr>)" by metis
    then have "books (x\<lparr>ex_ctl := s', ex_pc := Returned (Some (snd ae))\<rparr>)"
      using books_return [where x = "x\<lparr>ex_ctl := s'\<rparr>" and pc = Pausing] by simp
    then show ?thesis using Some i by (cases ae) (simp add: startOne_def)
  next
    case None
    note al = initiate_allocates [OF i [unfolded None]]
    then obtain t where t: "last (dialing s') = (next_call (callMgr ?s), t)" by blast
    let ?n = "next_call (callMgr ?s)"
    have "counts_ok (Suc ?n) (x\<lparr>ex_ctl := s', ex_pc := AwaitDial back (?n, t)\<rparr>)" if "Suc ?n < 2 ^ 64"
    proof -
      have c: "counts_ok ?n (x\<lparr>ex_pc := Pausing\<rparr>)" using b that by (simp add: books_def)
      have "attempt_name ?n \<notin> attempt_name ` {..<?n}"
      proof
        assume "attempt_name ?n \<in> attempt_name ` {..<?n}"
        then obtain j where "j < ?n" "attempt_name ?n = attempt_name j" by auto
        then show False using attempt_name_inject [of ?n j] that by simp
      qed
      moreover have "dom (inFlight x) \<subseteq> attempt_name ` {..<?n}" using c by (simp add: counts_ok_def)
      ultimately have "attempt_name ?n \<notin> dom (inFlight x)" by (rule contra_subsetD [rotated])
      then show ?thesis using counts_mono [OF c, of "Suc ?n"] bk by (simp add: counts_ok_def)
    qed
    then show ?thesis using None i once al(2) by (simp add: startOne_def t books_def)
  qed
qed

lemma started_one_books:
  assumes b: "books x"
  shows "books (started_one reply x)"
proof (cases "ex_pc x")
  case (AwaitDial bk e)
  obtain i t where e: "e = (i, t)" by (cases e)
  let ?s = "(ex_ctl x)\<lparr>dialing := remove1 (i, t) (dialing (ex_ctl x))\<rparr>"
  obtain a r s' where d: "dial_finish i t reply ?s = ((a, r), s')" by (cases "dial_finish i t reply ?s") auto
  let ?n = "next_call (callMgr (ex_ctl x))"
  have once: "once_ok s'" and n: "next_call (callMgr s') = ?n"
    using results_once.dial_finish_inv [of ?s i t reply] dial_finish_grows [of i t reply ?s] b d
    by (simp_all add: books_def once_ok_def)
  show ?thesis
  proof (cases r)
    case (Some err)
    have "books (x\<lparr>ex_ctl := s'\<rparr>)" using books_ctl [OF b once] n by simp
    then have "books (x\<lparr>ex_ctl := s', ex_pc := Returned (Some err)\<rparr>)"
      using books_return [where x = "x\<lparr>ex_ctl := s'\<rparr>" and pc = "ex_pc x"] by simp
    then show ?thesis using Some d AwaitDial e by (simp add: started_one_def)
  next
    case None
    then have a: "a = AttemptID (sess (ex_ctl x) i)" using dial_finish_attempt [of i t reply ?s] d by simp
    have "counts_ok ?n (x\<lparr>ex_ctl := s', inFlight := (inFlight x)(a \<mapsto> new_attempt_state), started := started x + 1,
        ex_pc := bk\<rparr>)" if "?n < 2 ^ 64"
    proof -
      have c: "counts_ok ?n x" and "attempts_ok (callMgr (ex_ctl x))" using b that by (simp_all add: books_def once_ok_def)
      then have "i < ?n" "attempt_name i \<notin> dom (inFlight x)" "bk = Priming \<or> bk = Receiving" "a = attempt_name i"
        using a by (auto simp: counts_ok_def AwaitDial e attempts_ok_def attempt_name_def)
      with c show ?thesis by (auto simp: counts_ok_def AwaitDial e)
    qed
    then show ?thesis using None d AwaitDial e once n by (simp add: started_one_def books_def)
  qed
qed (use b in \<open>simp_all add: started_one_def\<close>)

lemma attempt_over_books:
  assumes b: "books x" and a: "inFlight x a \<noteq> None" and pc: "ex_pc x = Receiving"
  shows "books (attempt_over env a x)"
proof -
  let ?y = "x\<lparr>inFlight := (inFlight x)(a := None), completed := completed x + 1\<rparr>"
  let ?n = "next_call (callMgr (ex_ctl x))"
  have card: "int (card (dom (inFlight x))) = int (card (dom (inFlight x) - {a})) + 1" if "finite (dom (inFlight x))"
    using card_Suc_Diff1 [OF that, of a] a by (simp add: domIff)
  have y: "counts_ok ?n ?y" "started x < runs x \<longrightarrow> counts_ok ?n (?y\<lparr>ex_pc := Pausing\<rparr>)" if "?n < 2 ^ 64"
  proof -
    have c: "counts_ok ?n x" using b that by (simp add: books_def)
    then show "counts_ok ?n ?y" "started x < runs x \<longrightarrow> counts_ok ?n (?y\<lparr>ex_pc := Pausing\<rparr>)"
      using card by (auto simp: counts_ok_def pc)
  qed
  have "books ?y" "started x < runs x \<longrightarrow> books (?y\<lparr>ex_pc := Pausing\<rparr>)"
    using y b by (simp_all add: books_def)
  then show ?thesis using startOne_books [of ?y Receiving env] by (simp add: attempt_over_def Let_def)
qed

lemma books_output [simp]: "books (x\<lparr>stdout := out\<rparr>) = books x" "books (x\<lparr>csvWriter := w\<rparr>) = books x"
  by (simp_all add: books_def counts_ok_def)

lemma books_attempt: "books x \<Longrightarrow> inFlight x a \<noteq> None \<Longrightarrow> books (x\<lparr>inFlight := (inFlight x)(a \<mapsto> st)\<rparr>)"
  by (auto simp: books_def counts_ok_def insert_absorb domIff)

lemma hangup_books:
  assumes b: "books x"
  shows "books (x\<lparr>ex_ctl := snd (HangupCall env k (ex_ctl x))\<rparr>)"
proof (rule books_ctl [OF b])
  show "once_ok (snd (HangupCall env k (ex_ctl x)))"
    using b by (intro results_once.HangupCall_inv) (simp add: books_def)
  show "next_call (callMgr (ex_ctl x)) \<le> next_call (callMgr (snd (HangupCall env k (ex_ctl x))))"
    using grows.HangupCall_inv [of "next_call (callMgr (ex_ctl x))" "ex_ctl x"] by (simp add: at_least_def)
qed

lemma handle_result_books:
  assumes b: "books x" and pc: "ex_pc x = Receiving"
  shows "books (handle_result env fe res x)"
proof (cases "inFlight x (cr_AttemptID res)")
  case (Some st0)
  let ?a = "cr_AttemptID res"
  define x1 where "x1 = (if print_step res st0 then x\<lparr>stdout := stdout x @ [res]\<rparr> else x)"
  define st1 where "st1 = (if print_step res st0 then st0\<lparr>printed := True\<rparr> else st0)"
  define x2 where "x2 = (if hangup_step x1 res st1 then x1\<lparr>ex_ctl := snd (HangupCall env (cr_CallID res) (ex_ctl x1))\<rparr> else x1)"
  define st2 where "st2 = (if hangup_step x1 res st1 then st1\<lparr>hangupSent := True\<rparr> else st1)"
  have x1: "books x1" "ex_pc x1 = Receiving" "inFlight x1 = inFlight x" using b pc by (simp_all add: x1_def)
  then have x2: "books x2" "ex_pc x2 = Receiving" "inFlight x2 ?a \<noteq> None"
    using hangup_books [OF x1(1)] Some by (simp_all add: x2_def)
  obtain r st3 w where c: "csv_step fe res st2 (csvWriter x2) = (r, st3, w)" by (cases "csv_step fe res st2 (csvWriter x2)") auto
  define st4 where "st4 = (if closes (config (ex_ctl x2)) res then st3\<lparr>st_closed := True\<rparr> else st3)"
  define x3 where "x3 = x2\<lparr>csvWriter := w, inFlight := (inFlight x2)(?a \<mapsto> st4)\<rparr>"
  have x3: "books x3" "ex_pc x3 = Receiving" "inFlight x3 ?a \<noteq> None"
    using books_attempt [of "x2\<lparr>csvWriter := w\<rparr>" ?a st4] x2 by (simp_all add: x3_def)
  have e: "handle_result env fe res x = (case r of
      Some e \<Rightarrow> x2\<lparr>csvWriter := w, ex_pc := exp_pc.Returned (Some (''writing csv record: '' @ e))\<rparr>
    | None \<Rightarrow> if st_closed st4 then attempt_over env ?a x3 else x3)"
    unfolding handle_result_def Let_def Some option.case x1_def [symmetric] st1_def [symmetric] x2_def [symmetric]
      st2_def [symmetric] c by (simp add: st4_def x3_def split: option.split)
  show ?thesis
  proof (cases r)
    case None
    then show ?thesis using attempt_over_books [OF x3(1,3,2)] x3(1) by (simp add: e)
  next
    case (Some err)
    then show ?thesis
      using books_give_up [of "x2\<lparr>csvWriter := w\<rparr>"] x2 by (simp add: e)
  qed
qed (simp add: handle_result_def b)

lemma exp_go_books:
  assumes b: "books x"
  shows "books (exp_go env fe cancelled x)"
proof (cases "ex_pc x")
  case Priming
  have "books (x\<lparr>ex_pc := Pausing\<rparr>)" if "started x < runs x" "started x < concurrency x"
    using b that by (auto simp: books_def counts_ok_def Priming)
  moreover have "books (x\<lparr>ex_pc := Receiving\<rparr>)" using b by (auto simp: books_def counts_ok_def Priming)
  ultimately show ?thesis by (auto simp: exp_go_def Priming intro: startOne_books)
next
  case Receiving
  have r: "books (x\<lparr>ex_pc := exp_pc.Returned None\<rparr>)" if "completed x \<ge> runs x"
    using b that by (auto simp: books_def counts_ok_def Receiving)
  have s: "books (x\<lparr>ex_pc := exp_pc.Returned (Some e)\<rparr>)" for e
    using books_give_up [OF b] .
  have "books (x\<lparr>ex_ctl := (ex_ctl x)\<lparr>results := q\<rparr>\<rparr>)" for q
    using b by (auto simp: books_def once_ok_def counts_ok_def)
  then have "books (handle_result env fe res (x\<lparr>ex_ctl := (ex_ctl x)\<lparr>results := q\<rparr>\<rparr>))" for res q
    by (rule handle_result_books) (simp add: Receiving)
  with r s b show ?thesis by (auto simp: exp_go_def Receiving split: prod.split recv_outcome.split)
next
  case Pausing
  then have e: "x\<lparr>ex_pc := Pausing\<rparr> = x" by (cases x) simp
  show ?thesis using startOne_books [of x Receiving env] b unfolding e by (simp add: exp_go_def Pausing)
qed (use b in \<open>simp_all add: exp_go_def\<close>)

lemma exp_step_books:
  assumes b: "books x"
  shows "books (exp_step env fe x te)"
proof -
  let ?x = "x\<lparr>ex_ctl := (ex_ctl x)\<lparr>clock := fst te\<rparr>\<rparr>"
  have x: "books ?x" using b by (auto simp: books_def once_ok_def counts_ok_def)
  have "books (?x\<lparr>ex_ctl := ctl_action env e (ex_ctl ?x)\<rparr>)" for e
  proof (rule books_ctl [OF x _ action_grows])
    show "once_ok (ctl_action env e (ex_ctl ?x))"
      using results_once.ctl_step_inv [of "ex_ctl x" env "(fst te, e)"] b by (simp add: ctl_step_def books_def)
  qed
  with x show ?thesis
    by (auto simp: exp_step_def Let_def exp_go_books started_one_books split: exp_event.split)
qed

interpretation experiment_books: invariant_machine "exp_step env fe" books for env fe
  by unfold_locales (rule exp_step_books)

lemma runExperiment_books:
  assumes "runExperiment fe s mode phone n conc = Inr x" "once_ok s"
  shows "books x \<and> runs x = n \<and> concurrency x = max 1 conc"
  using assms by (auto simp: runExperiment_def books_def counts_ok_def split: if_splits sum.splits)

text \<open>
  C16. The books of an experiment balance in every run on a controller that was started new and makes fewer than 2^64 attempts,
  whatever baresip, the relay and the timers do in between: the calls started are those that are over and those in flight, no more are started than
  asked for, no more are in flight at a time than allowed, and the experiment returns without an error only when all are over.
\<close>

theorem experiment_accounts:
  assumes "runExperiment fe (foldl (ctl_step env) (fst (NewSipController connect cfg)) tes) mode phone n conc = Inr x0"
    and "x = foldl (exp_step env fe) x0 es" and "next_call (callMgr (ex_ctl x)) < 2 ^ 64"
  shows "started x = completed x + int (card (dom (inFlight x))) \<and> started x \<le> runs x \<and> runs x0 = n
    \<and> int (card (dom (inFlight x))) \<le> concurrency x \<and> concurrency x0 = max 1 conc
    \<and> (ex_pc x = Returned None \<longrightarrow> completed x = runs x \<and> inFlight x = Map.empty)"
proof -
  have once: "once_ok (foldl (ctl_step env) (fst (NewSipController connect cfg)) tes)"
    by (rule results_once.ctl_run_inv [OF once_start])
  have x0: "books x0" "runs x0 = n" "concurrency x0 = max 1 conc" using runExperiment_books [OF assms(1) once] by simp_all
  have "books x" unfolding assms(2) by (rule experiment_books.run_inv [OF x0(1)])
  then have c: "counts_ok (next_call (callMgr (ex_ctl x))) x" using assms(3) by (simp add: books_def)
  have d: "dials (ex_pc x) \<ge> 0" by simp
  have "inFlight x = Map.empty" if "ex_pc x = Returned None"
  proof -
    have "card (dom (inFlight x)) = 0" "finite (dom (inFlight x))" using c that by (auto simp: counts_ok_def)
    then show ?thesis by simp
  qed
  with c d x0 show ?thesis unfolding counts_ok_def by linarith
qed

named_theorems exp_eval \<open>definitions for evaluating an experiment\<close>

lemmas experiment_defs = exp_step_def exp_go_def started_one_def startOne_def handle_result_def print_step_def
  hangup_step_def closes_def attempt_over_def csv_step_def csv_answered_def csv_oda_def csv_terminal_def csv_closed_def
  write_pending_def writeCSVRecord_def new_attempt_state_def background_def

lemmas [exp_eval] = ctl_eval experiment_defs [unfolded Let_def]

definition demo_files :: file_env where
  "demo_files = \<lparr>path_dir = (\<lambda>p. ''.''), fs_mkdir = (\<lambda>p. None), fs_create = (\<lambda>p. None), fs_write = (\<lambda>rows r. None),
     fs_flush = (\<lambda>rows r. None)\<rparr>"

definition demo_run :: "int \<Rightarrow> int \<Rightarrow> csv \<Rightarrow> (unit, client_session, keyspace) experiment_run" where
  "demo_run n conc w = \<lparr>ex_ctl = demo_ctl, ex_phone = ''+1'', ex_protocol = False, runs = n, concurrency = conc, started = 0,
     completed = 0, inFlight = Map.empty, csvWriter = w, stdout = [], ex_pc = Priming\<rparr>"

lemma demo_experiment: "runExperiment demo_files demo_ctl ''baseline'' ''+1'' n conc =
    (if n \<le> 0 then Inl ''runs must be > 0'' else Inr (demo_run n (max 1 conc) None))"
proof -
  have "to_lower ''baseline'' = ''baseline''" by code_simp
  then show ?thesis
    by (simp add: runExperiment_def demo_run_def demo_ctl_state demo_config_def flag_defaults_def)
qed

definition demo_ok :: "baresip_response result" where
  "demo_ok = Inr \<lparr>rs_ok = True, rs_data = [], rs_token = []\<rparr>"

definition demo_exp_events :: "(int \<times> exp_event) list" where
  "demo_exp_events = [(1000000, ExGo False), (2000000, ExDial demo_ok), (3000000, ExGo False),
     (4000000, ExCtl (call_event ''CALL_CLOSED'' ''c7'' ''sip:+1@h'')), (5000000, ExGo False), (6000000, ExGo False)]"

lemma demo_run_eval: "let x = foldl (exp_step (demo_ctl_env True) demo_files) (demo_run 1 1 None) demo_exp_events in
    started x = 1 \<and> ex_pc x = Returned None \<and> next_call (callMgr (ex_ctl x)) = 1"
  unfolding Let_def
  by (simp add: exp_eval demo_exp_events_def demo_run_def demo_ok_def cong: prod.case_cong_weak on_ok_weak)

theorem experiment_accounts_witness:
  "\<exists>x. x = foldl (exp_step (demo_ctl_env True) demo_files) (demo_run 1 1 None) demo_exp_events \<and> started x = 1
    \<and> completed x = runs x \<and> inFlight x = Map.empty \<and> ex_pc x = Returned None"
proof -
  let ?x = "foldl (exp_step (demo_ctl_env True) demo_files) (demo_run 1 1 None) demo_exp_events"
  have x: "started ?x = 1" "ex_pc ?x = Returned None" "next_call (callMgr (ex_ctl ?x)) < 2 ^ 64"
    using demo_run_eval by (simp_all add: Let_def)
  have "runExperiment demo_files (foldl (ctl_step (demo_ctl_env True)) (fst (NewSipController (\<lambda>_ _ _ _. mem_redis Map.empty) demo_config)) [])
      ''baseline'' ''+1'' 1 1 = Inr (demo_run 1 1 None)"
    using demo_experiment [of 1 1] by (simp add: demo_ctl_def)
  from experiment_accounts [OF this refl x(3)] x(1,2) show ?thesis by blast
qed

section \<open>Two calls to one phone\<close>

lemma active_command [simp]: "active_for env p (snd (command env c s)) = active_for env p s"
  by (simp add: active_for_def command_def)

lemma start_busy:
  assumes "active_for env (ExtractPhoneFromURI (ex_phone x)) (ex_ctl x) \<noteq> None"
  shows "\<exists>e. ex_pc (startOne env bk x) = Returned (Some e)"
  using assms by (auto simp: startOne_def InitiateOutgoingCall_def Let_def split: option.split prod.split)

lemma returned_stays: "ex_pc x = Returned r \<Longrightarrow> ex_pc (exp_step env fe x te) = Returned r"
  by (auto simp: exp_step_def exp_go_def started_one_def Let_def split: exp_event.split)

lemma active_found:
  assumes "i \<in> snd ` set (byAttempt (callMgr s))" "PeerPhone (sess s i) = p" "State (sess s i) \<noteq> StateClosed"
    and "\<forall>xs. set (iter_order env xs) = set xs"
  shows "active_for env p s \<noteq> None"
  using assms by (auto simp: active_for_def GetActiveSessionByPeer_def GetAllSessions_def find_None_iff)

lemma answered_keeps [simp]:
  "byAttempt (callMgr (maybeEmitAnsweredResult i s)) = byAttempt (callMgr s)"
  "PeerPhone (sess (maybeEmitAnsweredResult i s) j) = PeerPhone (sess s j)"
  "config (maybeEmitAnsweredResult i s) = config s"
  by (auto simp: maybeEmitAnsweredResult_def Let_def emitResult_def upd_sess_def upd_call_def split: option.split)

lemma dial_finish_active:
  assumes "dial_finish i t reply s = ((a, None), s')"
  shows "byAttempt (callMgr s') = byAttempt (callMgr s)" "PeerPhone (sess s' j) = PeerPhone (sess s j)"
    "State (sess s' i) = StateBaresipDialing"
  using assms
  by (auto simp: dial_finish_def Let_def upd_sess_def upd_call_def set_state_def SetState_def split: sum.splits if_splits)

lemma initiate_registers:
  assumes "InitiateOutgoingCall env phone prot s = (None, s')"
  shows "next_call (callMgr s) \<in> snd ` set (byAttempt (callMgr s'))"
    and "PeerPhone (sess s' (next_call (callMgr s))) = ExtractPhoneFromURI phone"
proof -
  define s1 where "s1 = (if Verbose (config s) then snd (command env BRegInfo s) else s)"
  have s1: "callMgr s1 = callMgr s" by (simp add: s1_def command_def)
  obtain i s2 where n: "new_outgoing (ExtractPhoneFromURI phone) prot s1 = (i, s2)"
    by (cases "new_outgoing (ExtractPhoneFromURI phone) prot s1")
  have i: "i = next_call (callMgr s)" using next_call_new(2) [OF n] s1 by simp
  have none: "active_for env (ExtractPhoneFromURI phone) s1 = None"
    using assms unfolding InitiateOutgoingCall_def Let_def s1_def [symmetric] by (auto simp: n split: option.splits)
  have m: "(i, callMgr s2) = NewOutgoingAttempt (clock s1) (ExtractPhoneFromURI phone) [] prot (callMgr s)"
    using n by (auto simp: new_outgoing_def s1 split: prod.splits)
  have "\<exists>k. (k, i) \<in> set (byAttempt (callMgr s2))" "PeerPhone (sess s2 i) = ExtractPhoneFromURI phone"
    using m by (auto simp: NewOutgoingAttempt_def new_call_def Let_def set_pending_def NewCallSession_def update_conv'
        intro!: exI map_of_SomeD)
  moreover have "callMgr s' = callMgr (set_state i StateDIAInitializing s2)"
    using assms unfolding InitiateOutgoingCall_def Let_def s1_def [symmetric] by (auto simp: n none spawn_def command_def)
  ultimately have "i \<in> snd ` set (byAttempt (callMgr s'))" "PeerPhone (sess s' i) = ExtractPhoneFromURI phone"
    by (force simp: set_state_def upd_sess_def upd_call_def SetState_def)+
  then show "next_call (callMgr s) \<in> snd ` set (byAttempt (callMgr s'))"
    "PeerPhone (sess s' (next_call (callMgr s))) = ExtractPhoneFromURI phone" by (simp_all add: i)
qed

lemma active_clock [simp]: "active_for env p (s\<lparr>clock := t\<rparr>) = active_for env p s"
  by (simp add: active_for_def)

text \<open>The first call of an experiment fails, or is active when its dial is over.\<close>

definition call_active :: "('d, 'k) ctl_env \<Rightarrow> ('d, 'k, 'r) experiment_run \<Rightarrow> bool" where
  "call_active env x \<longleftrightarrow> active_for env (ExtractPhoneFromURI (ex_phone x)) (ex_ctl x) \<noteq> None"

lemma second_call:
  assumes "ex_pc x = Priming" "started x < runs x" "started x < concurrency x" and "call_active env x"
  shows "\<exists>e. ex_pc (exp_step env fe x (t, ExGo c)) = Returned (Some e)"
  using assms start_busy [of env "x\<lparr>ex_ctl := (ex_ctl x)\<lparr>clock := t\<rparr>\<rparr>" Priming]
  by (simp add: exp_step_def exp_go_def call_active_def Let_def)

lemma dialled_call:
  assumes "ex_pc x = AwaitDial bk (i, u)" and "i \<in> snd ` set (byAttempt (callMgr (ex_ctl x)))"
    and "PeerPhone (sess (ex_ctl x) i) = ExtractPhoneFromURI (ex_phone x)" and "\<forall>xs. set (iter_order env xs) = set xs"
    and "y = exp_step env fe x (t, ExDial reply)"
  shows "(\<exists>e. ex_pc y = Returned (Some e)) \<or>
    ex_pc y = bk \<and> started y = started x + 1 \<and> runs y = runs x \<and> concurrency y = concurrency x \<and> call_active env y"
proof -
  let ?s = "(ex_ctl x)\<lparr>clock := t, dialing := remove1 (i, u) (dialing (ex_ctl x))\<rparr>"
  obtain a r s2 where d: "dial_finish i u reply ?s = ((a, r), s2)" by (cases "dial_finish i u reply ?s") auto
  show ?thesis
  proof (cases r)
    case None
    have "active_for env (ExtractPhoneFromURI (ex_phone x)) s2 \<noteq> None"
      using dial_finish_active [OF d [unfolded None]] assms(2-4) by (intro active_found [of i]) simp_all
    then show ?thesis using d None assms(1,5) by (simp add: exp_step_def started_one_def call_active_def Let_def)
  qed (use d assms(1,5) in \<open>simp add: exp_step_def started_one_def Let_def\<close>)
qed

text \<open>
  C37. An experiment with more than one call in flight aborts when nothing happens between its first two calls: the second
  call finds the first one active and its error ends the experiment.
\<close>

theorem concurrent_calls_abort:
  assumes "runExperiment fe s mode phone n conc = Inr x" and "n \<ge> 2" "conc \<ge> 2"
    and "\<forall>xs. set (iter_order env xs) = set xs"
  shows "\<exists>e. ex_pc (foldl (exp_step env fe) x [(t1, ExGo c1), (t2, ExDial reply), (t3, ExGo c2)]) = Returned (Some e)"
proof -
  let ?x1 = "exp_step env fe x (t1, ExGo c1)" let ?x2 = "exp_step env fe ?x1 (t2, ExDial reply)"
  have x: "ex_pc x = Priming" "started x = 0" "runs x = n" "concurrency x = conc" "ex_phone x = phone"
    using assms(1-3) by (auto simp: runExperiment_def split: if_splits sum.splits)
  let ?x = "x\<lparr>ex_ctl := (ex_ctl x)\<lparr>clock := t1\<rparr>\<rparr>"
  have go1: "?x1 = startOne env Priming ?x" using assms(2,3) x by (simp add: exp_step_def exp_go_def Let_def)
  obtain r s1 where i: "InitiateOutgoingCall env phone (ex_protocol x) (ex_ctl ?x) = (r, s1)"
    by (cases "InitiateOutgoingCall env phone (ex_protocol x) (ex_ctl ?x)")
  have "(\<exists>e. ex_pc ?x2 = Returned (Some e)) \<or>
    ex_pc ?x2 = Priming \<and> started ?x2 = 1 \<and> runs ?x2 = n \<and> concurrency ?x2 = conc \<and> call_active env ?x2"
  proof (cases r)
    case None
    note i = i [unfolded None]
    let ?i = "next_call (callMgr (ex_ctl ?x))"
    obtain u where u: "last (dialing s1) = (?i, u)" using initiate_allocates(1) [OF i] by blast
    have y: "?x1 = ?x\<lparr>ex_ctl := s1, ex_pc := AwaitDial Priming (?i, u)\<rparr>" using i x u by (simp add: go1 startOne_def)
    show ?thesis using dialled_call [of ?x1 Priming ?i u, OF _ _ _ assms(4) refl] initiate_registers [OF i] x
      by (simp add: y)
  qed (use i x in \<open>auto simp: go1 startOne_def returned_stays\<close>)
  then show ?thesis using second_call [of ?x2] returned_stays [of ?x2] assms(2,3) by auto
qed

lemma demo_order: "set (iter_order (demo_ctl_env v) xs) = set xs"
  by (simp add: demo_ctl_env_def)

theorem concurrent_calls_abort_witness:
  "\<exists>e. ex_pc (foldl (exp_step (demo_ctl_env True) demo_files) (demo_run 2 2 None)
      [(1, ExGo False), (2, ExDial demo_ok), (3, ExGo False)]) = Returned (Some e)"
  using concurrent_calls_abort [where env = "demo_ctl_env True" and fe = demo_files and s = demo_ctl and mode = "''baseline''"
      and phone = "''+1''" and n = 2 and conc = 2] demo_experiment [of 2 2] demo_order by simp

end
