(* ===== verification/ExperimentCsv.thy ===== *)
theory ExperimentCsv
  imports ExperimentProps
begin

text \<open>
  What reaches the CSV files: the rows of one attempt of an experiment, an ODA result that gets none, and the rows of a
  receiver.
\<close>

section \<open>What reaches the CSV file\<close>


text \<open>A run in which the response to the dial comes after the ODA result, as it may when baresip answers late.\<close>

definition demo_late_dial :: "(int \<times> exp_event) list" where
  "demo_late_dial = [(1000000, ExGo False), (2000000, ExCtl (EvTask 0)), (3000000, ExCtl (EvMessage 0 ''Aresp'')),
     (4000000, ExCtl (EvMessage 0 ''Rresp'')), (5000000, ExCtl (call_event ''CALL_ANSWERED'' ''c7'' ''sip:+1@h'')),
     (6000000, ExCtl (EvTask 0)), (7000000, ExCtl (EvMessage 0 ''oresp'')), (8000000, ExDial demo_ok), (9000000, ExGo False)]"

lemma demo_late_dial_eval:
  "let x = foldl (exp_step (demo_ctl_env True) demo_files) ((demo_run 1 1 (Some [csv_header]))\<lparr>ex_protocol := True\<rparr>) demo_late_dial in
     map (\<lambda>r. (cr_Outcome r, cr_AttemptID r)) (ch_buf (results (ex_ctl x))) = [(''oda_done'', ''a1''), (''answered'', ''a1'')]
     \<and> inFlight x = [''a1'' \<mapsto> new_attempt_state] \<and> waitForODA (config (ex_ctl x)) \<and> started x = 1 \<and> runs x = 1
     \<and> csvWriter x = Some [csv_header] \<and> completed x = 0"
  by (simp add: exp_eval demo_late_dial_def demo_run_def demo_ok_def cong: let_weak_cong prod.case_cong_weak on_ok_weak)
    (simp add: Let_def waitForODA_def demo_config_simps new_attempt_state_def)


text \<open>A row determines its result: nothing of it is lost in the file.\<close>

lemma show_int_inject [simp]: "show_int a = show_int b \<longleftrightarrow> a = b"
proof -
  have "CHR ''-'' # show_nat m \<noteq> show_nat n" for m n
  proof
    assume "CHR ''-'' # show_nat m = show_nat n"
    then have "CHR ''-'' \<in> set (show_nat n)" by (metis list.set_intros(1))
    then show False using show_nat_digits [of n] by (auto simp: is_digit_def)
  qed
  note this [simp] this [symmetric, simp]
  show ?thesis by (cases "a < 0"; cases "b < 0") (simp_all add: show_int_def nat_eq_iff)
qed

text \<open>Two results with the same row in the CSV file are the same result.\<close>

lemma csv_record_inject: "csv_record r = csv_record r' \<longleftrightarrow> r = r'"
  by (auto simp: csv_record_def show_bool_def split: if_splits intro: call_result.equality)

text \<open>The rows that one attempt adds, when the file can be written.\<close>

definition csv_results :: "file_env \<Rightarrow> call_result list \<Rightarrow> attempt_state \<times> csv \<Rightarrow> attempt_state \<times> csv" where
  "csv_results fe rs sw = foldl (\<lambda>(st, w) r. snd (csv_step fe r st w)) sw rs"

definition rows_of :: "string set \<Rightarrow> call_result list \<Rightarrow> call_result list" where
  "rows_of os rs = filter (\<lambda>r. cr_Outcome r \<in> os) rs"

definition csv_ok :: "call_result set \<Rightarrow> string list list \<Rightarrow> attempt_state \<times> csv \<Rightarrow> call_result list \<Rightarrow> bool" where
  "csv_ok R rows sw out \<longleftrightarrow> snd sw = Some (rows @ map csv_record out) \<and> set out \<subseteq> R
     \<and> length (rows_of {''answered''} out) = of_bool (csvAnswered (fst sw))
     \<and> length (rows_of {''oda_done'', ''oda_timeout''} out) = of_bool (csvODA (fst sw))
     \<and> length (rows_of {''error'', ''closed''} out) = of_bool (csvTerminal (fst sw))
     \<and> length out = length (rows_of {''answered''} out) + length (rows_of {''oda_done'', ''oda_timeout''} out) + length (rows_of {''error'', ''closed''} out)
     \<and> (case pendingODA (fst sw) of None \<Rightarrow> True | Some p \<Rightarrow> p \<in> R \<and> cr_Outcome p \<in> {''oda_done'', ''oda_timeout''})"

definition files_work :: "file_env \<Rightarrow> bool" where
  "files_work fe \<longleftrightarrow> (\<forall>rows r. fs_write fe rows r = None \<and> fs_flush fe rows r = None)"

lemma write_works: "files_work fe \<Longrightarrow> writeCSVRecord fe r (Some rows) = (None, Some (rows @ [csv_record r]))"
  by (simp add: writeCSVRecord_def files_work_def)

lemma csv_ok_row:
  assumes "csv_ok R rows (st, w) out" and "r \<in> R"
  shows "cr_Outcome r = ''answered'' \<Longrightarrow> \<not> csvAnswered st \<Longrightarrow>
      csv_ok R rows (st\<lparr>csvAnswered := True\<rparr>, Some (the w @ [csv_record r])) (out @ [r])"
    and "cr_Outcome r \<in> {''oda_done'', ''oda_timeout''} \<Longrightarrow> \<not> csvODA st \<Longrightarrow>
      csv_ok R rows (st\<lparr>csvODA := True\<rparr>, Some (the w @ [csv_record r])) (out @ [r])"
    and "cr_Outcome r \<in> {''error'', ''closed''} \<Longrightarrow> \<not> csvTerminal st \<Longrightarrow>
      csv_ok R rows (st\<lparr>csvTerminal := True\<rparr>, Some (the w @ [csv_record r])) (out @ [r])"
  using assms by (auto simp: csv_ok_def rows_of_def split: option.splits)

lemma csv_ok_pending:
  assumes "csv_ok R rows (st, w) out"
  shows "csv_ok R rows (st\<lparr>pendingODA := None\<rparr>, w) out"
    and "r \<in> R \<Longrightarrow> cr_Outcome r \<in> {''oda_done'', ''oda_timeout''} \<Longrightarrow> csv_ok R rows (st\<lparr>pendingODA := Some r\<rparr>, w) out"
    and "pendingODA st = Some p \<Longrightarrow> p \<in> R \<and> cr_Outcome p \<in> {''oda_done'', ''oda_timeout''}"
    and "w = Some (rows @ map csv_record out)"
  using assms by (simp_all add: csv_ok_def)

lemma write_pending_ok:
  assumes fe: "files_work fe" and ok: "csv_ok R rows (st, w) out"
  shows "\<exists>out'. csv_ok R rows (snd (write_pending fe st w)) out' \<and> fst (write_pending fe st w) = None"
proof (cases "pendingODA st = None \<or> csvODA st")
  case True
  then show ?thesis using ok by (auto simp: write_pending_def split: option.split)
next
  case False
  then obtain p where p: "pendingODA st = Some p" "\<not> csvODA st" by auto
  have w: "w = Some (rows @ map csv_record out)" by (rule csv_ok_pending(4) [OF ok])
  have "csv_ok R rows (st\<lparr>csvODA := True\<rparr>, Some (the w @ [csv_record p])) (out @ [p])"
    using csv_ok_row(2) [OF ok] csv_ok_pending(3) [OF ok p(1)] p(2) by blast
  then have "csv_ok R rows (st\<lparr>csvODA := True, pendingODA := None\<rparr>, Some (the w @ [csv_record p])) (out @ [p])"
    by (rule csv_ok_pending(1))
  moreover have "write_pending fe st w = (None, st\<lparr>csvODA := True, pendingODA := None\<rparr>, Some (the w @ [csv_record p]))"
    by (simp add: write_pending_def p w write_works [OF fe])
  ultimately show ?thesis by auto
qed

lemma csv_step_ok:
  assumes fe: "files_work fe" and ok: "csv_ok R rows (st, w) out" and r: "r \<in> R"
  shows "\<exists>out'. csv_ok R rows (snd (csv_step fe r st w)) out'"
proof -
  have w: "w = Some (rows @ map csv_record out)" by (rule csv_ok_pending(4) [OF ok])
  have wr: "writeCSVRecord fe r w = (None, Some (the w @ [csv_record r]))" using write_works [OF fe] by (simp add: w)
  note row = csv_ok_row [OF ok r]
  have last_row: "\<exists>out'. csv_ok R rows (snd (csv_terminal fe r s v)) out'"
    if "csv_ok R rows (s, v) o1" "\<not> csvTerminal s" "cr_Outcome r \<in> {''error'', ''closed''}" for s v o1
    using csv_ok_row(3) [OF that(1) r that(3,2)] csv_ok_pending(4) [OF that(1)] write_works [OF fe]
    by (auto simp: csv_terminal_def)
  consider "cr_Outcome r = ''answered''" | "cr_Outcome r \<in> {''oda_done'', ''oda_timeout''}" | "cr_Outcome r = ''error''"
    | "cr_Outcome r = ''closed''" | "cr_Outcome r \<notin> {''answered'', ''oda_done'', ''oda_timeout'', ''error'', ''closed''}" by blast
  then show ?thesis
  proof cases
    case 1
    then show ?thesis
      using write_pending_ok [OF fe row(1) [OF 1]] ok by (auto simp: csv_step_def csv_answered_def wr)
  next
    case 2
    then have e: "csv_step fe r st w = csv_oda fe r st w" by (auto simp: csv_step_def csv_oda_def w)
    show ?thesis using row(2) [OF 2] csv_ok_pending(2) [OF ok r 2] ok unfolding e
      by (cases "csvODA st"; cases "csvAnswered st") (auto simp: csv_oda_def wr)
  next
    case 3
    then show ?thesis using last_row [OF ok] ok by (auto simp: csv_step_def)
  next
    case 4
    obtain o1 st1 w1 where wp: "write_pending fe st w = (None, st1, w1)" "csv_ok R rows (st1, w1) o1"
      using write_pending_ok [OF fe ok] by (cases "write_pending fe st w") auto
    then show ?thesis using last_row [OF wp(2)] 4 by (auto simp: csv_step_def csv_closed_def w)
  next
    case 5
    then show ?thesis using ok by (auto simp: csv_step_def)
  qed
qed

lemma csv_results_ok:
  assumes "files_work fe" "set rs \<subseteq> R" "csv_ok R rows sw out"
  shows "\<exists>out'. csv_ok R rows (csv_results fe rs sw) out'"
  using assms(2,3)
proof (induction rs arbitrary: sw out)
  case Nil
  then show ?case by (auto simp: csv_results_def)
next
  case (Cons r rs)
  obtain st w where sw: "sw = (st, w)" by (cases sw)
  obtain out' where "csv_ok R rows (snd (csv_step fe r st w)) out'"
    using csv_step_ok [OF assms(1)] Cons.prems sw by fastforce
  then show ?case using Cons.IH Cons.prems(1) by (fastforce simp: csv_results_def sw)
qed

text \<open>
  C38. Whatever results of an attempt come in and in whatever order, when the file can be written the experiment adds the rows of
  some of these results and of no others: at most one answered row, one ODA row and one row of an error or a closed call.
\<close>

theorem csv_rows_of_attempt:
  assumes "files_work fe"
  shows "\<exists>out. snd (csv_results fe rs (new_attempt_state, Some rows)) = Some (rows @ map csv_record out) \<and> set out \<subseteq> set rs
    \<and> length (rows_of {''answered''} out) \<le> 1 \<and> length (rows_of {''oda_done'', ''oda_timeout''} out) \<le> 1
    \<and> length (rows_of {''error'', ''closed''} out) \<le> 1 \<and> length out \<le> 3"
proof -
  have "csv_ok (set rs) rows (new_attempt_state, Some rows) []"
    by (simp add: csv_ok_def new_attempt_state_def rows_of_def)
  then obtain out where o: "csv_ok (set rs) rows (csv_results fe rs (new_attempt_state, Some rows)) out"
    using csv_results_ok [OF assms] by blast
  have b: "of_bool P \<le> (1::nat)" for P by simp
  show ?thesis using o b
    by (intro exI [of _ out]) (simp add: csv_ok_def)
qed

definition demo_result :: "string \<Rightarrow> call_result" where
  "demo_result outcome = \<lparr>cr_AttemptID = ''a1'', cr_CallID = ''c7'', cr_SelfPhone = ''+9'', cr_PeerPhone = ''+1'', cr_PeerURI = [],
     cr_Direction = ''outgoing'', cr_ProtocolEnabled = True, cr_DialSentAtUnixMs = 1, cr_AnsweredAtUnixMs = 2, cr_LatencyMs = 1,
     cr_ODAReqUnixMs = 0, cr_ODADoneUnixMs = 0, cr_ODALatencyMs = 0, cr_Outcome = outcome, cr_Error = []\<rparr>"

theorem csv_rows_of_attempt_witness:
  "\<exists>out. snd (csv_results demo_files [demo_result ''oda_done'', demo_result ''answered'', demo_result ''closed'']
        (new_attempt_state, Some [csv_header])) = Some ([csv_header] @ map csv_record out)
    \<and> set out \<subseteq> {demo_result ''oda_done'', demo_result ''answered'', demo_result ''closed''} \<and> length out \<le> 3"
proof -
  have "files_work demo_files" by (simp add: files_work_def demo_files_def)
  from csv_rows_of_attempt [OF this, of "[demo_result ''oda_done'', demo_result ''answered'', demo_result ''closed'']" "[csv_header]"]
  show ?thesis by auto
qed

section \<open>The receiver's file\<close>

text \<open>The attempts that have an ODA outcome among some results, and the results that the receiver writes.\<close>

definition oda_attempts :: "call_result list \<Rightarrow> string set" where
  "oda_attempts rs = {cr_AttemptID r | r. r \<in> set rs \<and> cr_AttemptID r \<noteq> [] \<and> cr_Outcome r \<in> {''oda_done'', ''oda_timeout''}}"

definition kept :: "call_result list \<Rightarrow> nat \<Rightarrow> bool" where
  "kept rs k \<longleftrightarrow> \<not> (cr_Outcome (rs ! k) = ''closed'' \<and> cr_AttemptID (rs ! k) \<in> oda_attempts (take k rs))"

lemma oda_attempts_snoc:
  "oda_attempts (rs @ [r]) = (if cr_AttemptID r \<noteq> [] \<and> (cr_Outcome r = ''oda_done'' \<or> cr_Outcome r = ''oda_timeout'')
     then insert (cr_AttemptID r) (oda_attempts rs) else oda_attempts rs)"
  by (auto simp: oda_attempts_def)

lemma receiver_rows:
  assumes "files_work fe" and "IncomingMode cfg \<noteq> []"
  shows "fold (receiver_step fe cfg) rs ({}, Some rows)
    = (oda_attempts rs, Some (rows @ map (\<lambda>k. csv_record (rs ! k)) (filter (kept rs) [0..<length rs])))"
proof (induction rs rule: rev_induct)
  case Nil
  then show ?case by (simp add: oda_attempts_def)
next
  case (snoc r rs)
  have k: "kept (rs @ [r]) k = kept rs k" if "k < length rs" for k
    using that by (simp add: kept_def nth_append)
  have "filter (kept (rs @ [r])) [0..<length rs] = filter (kept rs) [0..<length rs]"
    by (rule filter_cong) (simp_all add: k)
  then have "map (\<lambda>k. csv_record ((rs @ [r]) ! k)) (filter (kept (rs @ [r])) [0..<length rs])
      = map (\<lambda>k. csv_record (rs ! k)) (filter (kept rs) [0..<length rs])"
    by (simp add: nth_append)
  moreover have "kept (rs @ [r]) (length rs) \<longleftrightarrow> \<not> (cr_Outcome r = ''closed'' \<and> cr_AttemptID r \<in> oda_attempts rs)"
    by (simp add: kept_def)
  moreover have "cr_AttemptID r \<in> oda_attempts rs \<Longrightarrow> cr_AttemptID r \<noteq> []" by (auto simp: oda_attempts_def)
  ultimately show ?case using snoc assms(2)
    by (auto simp: receiver_step_def oda_attempts_snoc write_works [OF assms(1)])
qed

end
