(* ===== verification/Programs.thy ===== *)
theory Programs
  imports RelayServer Experiment
begin

text \<open>
  The small programs around the components: \<^verbatim>\<open>internal/helpers\<close> (hexadecimal, concatenation, hashing), \<^verbatim>\<open>internal/relay/config.go\<close>
  with \<^verbatim>\<open>cmd/relay\<close>, \<^verbatim>\<open>internal/enrollment\<close> with \<^verbatim>\<open>cmd/enrollment\<close> and \<^verbatim>\<open>cmd/client/enroll\<close>, \<^verbatim>\<open>cmd/helper\<close>,
  \<^verbatim>\<open>internal/config\<close> and \<^verbatim>\<open>cmd/benchmark\<close>. What they ask of the DIA library, of the environment, of SHA-256, of the network and of the file system is an argument.
\<close>

section \<open>Helpers\<close>

text \<open>\<^verbatim>\<open>encoding/hex\<close>: an invalid byte is reported before an odd length, with the bytes decoded so far.\<close>

datatype hex_error = InvalidByte char | OddLength

definition hex_digit :: "nat \<Rightarrow> char" where
  "hex_digit n = ''0123456789abcdef'' ! n"

fun EncodeToHex :: "bytes \<Rightarrow> string" where
  "EncodeToHex [] = []"
| "EncodeToHex (b # bs) = hex_digit (of_char b div 16) # hex_digit (of_char b mod 16) # EncodeToHex bs"

definition hex_value :: "char \<Rightarrow> nat option" where
  "hex_value c = (let n = of_char c in
     if 48 \<le> n \<and> n \<le> 57 then Some (n - 48)
     else if 97 \<le> n \<and> n \<le> 102 then Some (n - 87)
     else if 65 \<le> n \<and> n \<le> 70 then Some (n - 55)
     else None)"

fun DecodeHex :: "string \<Rightarrow> bytes \<times> hex_error option" where
  "DecodeHex [] = ([], None)"
| "DecodeHex [p] = ([], Some (if hex_value p = None then InvalidByte p else OddLength))"
| "DecodeHex (p # q # s) = (case (hex_value p, hex_value q) of
      (None, _) \<Rightarrow> ([], Some (InvalidByte p))
    | (_, None) \<Rightarrow> ([], Some (InvalidByte q))
    | (Some a, Some b) \<Rightarrow> (case DecodeHex s of (bs, e) \<Rightarrow> (char_of (16 * a + b) # bs, e)))"

text \<open>\<^verbatim>\<open>ConcatBytes\<close>: one allocation, and a loop that copies each chunk to where the last one ended.\<close>

definition copy_at :: "nat \<Rightarrow> bytes \<Rightarrow> bytes \<Rightarrow> nat \<times> bytes" where
  "copy_at i out c = (let n = min (length out - i) (length c) in (n, take i out @ take n c @ drop (i + n) out))"

definition ConcatBytes :: "bytes list \<Rightarrow> bytes" where
  "ConcatBytes chunks =
     (let total = foldl (\<lambda>n c. n + length c) 0 chunks in
      snd (foldl (\<lambda>(i, out) c. case copy_at i out c of (n, out') \<Rightarrow> (i + n, out')) (0, replicate total (CHR 0x00)) chunks))"

definition WipeBytes :: "bytes \<Rightarrow> bytes" where
  "WipeBytes b = foldl (\<lambda>b i. b[i := CHR 0x00]) b [0..<length b]"

definition HashAll :: "(bytes \<Rightarrow> bytes) \<Rightarrow> bytes list \<Rightarrow> bytes" where
  "HashAll sha256 items = sha256 (ConcatBytes items)"

definition HashAllHex :: "(bytes \<Rightarrow> bytes) \<Rightarrow> bytes list \<Rightarrow> string" where
  "HashAllHex sha256 items = EncodeToHex (sha256 (ConcatBytes items))"

section \<open>The relay program\<close>

record relay_config =
  Port :: string
  IsProduction :: bool
  AtSkStr :: string
  AtPrivateKey :: bytes
  rc_RedisAddr :: string
  rc_RedisPassword :: string
  rc_RedisDB :: int
  MessageTTL :: int

definition relay_config_defaults :: "string \<Rightarrow> relay_config" where
  "relay_config_defaults atSk = \<lparr>Port = '':50051'', IsProduction = False, AtSkStr = atSk, AtPrivateKey = [],
     rc_RedisAddr = ''redis:6379'', rc_RedisPassword = [], rc_RedisDB = 0, MessageTTL = 20\<rparr>"

definition ParseKeysAsBytes :: "relay_config option \<Rightarrow> (hex_error + error) option \<times> relay_config option" where
  "ParseKeysAsBytes c = (case c of
      None \<Rightarrow> (Some (Inr ''failed to parse keys as bytes''), None)
    | Some cfg \<Rightarrow> (case DecodeHex (AtSkStr cfg) of
          (bs, e) \<Rightarrow> (map_option Inl e, Some (cfg\<lparr>AtPrivateKey := bs\<rparr>))))"

definition listen_addr :: "relay_config \<Rightarrow> string" where
  "listen_addr cfg = (if take 1 (Port cfg) = '':'' then Port cfg else '':'' @ Port cfg)"

text \<open>The program until it serves: the address it listens on and its server. \<open>hex_msg\<close> prints an error of the hex package.\<close>

definition relay_main ::
  "(hex_error \<Rightarrow> string) \<Rightarrow> (string \<Rightarrow> error option) \<Rightarrow> (string \<Rightarrow> string \<Rightarrow> int \<Rightarrow> 'r redis) \<Rightarrow> relay_config result
    \<Rightarrow> (string \<times> 'r server) result" where
  "relay_main hex_msg listen connect loaded =
     (case loaded of
        Inl e \<Rightarrow> Inl (''Failed to load config: '' @ e)
      | Inr cfg0 \<Rightarrow>
     (case ParseKeysAsBytes (Some cfg0) of
        (Some (Inl h), _) \<Rightarrow> Inl (''failed to load config: '' @ hex_msg h)
      | (Some (Inr e), _) \<Rightarrow> Inl (''failed to load config: '' @ e)
      | (None, c) \<Rightarrow>
     (let cfg = the c; addr = listen_addr cfg in
      case listen addr of
        Some e \<Rightarrow> Inl (''Failed to listen on '' @ addr @ '': '' @ e)
      | None \<Rightarrow>
     (case NewServer (AtPrivateKey cfg) (MessageTTL cfg) (connect (rc_RedisAddr cfg) (rc_RedisPassword cfg) (rc_RedisDB cfg)) of
        Inl e \<Rightarrow> Inl (''Failed to create relay server: '' @ e)
      | Inr s \<Rightarrow> Inr (addr, s)))))"

section \<open>Enrollment\<close>

record 's enrollment_config =
  ec_Port :: string
  ec_IsProduction :: bool
  EnrollmentDurationDays :: int
  DiaServerConfig :: "'s option"

definition env_vars :: "string list" where
  "env_vars = [''CI_SK'', ''CI_PK'', ''AT_SK'', ''AT_VK'', ''AMF_SK'', ''AMF_PK'']"

fun join :: "string \<Rightarrow> string list \<Rightarrow> string" where
  "join sep [] = []"
| "join sep [x] = x"
| "join sep (x # y # xs) = x @ sep @ join sep (y # xs)"

definition env_content :: "(string \<Rightarrow> string) \<Rightarrow> string list \<Rightarrow> string" where
  "env_content getenv ks = concat (map (\<lambda>k. if getenv k = [] then [] else k @ ''='' @ getenv k @ [CHR 0x0A]) ks)"

definition missing_vars :: "(string \<Rightarrow> string) \<Rightarrow> string list" where
  "missing_vars getenv = filter (\<lambda>k. getenv k = []) env_vars"

definition InitializeDiaServerConfig ::
  "(string \<Rightarrow> string) \<Rightarrow> (string \<Rightarrow> 's result) \<Rightarrow> 's enrollment_config \<Rightarrow> error option \<times> 's enrollment_config" where
  "InitializeDiaServerConfig getenv serverConfigFromEnv cfg =
     (if missing_vars getenv \<noteq> []
      then (Some (''missing required DIA server config env vars: '' @ join '', '' (missing_vars getenv)), cfg)
      else (case serverConfigFromEnv (env_content getenv env_vars) of
          Inl e \<Rightarrow> (Some (''failed to parse DIA keys from env: '' @ e), cfg\<lparr>DiaServerConfig := None\<rparr>)
        | Inr s \<Rightarrow> (None, cfg\<lparr>DiaServerConfig := Some s\<rparr>)))"

definition EnrollSubscriber :: "('s \<Rightarrow> bytes \<Rightarrow> bytes result) \<Rightarrow> 's enrollment_config \<Rightarrow> bytes \<Rightarrow> (code \<times> string) + bytes" where
  "EnrollSubscriber processEnrollment cfg req =
     (case DiaServerConfig cfg of
        None \<Rightarrow> Inl (Internal, ''DIA server config not initialized'')
      | Some s \<Rightarrow> (case processEnrollment s req of
            Inl e \<Rightarrow> Inl (Internal, ''enrollment processing failed: '' @ e)
          | Inr resp \<Rightarrow> Inr resp))"

text \<open>The enrollment program until it serves.\<close>

definition enrollment_main ::
  "(string \<Rightarrow> string) \<Rightarrow> (string \<Rightarrow> 's result) \<Rightarrow> (string \<Rightarrow> error option) \<Rightarrow> 's enrollment_config result
    \<Rightarrow> 's enrollment_config result" where
  "enrollment_main getenv serverConfigFromEnv listen loaded =
     (case loaded of
        Inl e \<Rightarrow> Inl (''Failed to load config: '' @ e)
      | Inr cfg0 \<Rightarrow> (case InitializeDiaServerConfig getenv serverConfigFromEnv cfg0 of
          (Some e, _) \<Rightarrow> Inl (''Failed to initialize DIA server config: '' @ e)
        | (None, cfg) \<Rightarrow> (case listen (ec_Port cfg) of
            Some e \<Rightarrow> Inl (''failed to listen: '' @ e)
          | None \<Rightarrow> Inr cfg)))"

text \<open>The client: what it prints, or its fatal message. \<open>n\<close> is the random number of the default picture, \<open>call\<close> the RPC.\<close>

record ('x, 'y) enroll_lib =
  CreateEnrollmentRequest :: "string \<Rightarrow> string \<Rightarrow> string \<Rightarrow> int \<Rightarrow> ('x \<times> bytes) result"
  FinalizeEnrollment :: "'x \<Rightarrow> bytes \<Rightarrow> string \<Rightarrow> string \<Rightarrow> string \<Rightarrow> 'y result"
  ToEnv :: "'y \<Rightarrow> string result"

definition enroll_main ::
  "('x, 'y) enroll_lib \<Rightarrow> nat \<Rightarrow> (bytes \<Rightarrow> bytes result) \<Rightarrow> string \<Rightarrow> string \<Rightarrow> string \<Rightarrow> string result" where
  "enroll_main lib n call phone name logoUrl =
     (if name = [] then Inl ''--name is required''
      else if phone = [] then Inl ''--phone is required''
      else let logo = (if logoUrl = [] then ''https://i.pravatar.cc/150?img='' @ show_nat n else logoUrl) in
        (case CreateEnrollmentRequest lib phone name logo 1 of
           Inl e \<Rightarrow> Inl (''Error creating enrollment request: '' @ e)
         | Inr (keys, req) \<Rightarrow>
        (case call req of
           Inl e \<Rightarrow> Inl (''Error enrolling subscriber: '' @ e)
         | Inr resp \<Rightarrow>
        (case FinalizeEnrollment lib keys resp phone name logo of
           Inl e \<Rightarrow> Inl (''Error finalizing enrollment: '' @ e)
         | Inr cfg \<Rightarrow>
        (case ToEnv lib cfg of
           Inl e \<Rightarrow> Inl (''Error serializing config: '' @ e)
         | Inr s \<Rightarrow> Inr s)))))"

section \<open>Key generation and env files\<close>

text \<open>\<^verbatim>\<open>cmd/helper\<close>: what it prints, or its fatal message.\<close>

definition registrationAuthoritySetup :: "(int \<Rightarrow> 's result) \<Rightarrow> ('s \<Rightarrow> string result) \<Rightarrow> int \<Rightarrow> string list result" where
  "registrationAuthoritySetup generateServerConfig toEnv durationDays =
     (case generateServerConfig durationDays of
        Inl e \<Rightarrow> Inl (''Server config generation failed: '' @ e)
      | Inr cfg \<Rightarrow> (case toEnv cfg of
          Inl e \<Rightarrow> Inl (''Error serializing config: '' @ e)
        | Inr s \<Rightarrow> Inr [''# DIA Server Configuration'',
            ''# Save this securely - it contains private keys for enrollment processing'',
            ''# In production, store in HSM, encrypted file, or secure key management service'', [], s]))"

text \<open>\<^verbatim>\<open>LoadEnv\<close> of \<^verbatim>\<open>internal/config\<close>: \<open>dotenv\<close> loads the files it is given, \<^verbatim>\<open>.env\<close> when it is given none.\<close>

definition LoadEnv :: "(string list \<Rightarrow> error option) \<Rightarrow> (string \<Rightarrow> string) \<Rightarrow> string \<Rightarrow> error option" where
  "LoadEnv dotenv getenv envfile0 =
     (let envfile = (if envfile0 = [] then getenv ''ENV_FILE'' else envfile0)
      in if envfile = [] then dotenv [] else dotenv [envfile])"

section \<open>The benchmark\<close>

text \<open>\<^verbatim>\<open>writeOutput\<close>: a write to standard output (\<^const>\<open>None\<close>) or to a file.\<close>

definition writeOutput :: "file_env \<Rightarrow> string \<Rightarrow> string \<Rightarrow> error option \<times> (string option \<times> string) list" where
  "writeOutput fe path content =
     (if TrimSpace path = [] then (None, [(None, if content \<noteq> [] \<and> last content = CHR 0x0A then content else content @ [CHR 0x0A])])
      else if fs_mkdir fe (path_dir fe path) \<noteq> None \<and> path_dir fe path \<noteq> ''.'' then (fs_mkdir fe (path_dir fe path), [])
      else (fs_create fe path, if fs_create fe path = None then [(Some path, content)] else []))"

type_synonym writes = "(string option \<times> string) list"

definition bench_one :: "file_env \<Rightarrow> string \<Rightarrow> string \<Rightarrow> string \<Rightarrow> string result \<Rightarrow> error option \<times> writes" where
  "bench_one fe name what path csv = (case csv of
      Inl e \<Rightarrow> (Some (name @ '' failed: '' @ e), [])
    | Inr c \<Rightarrow> (case writeOutput fe path c of
        (Some e, w) \<Rightarrow> (Some (''writing '' @ what @ '' output failed: '' @ e), w)
      | (None, w) \<Rightarrow> (None, w)))"

text \<open>The fatal message, if there is one, and what was written; the mode that an invalid mode's message quotes is left out of it.\<close>

definition benchmark_main ::
  "file_env \<Rightarrow> (int \<Rightarrow> int \<Rightarrow> string result) \<Rightarrow> (int \<Rightarrow> int \<Rightarrow> string result) \<Rightarrow> int \<Rightarrow> int \<Rightarrow> string \<Rightarrow> string \<Rightarrow> string
    \<Rightarrow> error option \<times> writes" where
  "benchmark_main fe protocolCSV roleCSV samples iters modeStr outPlain0 outRole0 =
     (let mode = to_lower (TrimSpace modeStr); plain = (mode = ''both'' \<or> mode = ''plain''); role = (mode = ''both'' \<or> mode = ''role'');
          outPlain = (if plain \<and> TrimSpace outPlain0 = [] then ''results/primitives-pc.csv'' else outPlain0);
          outRole = (if role \<and> TrimSpace outRole0 = [] then ''results/roles-pc.csv'' else outRole0)
      in if samples < 1 then (Some ''-samples must be >= 1'', [])
         else if \<not> plain \<and> \<not> role then (Some ''invalid -mode'', [])
         else (case (if plain then bench_one fe ''BenchProtocolCSV'' ''plain'' outPlain (protocolCSV samples iters) else (None, [])) of
             (Some e, w) \<Rightarrow> (Some e, w)
           | (None, w) \<Rightarrow> if role then (case bench_one fe ''BenchProtocolRoleCSV'' ''role'' outRole (roleCSV samples iters) of
                 (e, w') \<Rightarrow> (e, w @ w')) else (None, w)))"

section \<open>Hexadecimal\<close>

lemma hex_value_digit: "n < 16 \<Longrightarrow> hex_value (hex_digit n) = Some n"
proof -
  have "\<forall>n \<in> {..<16}. hex_value (hex_digit n) = Some n" by code_simp
  then show "n < 16 \<Longrightarrow> hex_value (hex_digit n) = Some n" by simp
qed



section \<open>Concatenation\<close>

text \<open>The loop over the preallocated buffer is the plain concatenation.\<close>

lemma copy_loop:
  assumes "length pre + length (concat chunks) = length pre + length rest"
  shows "snd (foldl (\<lambda>(i, out) c. case copy_at i out c of (n, out') \<Rightarrow> (i + n, out')) (length pre, pre @ rest) chunks)
    = pre @ concat chunks"
  using assms
proof (induction chunks arbitrary: pre rest)
  case (Cons c chunks)
  then have "length rest \<ge> length c" by simp
  then have "copy_at (length pre) (pre @ rest) c = (length c, (pre @ c) @ drop (length c) rest)"
    by (simp add: copy_at_def min_def Let_def)
  then show ?case using Cons.IH [of "pre @ c" "drop (length c) rest"] Cons.prems by simp
qed simp

lemma ConcatBytes_concat: "ConcatBytes chunks = concat chunks"
proof -
  have "foldl (\<lambda>n c. n + length c) k chunks = k + length (concat chunks)" for k
    by (induction chunks arbitrary: k) simp_all
  then show ?thesis using copy_loop [of "[]" chunks "replicate (length (concat chunks)) (CHR 0x00)"]
    by (simp add: ConcatBytes_def)
qed

lemma WipeBytes_zeros: "WipeBytes b = replicate (length b) (CHR 0x00)"
proof -
  have "foldl (\<lambda>b i. b[i := CHR 0x00]) b [0..<n] = replicate n (CHR 0x00) @ drop n b" if "n \<le> length b" for n
    using that
    by (induction n) (simp_all add: list_update_append Cons_nth_drop_Suc [symmetric] replicate_append_same [symmetric])
  then show ?thesis by (simp add: WipeBytes_def)
qed

section \<open>Configurations\<close>

lemma take_one: "take (Suc 0) p = [c] \<longleftrightarrow> p \<noteq> [] \<and> hd p = c"
  by (cases p) auto

text \<open>A relay that serves has the decoded key and listens on an address with a port alone.\<close>

lemma relay_main_serves:
  assumes "relay_main hex_msg listen connect loaded = Inr (addr, s)"
  shows "\<exists>cfg. loaded = Inr cfg \<and> DecodeHex (AtSkStr cfg) = (srv_key s, None) \<and> hd addr = CHR '':'' \<and> listen addr = None
    \<and> clients s = Map.empty"
  using assms
  by (cases "DecodeHex (AtSkStr (projr loaded))")
    (auto simp: relay_main_def ParseKeysAsBytes_def NewServer_def listen_addr_def Let_def take_one
      split: sum.splits option.splits prod.splits if_splits)

text \<open>The enrollment server has a library configuration exactly when every key is set and the library accepts their lines.\<close>

lemma InitializeDiaServerConfig_ok:
  "fst (InitializeDiaServerConfig getenv parse cfg) = None \<longleftrightarrow>
     (\<forall>k \<in> set env_vars. getenv k \<noteq> [])
     \<and> (\<exists>s. parse (concat (map (\<lambda>k. k @ ''='' @ getenv k @ [CHR 0x0A]) env_vars)) = Inr s
          \<and> DiaServerConfig (snd (InitializeDiaServerConfig getenv parse cfg)) = Some s)"
proof (cases "missing_vars getenv = []")
  case True
  then have g: "\<forall>k \<in> set env_vars. getenv k \<noteq> []" by (auto simp: missing_vars_def filter_empty_conv)
  then have "env_content getenv env_vars = concat (map (\<lambda>k. k @ ''='' @ getenv k @ [CHR 0x0A]) env_vars)"
    unfolding env_content_def by (intro arg_cong [where f = concat] map_cong) auto
  then show ?thesis using g True
    by (cases "parse (env_content getenv env_vars)") (simp_all add: InitializeDiaServerConfig_def)
next
  case False
  then have "\<not> (\<forall>k \<in> set env_vars. getenv k \<noteq> [])" by (auto simp: missing_vars_def filter_empty_conv)
  then show ?thesis using False by (simp add: InitializeDiaServerConfig_def)
qed

text \<open>
  The two enrollment programs together: a server that serves, and a client whose library can finalize what the server's library
  answers to its requests, end with the client's configuration printed.
\<close>

lemma enrollment_completes:
  assumes "enrollment_main getenv parse listen loaded = Inr cfg"
    and "CreateEnrollmentRequest lib phone name logo 1 = Inr (keys, req)"
    and "\<And>s. DiaServerConfig cfg = Some s \<Longrightarrow> \<exists>resp c. process s req = Inr resp
      \<and> FinalizeEnrollment lib keys resp phone name logo = Inr c \<and> ToEnv lib c = Inr env_text"
    and "name \<noteq> []" and "phone \<noteq> []" and "logo \<noteq> []" and "\<And>q r. EnrollSubscriber process cfg q = Inr r \<Longrightarrow> call q = Inr r"
  shows "enroll_main lib n call phone name logo = Inr env_text"
proof -
  obtain s where s: "DiaServerConfig cfg = Some s"
    using assms(1) by (auto simp: enrollment_main_def InitializeDiaServerConfig_def split: sum.splits option.splits prod.splits if_splits)
  then show ?thesis using assms(2-6) assms(7) [of req] by (auto simp: enroll_main_def EnrollSubscriber_def)
qed

end
