(* ===== verification/EndToEnd.thy ===== *)
theory EndToEnd
  imports SubscriberProps
begin

text \<open>
  The relay server together with the sessions of its clients, and with anybody else who opens streams to it. A client's frames are in
  flight (\<open>nt_up\<close>) until the server's stream receives them, responses (\<open>nt_down\<close>) from the server's writer until the client's
  loop reads them. \<open>nt_accepted\<close> is the trace of the requests that passed the server's MAC check. Then: a client's handler gets no
  payload that did not pass that check, and what a connected client sends reaches a connected subscriber.
\<close>

section \<open>The network\<close>

record 'r net =
  nt_server :: "'r server"
  nt_client :: "nat \<Rightarrow> client_session"
  nt_sid :: "nat \<Rightarrow> stream_id \<Rightarrow> sid option"
  nt_up :: "sid \<Rightarrow> relay_request list"
  nt_down :: "sid \<Rightarrow> relay_response list"
  nt_accepted :: "relay_request list"

text \<open>
  A client's own step, the arrival of a frame, a response read by a client's loop; and any step of the server, where a request
  may come from anybody (a stream that is none of a client's, a frame that was made up).
\<close>

datatype net_event = NClient nat client_event | NArrive sid | NRead nat stream_id | NServer relay_event

definition reads :: "client_event \<Rightarrow> bool" where
  "reads ev \<longleftrightarrow> (case ev of CLoop (RecvResult (Inl (Some m))) \<Rightarrow> True | _ \<Rightarrow> False)"

definition accepts_request :: "relay_env \<Rightarrow> 'r server \<Rightarrow> relay_event \<Rightarrow> relay_request list" where
  "accepts_request env s e = (case e of
      Recv i req \<Rightarrow> if i < next_sid s \<and> tunnel_up (sessions s i) \<and> fst (verifyRequestMAC env i req s) then [req] else []
    | _ \<Rightarrow> [])"

fun taken :: "'a recv_outcome \<Rightarrow> 'a list" where
  "taken (Received m) = [m]"
| "taken _ = []"

definition writes_response :: "'r server \<Rightarrow> relay_event \<Rightarrow> sid \<Rightarrow> relay_response list" where
  "writes_response s e j = (case e of
      Write i True \<Rightarrow>
        if i = j \<and> i < next_sid s \<and> writer_up (sessions s i) then taken (fst (recv (sendQ (sessions s i)))) else []
    | _ \<Rightarrow> [])"

definition server_event :: "relay_env \<Rightarrow> relay_event \<Rightarrow> 'r net \<Rightarrow> 'r net" where
  "server_event env e n = n\<lparr>nt_server := relay_step env (nt_server n) e,
     nt_down := (\<lambda>j. nt_down n j @ writes_response (nt_server n) e j),
     nt_accepted := nt_accepted n @ accepts_request env (nt_server n) e\<rparr>"

text \<open>A client that opens a stream gets a session of the server; the frames that it hands to its streams are in flight.\<close>

definition frames_to :: "(stream_id \<Rightarrow> sid option) \<Rightarrow> sid \<Rightarrow> (stream_id \<times> relay_request) list \<Rightarrow> relay_request list" where
  "frames_to sids i fs = map snd (filter (\<lambda>(st, r). sids st = Some i) fs)"

definition client_acts :: "(bytes \<Rightarrow> bytes \<Rightarrow> bytes result) \<Rightarrow> relay_env \<Rightarrow> nat \<Rightarrow> client_event \<Rightarrow> 'r net \<Rightarrow> 'r net" where
  "client_acts mk env c ev n =
     (let s = nt_client n c; s' = client_step mk s ev;
          n1 = n\<lparr>nt_client := (nt_client n)(c := s'),
                 nt_up := (\<lambda>i. nt_up n i @ frames_to (nt_sid n c) i (drop (length (attempts s)) (attempts s')))\<rparr>
      in if cl_next s' = cl_next s then n1
         else server_event env OpenTunnel
           (n1\<lparr>nt_sid := (nt_sid n)(c := (nt_sid n c)(cl_next s := Some (next_sid (nt_server n))))\<rparr>))"

definition read_event :: "(bytes \<Rightarrow> bytes \<Rightarrow> bytes result) \<Rightarrow> nat \<Rightarrow> stream_id \<Rightarrow> 'r net \<Rightarrow> 'r net" where
  "read_event mk c st n = (case (nt_sid n c st, cl_loop (nt_client n c)) of
      (Some i, Reading idx u) \<Rightarrow>
        if u = st then (case nt_down n i of
            [] \<Rightarrow> n
          | m # ms \<Rightarrow> n\<lparr>nt_down := (nt_down n)(i := ms),
              nt_client := (nt_client n)(c := loop_step mk (RecvResult (Inl (Some m))) (nt_client n c))\<rparr>)
        else n
    | _ \<Rightarrow> n)"

definition net_step :: "(bytes \<Rightarrow> bytes \<Rightarrow> bytes result) \<Rightarrow> relay_env \<Rightarrow> 'r net \<Rightarrow> net_event \<Rightarrow> 'r net" where
  "net_step mk env n e = (case e of
      NClient c ev \<Rightarrow> if reads ev then n else client_acts mk env c ev n
    | NArrive i \<Rightarrow> (case nt_up n i of [] \<Rightarrow> n | r # rs \<Rightarrow> server_event env (Recv i r) (n\<lparr>nt_up := (nt_up n)(i := rs)\<rparr>))
    | NRead c st \<Rightarrow> read_event mk c st n
    | NServer ev \<Rightarrow> server_event env ev n)"

text \<open>Nothing has happened: a server that has just started, and sessions as \<^verbatim>\<open>NewSession\<close> makes them.\<close>

definition fresh_net :: "'r server \<Rightarrow> (nat \<Rightarrow> client_session) \<Rightarrow> 'r net" where
  "fresh_net s cs = \<lparr>nt_server = s, nt_client = cs, nt_sid = (\<lambda>_ _. None), nt_up = (\<lambda>_. []), nt_down = (\<lambda>_. []), nt_accepted = []\<rparr>"

section \<open>What the server passes on was accepted\<close>

text \<open>An EVENT of a set of topics and payloads; a server that holds no others, in its queues and in Redis.\<close>

definition event_in :: "(string \<times> bytes) set \<Rightarrow> relay_response \<Rightarrow> bool" where
  "event_in A m \<longleftrightarrow> (rp_type m = EVENT \<longrightarrow> (rp_topic m, rp_payload m) \<in> A)"

definition queue_within :: "(string \<times> bytes) set \<Rightarrow> session \<Rightarrow> bool" where
  "queue_within A ss \<longleftrightarrow> (\<forall>m \<in> set (ch_buf (sendQ ss)). event_in A m)"

definition server_within :: "('r \<Rightarrow> keyspace) \<Rightarrow> (string \<times> bytes) set \<Rightarrow> 'r server \<Rightarrow> bool" where
  "server_within ks A s \<longleftrightarrow> store_ok ks (store s)
     \<and> (\<forall>t. \<forall>m \<in> set (topic_history ks (store s) t). (t, sm_payload m) \<in> A)
     \<and> (\<forall>i. queue_within A (sessions s i))"

lemma event_in_simps [simp]:
  "event_in A (event_response t p) \<longleftrightarrow> (t, p) \<in> A" "event_in A (error_response c msg t)"
  by (simp_all add: event_in_def event_response_def error_response_def)

lemma event_in_mono: "A \<subseteq> B \<Longrightarrow> event_in A m \<Longrightarrow> event_in B m"
  by (auto simp: event_in_def)

lemma within_mono: "A \<subseteq> B \<Longrightarrow> server_within ks A s \<Longrightarrow> server_within ks B s"
  unfolding server_within_def queue_within_def by (meson event_in_mono subsetD)

lemma within_upd: "server_within ks A s \<Longrightarrow> queue_within A (f (sessions s i)) \<Longrightarrow> server_within ks A (upd_session i f s)"
  by (auto simp: server_within_def)

lemma within_session: "server_within ks A s \<Longrightarrow> queue_within A (sessions s i)"
  by (simp add: server_within_def)

lemma queue_within_flags [simp]:
  "queue_within A (ss\<lparr>replaying := b\<rparr>) = queue_within A ss" "queue_within A (ss\<lparr>activeTopic := t\<rparr>) = queue_within A ss"
  "queue_within A (ss\<lparr>tunnel_up := b\<rparr>) = queue_within A ss" "queue_within A (ss\<lparr>writer_up := b\<rparr>) = queue_within A ss"
  "queue_within A (closeQ ss) = queue_within A ss" "queue_within A new_session"
  by (simp_all add: queue_within_def closeQ_def close_chan_def new_session_def make_chan_def)

lemma enqueue_within: "queue_within A ss \<Longrightarrow> event_in A r \<Longrightarrow> queue_within A (enqueue_session r ss)"
  by (auto simp: queue_within_def enqueue_session_def try_send_def)

lemma fold_enqueue_within:
  "queue_within A ss \<Longrightarrow> (\<And>m. m \<in> set rs \<Longrightarrow> event_in A m) \<Longrightarrow> queue_within A (fold enqueue_session rs ss)"
  by (induction rs arbitrary: ss) (simp_all add: enqueue_within)

lemma tryEnqueue_within: "server_within ks A s \<Longrightarrow> event_in A r \<Longrightarrow> server_within ks A (tryEnqueue i r s)"
  unfolding tryEnqueue_def by (intro within_upd enqueue_within within_session)

lemma sendError_within: "server_within ks A s \<Longrightarrow> server_within ks A (sendError i c msg t s)"
  by (simp add: sendError_def tryEnqueue_within)

lemma fanout_within:
  "server_within ks A s \<Longrightarrow> (t, p) \<in> A \<Longrightarrow> server_within ks A (fold (deliver i t p) subs s)"
  by (induction subs arbitrary: s) (simp_all add: deliver_def tryEnqueue_within)

lemma topicExists_within:
  assumes "server_within ks A s" and "topicExists t s = (b, s1)"
  shows "server_within ks A s1"
proof -
  have "store_ok ks (store s)" using assms(1) by (simp add: server_within_def)
  from topicExists_store [OF this, of t] have "store_ok ks (store s1)" "topic_history ks (store s1) = topic_history ks (store s)"
    by (simp_all add: assms(2))
  moreover have "sessions s1 = sessions s" using topicExists_frame(1) [of t s] by (simp add: assms(2))
  ultimately show ?thesis using assms(1) by (simp add: server_within_def)
qed

lemma publish_store_within:
  assumes "server_within ks A s" and "(t, p) \<in> A"
  shows "server_within ks A (publish_store t p u s)"
proof -
  have "store_ok ks (store s)" using assms(1) by (simp add: server_within_def)
  from rstore.store_invar [OF this, of t p u] rstore.store_hist [OF this, of t p u] show ?thesis
    using assms by (auto simp: server_within_def publish_store_def dest!: in_set_dropD)
qed

lemma publish_clear_within:
  assumes "server_within ks A s"
  shows "server_within ks A (publish_clear t s)"
proof -
  have "store_ok ks (store s)" using assms by (simp add: server_within_def)
  from rstore.delete_ok [OF this, of t] show ?thesis
    using assms by (auto simp: server_within_def publish_clear_def)
qed

lemma handlePublish_within:
  assumes "server_within ks A s" and "(rq_topic req, rq_payload req) \<in> A"
  shows "server_within ks A (handlePublish env i req s)"
proof -
  obtain b s1 where e: "topicExists (rq_topic req) s = (b, s1)" by (cases "topicExists (rq_topic req) s")
  then show ?thesis using assms topicExists_within [OF assms(1) e]
    by (cases b) (auto simp: handlePublish_def Let_def e sendError_within
        intro!: publish_clear_within fanout_within publish_store_within)
qed

lemma replayed_within:
  "server_within ks A s \<Longrightarrow> m \<in> set (replayed u t (topic_history ks (store s) t)) \<Longrightarrow> event_in A m"
  by (auto simp: replayed_def server_within_def)

lemma handleSubscribe_within:
  assumes "server_within ks A s" and "(rq_topic req, rq_payload req) \<in> A"
  shows "server_within ks A (handleSubscribe env i req s)"
proof (cases "rq_topic req = []")
  case True
  then show ?thesis using assms(1) by (simp add: handleSubscribe_def sendError_within)
next
  case False
  let ?req = "req\<lparr>rq_payload := []\<rparr>" let ?s = "handleSubscribe env i ?req s"
  have "store_ok ks (store s)" using assms(1) by (simp add: server_within_def)
  note eff = handleSubscribe_effect [OF this, of ?req "rq_topic req" env i, simplified, OF False]
  have "server_within ks A ?s"
    using assms(1) eff(3,4) within_session [OF assms(1), of i] replayed_within [OF assms(1), of _ "rq_sender req" "rq_topic req"]
    unfolding server_within_def eff(1) by (auto intro!: fold_enqueue_within)
  moreover have "handleSubscribe env i req s = (if rq_payload req \<noteq> [] then handlePublish env i req ?s else ?s)"
    using False by (simp add: handleSubscribe_def Let_def split: prod.splits)
  ultimately show ?thesis using assms(2) by (simp add: handlePublish_within)
qed

lemma detach_within: "server_within ks A s \<Longrightarrow> server_within ks A (detach i s)"
  by (auto simp: detach_def server_within_def Let_def)

lemma verify_within: "server_within ks A s \<Longrightarrow> server_within ks A (snd (verifyRequestMAC env i req s))"
  by (auto simp: verifyRequestMAC_def Let_def sendError_within split: sum.split bool.split)

lemma tunnel_recv_within:
  assumes "server_within ks A s"
    and "fst (verifyRequestMAC env i req s) \<Longrightarrow> (rq_topic req, rq_payload req) \<in> A"
  shows "server_within ks A (tunnel_recv env i req s)"
  using verify_within [OF assms(1), of env i req] assms(2)
  by (auto simp: tunnel_recv_def handlePublish_within handleSubscribe_within sendError_within split: prod.split bool.split)

lemma flag_within:
  "server_within ks A s \<Longrightarrow> (\<And>ss. queue_within A (f ss) = queue_within A ss) \<Longrightarrow> server_within ks A (upd_session i f s)"
  by (simp add: within_upd within_session)

lemma end_within: "server_within ks A s \<Longrightarrow> server_within ks A (tunnel_end i s)"
  by (simp add: tunnel_end_def flag_within detach_within)

lemma open_within: "server_within ks A s \<Longrightarrow> server_within ks A (open_tunnel s)"
  by (simp add: open_tunnel_def server_within_def)

lemma writer_within:
  assumes "server_within ks A s"
  shows "server_within ks A (writer_step i sent s)"
proof -
  have "server_within ks A (upd_session i (\<lambda>ss. ss\<lparr>sendQ := q\<rparr>) s)" if "recv (sendQ (sessions s i)) = (Received m, q)" for m q
    by (rule within_upd [OF assms])
      (use that within_session [OF assms, of i] in \<open>auto simp: recv_def queue_within_def split: list.splits if_splits\<close>)
  then show ?thesis
    by (auto simp: writer_step_def Let_def assms flag_within detach_within split: prod.split recv_outcome.split)
qed

text \<open>The topics and payloads of accepted requests.\<close>

definition contents :: "relay_request list \<Rightarrow> (string \<times> bytes) set" where
  "contents rs = (\<lambda>r. (rq_topic r, rq_payload r)) ` set rs"

lemma relay_step_within:
  assumes "server_within ks (contents acc) s"
  shows "server_within ks (contents (acc @ accepts_request env s e)) (relay_step env s e)"
proof -
  have m: "server_within ks (contents (acc @ accepts_request env s e)) s"
    by (rule within_mono [OF _ assms]) (auto simp: contents_def)
  show ?thesis
  proof (cases e)
    case (Recv i req)
    then show ?thesis using m
      by (auto simp: accepts_request_def contents_def intro!: tunnel_recv_within)
  qed (use m in \<open>simp_all add: open_within end_within writer_within\<close>)
qed

section \<open>What a client's handler gets\<close>

definition net_within :: "('r \<Rightarrow> keyspace) \<Rightarrow> 'r net \<Rightarrow> bool" where
  "net_within ks n \<longleftrightarrow> server_within ks (contents (nt_accepted n)) (nt_server n)
     \<and> (\<forall>j. \<forall>m \<in> set (nt_down n j). event_in (contents (nt_accepted n)) m)
     \<and> (\<forall>c. \<forall>p \<in> set (received (nt_client n c)). p \<in> rq_payload ` set (nt_accepted n))"

lemma writes_response_simps [simp]:
  "writes_response s OpenTunnel j = []" "writes_response s (Recv i req) j = []" "writes_response s (StreamEnd i) j = []"
  "writes_response s (Write i sent) j = (if sent \<and> i = j \<and> i < next_sid s \<and> writer_up (sessions s i)
     then taken (fst (recv (sendQ (sessions s i)))) else [])"
  by (cases sent; auto simp: writes_response_def)+

lemma taken_in_queue: "m \<in> set (taken (fst (recv q))) \<Longrightarrow> m \<in> set (ch_buf q)"
  by (cases "ch_buf q") (auto simp: recv_def split: if_splits)

lemma written_within:
  assumes "server_within ks A s" and "m \<in> set (writes_response s e j)"
  shows "event_in A m"
proof -
  have "m \<in> set (ch_buf (sendQ (sessions s j)))"
    using assms(2) by (cases e) (auto dest: taken_in_queue split: if_splits)
  then show ?thesis using within_session [OF assms(1), of j] by (simp add: queue_within_def)
qed

lemma server_event_within:
  assumes "net_within ks n"
  shows "net_within ks (server_event env e n)"
proof -
  let ?A = "contents (nt_accepted n)" and ?B = "contents (nt_accepted n @ accepts_request env (nt_server n) e)"
  have s: "server_within ks ?A (nt_server n)" using assms by (simp add: net_within_def)
  have AB: "?A \<subseteq> ?B" by (auto simp: contents_def)
  have "event_in ?B m" if "m \<in> set (nt_down n j @ writes_response (nt_server n) e j)" for m j
    using that assms written_within [OF s] event_in_mono [OF AB] by (auto simp: net_within_def)
  moreover have "p \<in> rq_payload ` set (nt_accepted n @ accepts_request env (nt_server n) e)"
    if "p \<in> set (received (nt_client n c))" for p c
    using that assms unfolding net_within_def set_append image_Un by blast
  ultimately show ?thesis using relay_step_within [OF s, of env e] by (simp add: net_within_def server_event_def)
qed

lemma client_step_received: "\<not> reads ev \<Longrightarrow> received (client_step mk s ev) = received s"
proof (cases ev)
  case (CLoop le)
  assume "\<not> reads ev"
  with CLoop show ?thesis
    by (auto simp: loop_defs reads_def Let_def split: loop_pc.splits loop_event.splits option.splits sum.splits rpc_error.splits)
qed (auto simp: api_defs Start_def Close_def pump_step_def set_pump_def split: sum.splits option.splits prod.splits recv_outcome.splits)

lemma read_within:
  assumes "net_within ks n" and "nt_down n i = m # ms" and "s' = loop_step mk (RecvResult (Inl (Some m))) (nt_client n c)"
  shows "net_within ks (n\<lparr>nt_down := (nt_down n)(i := ms), nt_client := (nt_client n)(c := s')\<rparr>)"
proof -
  let ?A = "contents (nt_accepted n)"
  have down: "event_in ?A r" if "r \<in> set (nt_down n j)" for r j
    using that assms(1) unfolding net_within_def by blast
  have "p \<in> rq_payload ` set (nt_accepted n)" if "p \<in> set (received s')" for p
  proof -
    have "p \<in> set (received (nt_client n c)) \<or> rp_type m = EVENT \<and> p = rp_payload m"
      using that unfolding assms(3) by (auto simp: loop_defs Let_def split: loop_pc.splits sum.splits if_splits)
    moreover have "event_in ?A m" using down [of m i] assms(2) by simp
    ultimately show ?thesis using assms(1) by (auto simp: net_within_def event_in_def contents_def)
  qed
  moreover have "event_in ?A r" if "r \<in> set (((nt_down n)(i := ms)) j)" for r j
    using that down [of r j] assms(2) by (auto split: if_splits)
  ultimately show ?thesis using assms(1) by (auto simp: net_within_def)
qed

lemma net_step_within:
  assumes "net_within ks n"
  shows "net_within ks (net_step mk env n e)"
proof (cases e)
  case (NClient c ev)
  have "net_within ks (n\<lparr>nt_client := (nt_client n)(c := client_step mk (nt_client n c) ev), nt_up := u\<rparr>)" if "\<not> reads ev" for u
    using assms client_step_received [OF that] by (simp add: net_within_def)
  moreover have "net_within ks (x\<lparr>nt_sid := f\<rparr>) = net_within ks x" for x :: "'a net" and f by (simp add: net_within_def)
  ultimately show ?thesis using assms
    by (auto simp: NClient net_step_def client_acts_def Let_def intro!: server_event_within)
next
  case (NArrive i)
  have "net_within ks (n\<lparr>nt_up := u\<rparr>)" for u using assms by (simp add: net_within_def)
  then show ?thesis using assms by (auto simp: NArrive net_step_def split: list.split intro!: server_event_within)
next
  case (NRead c st)
  then show ?thesis using assms
    by (auto simp: net_step_def read_event_def split: option.split loop_pc.split list.split intro: read_within)
next
  case (NServer ev)
  then show ?thesis using assms by (simp add: net_step_def server_event_within)
qed

interpretation network: invariant_machine "net_step mk env" "net_within ks" for mk env ks
  by unfold_locales (rule net_step_within)

lemma verify_iff: "fst (verifyRequestMAC env i req s) \<longleftrightarrow> mac_accepted env s req"
  by (auto simp: verifyRequestMAC_def mac_accepted_def macTokenPreimageLen_def macLen_def Let_def split: sum.split bool.split)

lemma srv_key_prims [simp]:
  "srv_key (tryEnqueue i r s) = srv_key s" "srv_key (sendError i c msg t s) = srv_key s"
  "srv_key (snd (topicExists t s)) = srv_key s" "srv_key (snd (fetch_history t s)) = srv_key s"
  "srv_key (removeFromActive i s) = srv_key s" "srv_key (detach i s) = srv_key s" "srv_key (addToTopic t i s) = srv_key s"
  "srv_key (set_replaying i b s) = srv_key s" "srv_key (subscribe_leave i t s) = srv_key s"
  by (auto simp: tryEnqueue_def sendError_def topicExists_def fetch_history_def removeFromActive_def detach_def addToTopic_def
      set_replaying_def subscribe_leave_def ensureTopicBucket_def Let_def split: prod.split sum.split)

lemma srv_key_publish [simp]: "srv_key (handlePublish env i req s) = srv_key s"
  using srv_key_prims(3) [of "rq_topic req" s]
  by (cases "topicExists (rq_topic req) s") (auto simp: handlePublish_def Let_def split: bool.split)

lemma srv_key_parts [simp]:
  "srv_key (replay i u t ms s) = srv_key s" "srv_key (subscribe_open t s) = srv_key s"
proof -
  have "srv_key (fold (tryEnqueue i) rs s) = srv_key s" for rs by (induction rs arbitrary: s) simp_all
  then show "srv_key (replay i u t ms s) = srv_key s" by (simp add: replay_eq)
  show "srv_key (subscribe_open t s) = srv_key s"
    using srv_key_prims(3) [of t s] by (cases "topicExists t s") (auto simp: subscribe_open_def Let_def split: bool.split)
qed

lemma srv_key_fetchD: "fetch_history t s = (h, s') \<Longrightarrow> srv_key s' = srv_key s"
  using srv_key_prims(4) [of t s] by simp

lemma srv_key_subscribe [simp]: "srv_key (handleSubscribe env i req s) = srv_key s"
  by (auto simp: handleSubscribe_def Let_def dest!: srv_key_fetchD split: prod.split)

lemma srv_key_step: "srv_key (relay_step env s e) = srv_key s"
proof (cases e)
  case (Recv i req)
  have "srv_key (snd (verifyRequestMAC env i req s)) = srv_key s"
    by (auto simp: verifyRequestMAC_def Let_def split: sum.split bool.split)
  then show ?thesis
    by (cases "verifyRequestMAC env i req s") (auto simp: Recv tunnel_recv_def split: bool.split)
next
  case (Write i sent)
  then show ?thesis by (auto simp: writer_step_def Let_def split: prod.split recv_outcome.split)
qed (simp_all add: open_tunnel_def tunnel_end_def)

text \<open>The server's key never changes, so that every accepted request carries a MAC that this key verifies.\<close>

definition mac_verified :: "relay_env \<Rightarrow> bytes \<Rightarrow> relay_request \<Rightarrow> bool" where
  "mac_verified env key req \<longleftrightarrow> length (rq_ticket req) = 64
     \<and> VerifyMessageMAC env key (take 32 (rq_ticket req)) (macDataForReq req) (drop 32 (rq_ticket req)) = Inr True"

definition accepted_ok :: "relay_env \<Rightarrow> bytes \<Rightarrow> 'r net \<Rightarrow> bool" where
  "accepted_ok env key n \<longleftrightarrow> srv_key (nt_server n) = key \<and> (\<forall>req \<in> set (nt_accepted n). mac_verified env key req)"

lemma server_event_accepted: "accepted_ok env key n \<Longrightarrow> accepted_ok env key (server_event env e n)"
  using srv_key_step [of env "nt_server n" e]
  by (auto simp: accepted_ok_def server_event_def accepts_request_def verify_iff mac_accepted_def mac_verified_def
      split: relay_event.splits if_splits)

lemma net_step_accepted: "accepted_ok env key n \<Longrightarrow> accepted_ok env key (net_step mk env n e)"
proof -
  assume a: "accepted_ok env key n"
  have cong: "accepted_ok env key n'" if "nt_server n' = nt_server n" "nt_accepted n' = nt_accepted n" for n' :: "'a net"
    using a that by (simp add: accepted_ok_def)
  show ?thesis
    using a by (cases e) (auto simp: net_step_def client_acts_def read_event_def Let_def
        split: list.split option.split loop_pc.split intro!: server_event_accepted cong)
qed

interpretation accepting: invariant_machine "net_step mk env" "accepted_ok env key" for mk env key
  by unfold_locales (rule net_step_accepted)

section \<open>What a connected client sends\<close>

text \<open>Client \<open>a\<close> publishes on its stream \<open>sa\<close>; client \<open>b\<close> reads its stream \<open>sb\<close> and is subscribed; nothing is under way.\<close>

definition sender_ready :: "(bytes \<Rightarrow> bytes \<Rightarrow> bytes result) \<Rightarrow> relay_env \<Rightarrow> string \<Rightarrow> nat \<Rightarrow> stream_id \<Rightarrow> sid \<Rightarrow> 'r net \<Rightarrow> bool" where
  "sender_ready mk env topic a sa i n \<longleftrightarrow> (let c = nt_client n a; s = nt_server n in
     cl_topic c = topic \<and> \<not> cl_closed c \<and> \<not> cl_cancelled c \<and> ch_buf (cl_sendQ c) = [] \<and> \<not> ch_closed (cl_sendQ c)
     \<and> 0 < ch_cap (cl_sendQ c) \<and> cl_pumps c sa = Pumping \<and> token_valid mk env (srv_key s) (cl_ticket c)
     \<and> nt_sid n a sa = Some i \<and> nt_up n i = [] \<and> i < next_sid s \<and> tunnel_up (sessions s i))"

definition receiver_ready :: "string \<Rightarrow> nat \<Rightarrow> stream_id \<Rightarrow> sid \<Rightarrow> 'r net \<Rightarrow> bool" where
  "receiver_ready topic b sb j n \<longleftrightarrow> (let c = nt_client n b; s = nt_server n in
     (\<exists>idx. cl_loop c = Reading idx sb) \<and> cl_handler c \<and> nt_sid n b sb = Some j \<and> nt_down n j = [] \<and> j < next_sid s
     \<and> subscribed s topic j \<and> writer_up (sessions s j) \<and> \<not> replaying (sessions s j)
     \<and> ch_buf (sendQ (sessions s j)) = [] \<and> \<not> ch_closed (sendQ (sessions s j)) \<and> 0 < ch_cap (sendQ (sessions s j)))"

definition link_ready ::
  "(bytes \<Rightarrow> bytes \<Rightarrow> bytes result) \<Rightarrow> relay_env \<Rightarrow> string \<Rightarrow> nat \<Rightarrow> stream_id \<Rightarrow> sid \<Rightarrow> nat \<Rightarrow> stream_id \<Rightarrow> sid \<Rightarrow> 'r net \<Rightarrow> bool" where
  "link_ready mk env topic a sa i b sb j n \<longleftrightarrow> topic \<noteq> [] \<and> a \<noteq> b \<and> i \<noteq> j \<and> server_ok (nt_server n) \<and> map_order_ok env
     \<and> sender_ready mk env topic a sa i n \<and> receiver_ready topic b sb j n"

text \<open>One payload on its way: the caller, the pump, the server's tunnel, the server's writer, the loop of the subscriber.\<close>

definition one_payload :: "nat \<Rightarrow> stream_id \<Rightarrow> sid \<Rightarrow> nat \<Rightarrow> stream_id \<Rightarrow> sid \<Rightarrow> bytes \<Rightarrow> net_event list" where
  "one_payload a sa i b sb j p = [NClient a (CSend True p), NClient a (CPump sa False True), NArrive i, NServer (Write j True), NRead b sb]"

definition can_sign :: "(bytes \<Rightarrow> bytes \<Rightarrow> bytes result) \<Rightarrow> client_session \<Rightarrow> bytes \<Rightarrow> bool" where
  "can_sign mk c p \<longleftrightarrow> (\<exists>req. build_request mk c PUBLISH (cl_topic c) p (cl_ticket c) = Inr req)"

lemma build_request_cong:
  assumes "cl_ticket s' = cl_ticket s" and "cl_senderID s' = cl_senderID s"
  shows "build_request mk s' ty t p k = build_request mk s ty t p k"
  using assms by (auto simp: build_request_def buildMacTicket_def Let_def split: sum.split)

lemma can_sign_attempts [simp]: "can_sign mk (c\<lparr>attempts := x\<rparr>) = can_sign mk c"
  using build_request_cong [of "c\<lparr>attempts := x\<rparr>" c] by (simp add: can_sign_def fun_eq_iff)

lemma frames_to_simps [simp]:
  "frames_to sids i [] = []" "frames_to sids i ((st, r) # fs) = (if sids st = Some i then [r] else []) @ frames_to sids i fs"
  by (simp_all add: frames_to_def)

lemma empty_buf: "ch_buf q = [] \<Longrightarrow> q\<lparr>ch_buf := []\<rparr> = q"
  by (cases q) simp

text \<open>From the caller to the server's stream.\<close>

lemma send_hop:
  assumes ready: "sender_ready mk env topic a sa i n" and sign: "can_sign mk (nt_client n a) p" and "p \<noteq> []" and "topic \<noteq> []"
  obtains req att where "rq_topic req = topic" "rq_payload req = p" "rq_type req = PUBLISH" "rq_sender req = cl_senderID (nt_client n a)"
    and "\<And>k. verifyRequestMAC env k req (nt_server n) = (True, nt_server n)"
    and "net_step mk env (net_step mk env n (NClient a (CSend True p))) (NClient a (CPump sa False True))
      = n\<lparr>nt_client := (nt_client n)(a := (nt_client n a)\<lparr>attempts := att\<rparr>), nt_up := (nt_up n)(i := [req])\<rparr>"
proof -
  let ?c = "nt_client n a"
  have c: "cl_topic ?c = topic" "\<not> cl_closed ?c" "\<not> cl_cancelled ?c" "ch_buf (cl_sendQ ?c) = []" "\<not> ch_closed (cl_sendQ ?c)"
    "0 < ch_cap (cl_sendQ ?c)" "cl_pumps ?c sa = Pumping" "token_valid mk env (srv_key (nt_server n)) (cl_ticket ?c)"
    "nt_sid n a sa = Some i" "nt_up n i = []"
    using ready by (simp_all add: sender_ready_def Let_def)
  obtain req where req: "build_request mk ?c PUBLISH topic p (cl_ticket ?c) = Inr req"
    using sign c(1) by (auto simp: can_sign_def)
  have fields: "rq_topic req = topic" "rq_payload req = p" "rq_type req = PUBLISH" "rq_sender req = cl_senderID ?c"
    using req by (auto simp: build_request_def split: sum.splits)
  let ?q = "cl_sendQ ?c" let ?c1 = "?c\<lparr>cl_sendQ := ?q\<lparr>ch_buf := [req]\<rparr>\<rparr>" let ?req = "fill_request ?c1 req"
  let ?att = "attempts ?c @ [(sa, ?req)]"
  have send: "client_step mk ?c (CSend True p) = ?c1"
    using c assms(3) req by (simp add: Send_def enqueue_def enqueue_select_def try_send_def Let_def)
  have pump: "client_step mk ?c1 (CPump sa False True) = ?c\<lparr>attempts := ?att\<rparr>"
    using c by (simp add: pump_step_def recv_def Let_def empty_buf)
  let ?n1 = "n\<lparr>nt_client := (nt_client n)(a := ?c1)\<rparr>"
  have n1: "net_step mk env n (NClient a (CSend True p)) = ?n1"
    using send by (simp add: net_step_def reads_def client_acts_def Let_def)
  have "net_step mk env ?n1 (NClient a (CPump sa False True))
      = n\<lparr>nt_client := (nt_client n)(a := ?c\<lparr>attempts := ?att\<rparr>), nt_up := (nt_up n)(i := [?req])\<rparr>"
    using pump c(9,10) by (auto simp: net_step_def reads_def client_acts_def Let_def fun_eq_iff)
  then have "net_step mk env (net_step mk env n (NClient a (CSend True p))) (NClient a (CPump sa False True))
      = n\<lparr>nt_client := (nt_client n)(a := ?c\<lparr>attempts := ?att\<rparr>), nt_up := (nt_up n)(i := [?req])\<rparr>"
    by (simp only: n1)
  moreover have fill: "?req = req\<lparr>rq_sender := rq_sender ?req\<rparr>" by (rule fill_request_topic) (simp add: fields assms(4))
  have "verifyRequestMAC env k ?req (nt_server n) = (True, nt_server n)" for k
    using built_request_verifies [of mk env "nt_server n" "cl_ticket ?c" ?c, OF _ req] c(8)
    by (subst fill) (simp add: verify_ignores_sender)
  moreover have "rq_topic ?req = topic" "rq_payload ?req = p" "rq_type ?req = PUBLISH"
    by (subst fill, simp add: fields)+
  moreover have "rq_sender ?req = cl_senderID ?c" by (simp add: fill_request_def fields(4) Let_def)
  ultimately show ?thesis using that by blast
qed

text \<open>Through the server: the publish puts the EVENT into the subscriber's empty queue, the writer takes it out again.\<close>

lemma enqueue_empty:
  assumes "ch_buf (sendQ ss) = []" "\<not> ch_closed (sendQ ss)" "0 < ch_cap (sendQ ss)"
  shows "enqueue_session r ss = ss\<lparr>sendQ := (sendQ ss)\<lparr>ch_buf := [r]\<rparr>\<rparr>"
  using assms by (simp add: enqueue_session_def try_send_def)

lemma publish_and_write:
  assumes "server_ok s" "map_order_ok env" and req: "rq_topic req = topic" "rq_payload req = p" "rq_type req = PUBLISH"
    and ne: "topic \<noteq> []" "p \<noteq> []" and v: "verifyRequestMAC env i req s = (True, s)"
    and i: "i < next_sid s" "tunnel_up (sessions s i)" "i \<noteq> j"
    and j: "j < next_sid s" "subscribed s topic j" "writer_up (sessions s j)" "\<not> replaying (sessions s j)"
      "ch_buf (sendQ (sessions s j)) = []" "\<not> ch_closed (sendQ (sessions s j))" "0 < ch_cap (sendQ (sessions s j))"
    and s1: "s1 = relay_step env s (Recv i req)" and s2: "s2 = relay_step env s1 (Write j True)"
  shows "taken (fst (recv (sendQ (sessions s1 j)))) = [event_response topic p]"
    and "next_sid s1 = next_sid s" "writer_up (sessions s1 j)"
    and "server_ok s2" "clients s2 = clients s" "next_sid s2 = next_sid s" "srv_key s2 = srv_key s" "sessions s2 j = sessions s j"
      "tunnel_up (sessions s2 i)"
proof -
  have topic: "clients s topic \<noteq> None" using j(2) by (auto simp: subscribed_def split: option.splits)
  have pub: "s1 = handlePublish env i req s" by (simp add: s1 i tunnel_recv_def v req)
  have sess: "sessions s1 k = (if subscribed s topic k \<and> k \<noteq> i \<and> \<not> replaying (sessions s k)
      then enqueue_session (event_response topic p) (sessions s k) else sessions s k)" for k
    unfolding pub by (rule publish_sessions [OF assms(1,2) req(1,2) ne topic])
  have frame: "clients s1 = clients s" "next_sid s1 = next_sid s" "srv_key s1 = srv_key s"
    unfolding pub by (simp_all add: handlePublish_live [OF req(1,2) ne topic])
  have j1: "sessions s1 j = (sessions s j)\<lparr>sendQ := (sendQ (sessions s j))\<lparr>ch_buf := [event_response topic p]\<rparr>\<rparr>"
    using sess [of j] j i(3) by (simp add: enqueue_empty)
  show "taken (fst (recv (sendQ (sessions s1 j)))) = [event_response topic p]" "next_sid s1 = next_sid s" "writer_up (sessions s1 j)"
    using j(3) frame by (simp_all add: j1 recv_def)
  have s2': "s2 = upd_session j (\<lambda>ss. ss\<lparr>sendQ := sendQ (sessions s j)\<rparr>) s1"
    using j frame by (simp add: s2 j1 writer_step_def recv_def empty_buf)
  show "server_ok s2" unfolding s2 s1 by (intro relay_step_ok assms(1))
  show "clients s2 = clients s" "next_sid s2 = next_sid s" "srv_key s2 = srv_key s" "sessions s2 j = sessions s j"
    using frame by (simp_all add: s2' j1)
  show "tunnel_up (sessions s2 i)" using i by (simp add: s2' sess)
qed

lemma subscribed_cong: "clients s' = clients s \<Longrightarrow> subscribed s' = subscribed s"
  by (simp add: subscribed_def [abs_def])

lemma write_down [simp]: "writes_response s (Recv i req) = (\<lambda>_. [])"
  by (simp add: fun_eq_iff)

text \<open>To the subscriber's handler.\<close>

lemma deliver_hop:
  assumes rdy: "receiver_ready topic b sb j n" and srv: "server_ok (nt_server n)" "map_order_ok env"
    and req: "rq_topic req = topic" "rq_payload req = p" "rq_type req = PUBLISH" and ne: "topic \<noteq> []" "p \<noteq> []"
    and v: "verifyRequestMAC env i req (nt_server n) = (True, nt_server n)"
    and i: "i < next_sid (nt_server n)" "tunnel_up (sessions (nt_server n) i)" "i \<noteq> j" and up: "nt_up n i = [req]"
  obtains s2 acc where
    "foldl (net_step mk env) n [NArrive i, NServer (Write j True), NRead b sb]
      = n\<lparr>nt_server := s2, nt_up := (nt_up n)(i := []), nt_accepted := acc,
          nt_client := (nt_client n)(b := (nt_client n b)\<lparr>received := received (nt_client n b) @ [p]\<rparr>)\<rparr>"
    "server_ok s2" "clients s2 = clients (nt_server n)" "next_sid s2 = next_sid (nt_server n)" "srv_key s2 = srv_key (nt_server n)"
    "sessions s2 j = sessions (nt_server n) j" "tunnel_up (sessions s2 i)"
proof -
  let ?s = "nt_server n"
  obtain idx where b: "cl_loop (nt_client n b) = Reading idx sb" "cl_handler (nt_client n b)" "nt_sid n b sb = Some j" "nt_down n j = []"
    and j: "j < next_sid ?s" "subscribed ?s topic j" "writer_up (sessions ?s j)" "\<not> replaying (sessions ?s j)"
      "ch_buf (sendQ (sessions ?s j)) = []" "\<not> ch_closed (sendQ (sessions ?s j))" "0 < ch_cap (sendQ (sessions ?s j))"
    using rdy by (auto simp: receiver_ready_def Let_def)
  define s1 where "s1 = relay_step env ?s (Recv i req)"
  define s2 where "s2 = relay_step env s1 (Write j True)"
  note pw = publish_and_write [OF srv req ne v i j s1_def s2_def]
  define acc where "acc = nt_accepted n @ accepts_request env ?s (Recv i req)"
  let ?n3 = "n\<lparr>nt_server := s1, nt_up := (nt_up n)(i := []), nt_accepted := acc\<rparr>"
  have n3: "net_step mk env n (NArrive i) = ?n3"
    by (simp add: net_step_def up server_event_def s1_def acc_def)
  have w: "writes_response s1 (Write j True) = (\<lambda>k. if k = j then [event_response topic p] else [])"
    using pw(1,2,3) j(1) by (simp add: fun_eq_iff)
  let ?n4 = "?n3\<lparr>nt_server := s2, nt_down := (nt_down n)(j := [event_response topic p])\<rparr>"
  have n4: "net_step mk env ?n3 (NServer (Write j True)) = ?n4"
    using b(4) by (simp add: net_step_def server_event_def w s2_def accepts_request_def) (simp add: fun_eq_iff)
  have down: "(nt_down n)(j := []) = nt_down n" using b(4) by (auto simp: fun_eq_iff)
  have loop: "loop_step mk (RecvResult (Inl (Some (event_response topic p)))) (nt_client n b)
      = (nt_client n b)\<lparr>received := received (nt_client n b) @ [p]\<rparr>"
    using b by (simp add: loop_step.simps event_response_def)
  have "net_step mk env ?n4 (NRead b sb)
      = n\<lparr>nt_server := s2, nt_up := (nt_up n)(i := []), nt_accepted := acc,
          nt_client := (nt_client n)(b := (nt_client n b)\<lparr>received := received (nt_client n b) @ [p]\<rparr>)\<rparr>"
    using b by (simp add: net_step_def read_event_def loop down)
  then show ?thesis using that [where ?s2.0 = s2 and acc = acc] pw(4-9) by (simp add: n3 n4)
qed

lemma one_round:
  assumes "link_ready mk env topic a sa i b sb j n" and "can_sign mk (nt_client n a) p" and "p \<noteq> []"
    and "n' = foldl (net_step mk env) n (one_payload a sa i b sb j p)"
  shows "link_ready mk env topic a sa i b sb j n'"
    and "received (nt_client n' b) = received (nt_client n b) @ [p]"
    and "can_sign mk (nt_client n' a) = can_sign mk (nt_client n a)"
    and "c \<noteq> b \<Longrightarrow> received (nt_client n' c) = received (nt_client n c)"
proof -
  have rdy: "topic \<noteq> []" "a \<noteq> b" "i \<noteq> j" "server_ok (nt_server n)" "map_order_ok env" "sender_ready mk env topic a sa i n"
    "receiver_ready topic b sb j n" using assms(1) by (simp_all add: link_ready_def)
  obtain req att where req: "rq_topic req = topic" "rq_payload req = p" "rq_type req = PUBLISH"
    and v: "\<And>k. verifyRequestMAC env k req (nt_server n) = (True, nt_server n)"
    and n2: "net_step mk env (net_step mk env n (NClient a (CSend True p))) (NClient a (CPump sa False True))
      = n\<lparr>nt_client := (nt_client n)(a := (nt_client n a)\<lparr>attempts := att\<rparr>), nt_up := (nt_up n)(i := [req])\<rparr>"
    using send_hop [OF rdy(6) assms(2,3) rdy(1)] by blast
  let ?n2 = "n\<lparr>nt_client := (nt_client n)(a := (nt_client n a)\<lparr>attempts := att\<rparr>), nt_up := (nt_up n)(i := [req])\<rparr>"
  have i: "i < next_sid (nt_server ?n2)" "tunnel_up (sessions (nt_server ?n2) i)" "nt_up n i = []"
    using rdy(6) by (simp_all add: sender_ready_def Let_def)
  have rcv: "receiver_ready topic b sb j ?n2" using rdy(2,7) by (simp add: receiver_ready_def)
  have srv: "server_ok (nt_server ?n2)" "verifyRequestMAC env i req (nt_server ?n2) = (True, nt_server ?n2)" "nt_up ?n2 i = [req]"
    using rdy(4) v [of i] by simp_all
  obtain s2 acc where s2: "foldl (net_step mk env) ?n2 [NArrive i, NServer (Write j True), NRead b sb]
      = ?n2\<lparr>nt_server := s2, nt_up := (nt_up ?n2)(i := []), nt_accepted := acc,
          nt_client := (nt_client ?n2)(b := (nt_client ?n2 b)\<lparr>received := received (nt_client ?n2 b) @ [p]\<rparr>)\<rparr>"
    "server_ok s2" "clients s2 = clients (nt_server n)" "next_sid s2 = next_sid (nt_server n)" "srv_key s2 = srv_key (nt_server n)"
    "sessions s2 j = sessions (nt_server n) j" "tunnel_up (sessions s2 i)"
    by (rule deliver_hop [OF rcv srv(1) rdy(5) req rdy(1) assms(3) srv(2) i(1,2) rdy(3) srv(3), where mk = mk]) simp_all
  have n': "n' = ?n2\<lparr>nt_server := s2, nt_up := (nt_up ?n2)(i := []), nt_accepted := acc,
          nt_client := (nt_client ?n2)(b := (nt_client ?n2 b)\<lparr>received := received (nt_client ?n2 b) @ [p]\<rparr>)\<rparr>"
    unfolding assms(4) one_payload_def using s2(1) by (simp only: foldl.simps n2)
  show "link_ready mk env topic a sa i b sb j n'"
    using rdy s2(2-7) subscribed_cong [OF s2(3)]
    by (simp add: n' link_ready_def sender_ready_def receiver_ready_def Let_def token_valid_def)
  show "received (nt_client n' b) = received (nt_client n b) @ [p]" "c \<noteq> b \<Longrightarrow> received (nt_client n' c) = received (nt_client n c)"
    using rdy(2) by (simp_all add: n')
  show "can_sign mk (nt_client n' a) = can_sign mk (nt_client n a)"
    using rdy(2) by (simp add: n')
qed

lemma rounds:
  assumes "link_ready mk env topic a sa i b sb j n" and "\<forall>p \<in> set ps. p \<noteq> [] \<and> can_sign mk (nt_client n a) p"
    and "n' = foldl (net_step mk env) n (concat (map (one_payload a sa i b sb j) ps))"
  shows "received (nt_client n' b) = received (nt_client n b) @ ps"
    and "c \<noteq> b \<Longrightarrow> received (nt_client n' c) = received (nt_client n c)"
proof -
  have "received (nt_client n' b) = received (nt_client n b) @ ps \<and> (c \<noteq> b \<longrightarrow> received (nt_client n' c) = received (nt_client n c))"
    using assms
  proof (induction ps arbitrary: n)
    case (Cons p ps)
    let ?m = "foldl (net_step mk env) n (one_payload a sa i b sb j p)"
    have p: "can_sign mk (nt_client n a) p" "p \<noteq> []" using Cons.prems(2) by simp_all
    note r = one_round [OF Cons.prems(1) p refl]
    have "\<forall>p \<in> set ps. p \<noteq> [] \<and> can_sign mk (nt_client ?m a) p" using Cons.prems(2) by (simp add: r(3))
    from Cons.IH [OF r(1) this] show ?case using r(2,4) Cons.prems(3) by simp
  qed simp
  then show "received (nt_client n' b) = received (nt_client n b) @ ps"
    and "c \<noteq> b \<Longrightarrow> received (nt_client n' c) = received (nt_client n c)" by simp_all
qed

section \<open>How a client gets connected\<close>

text \<open>A new session starts, dials and subscribes, and the server's stream \<open>i\<close> receives the SUBSCRIBE.\<close>

definition connecting :: "nat \<Rightarrow> sid \<Rightarrow> net_event list" where
  "connecting c i = [NClient c CStart, NClient c (CLoop (DialResult None)), NClient c (CLoop (SubscribeSent None)), NArrive i]"

definition connected_client :: "client_session \<Rightarrow> relay_request \<Rightarrow> client_session" where
  "connected_client c sub = c\<lparr>cl_handler := True, cl_loop := Reading 0 0, cl_stream := Some 0, cl_next := 1,
     cl_pumps := (cl_pumps c)(0 := Pumping), attempts := [(0, sub)]\<rparr>"

lemma dial_hop:
  assumes c: "nt_client n c = NewSession topic ticket u" and sub: "build_request mk (NewSession topic ticket u) SUBSCRIBE topic [] ticket = Inr sub"
    and up: "nt_up n i = []" and i: "i = next_sid (nt_server n)"
  shows "foldl (net_step mk env) n [NClient c CStart, NClient c (CLoop (DialResult None)), NClient c (CLoop (SubscribeSent None))]
    = n\<lparr>nt_server := open_tunnel (nt_server n), nt_client := (nt_client n)(c := connected_client (NewSession topic ticket u) sub),
        nt_sid := (nt_sid n)(c := (nt_sid n c)(0 := Some i)), nt_up := (nt_up n)(i := [sub])\<rparr>"
proof -
  let ?c = "NewSession topic ticket u"
  let ?c1 = "?c\<lparr>cl_handler := True, cl_loop := Dialing 0\<rparr>"
  let ?c2 = "?c1\<lparr>cl_stream := Some 0, cl_next := 1, cl_loop := Subscribing 0 0\<rparr>"
  have f: "cl_loop ?c = NotStarted" "cl_next ?c = 0" "attempts ?c = []" "\<not> cl_closed ?c" "\<not> cl_cancelled ?c" "cl_topic ?c = topic"
    "cl_ticket ?c = ticket"
    by (simp_all add: NewSession_def)
  have s1: "client_step mk ?c CStart = ?c1" using f by (simp add: Start_def)
  have s2: "client_step mk ?c1 (CLoop (DialResult None)) = ?c2" using f by (simp add: loop_step.simps)
  have b2: "build_request mk ?c2 SUBSCRIBE topic [] ticket = Inr sub"
    using sub build_request_cong [of ?c2 ?c] by (simp add: NewSession_def)
  have s3: "client_step mk ?c2 (CLoop (SubscribeSent None)) = connected_client ?c sub"
    using f b2 by (simp add: loop_step.simps connected_client_def)
  let ?n1 = "n\<lparr>nt_client := (nt_client n)(c := ?c1)\<rparr>"
  let ?n2 = "n\<lparr>nt_server := open_tunnel (nt_server n), nt_client := (nt_client n)(c := ?c2),
    nt_sid := (nt_sid n)(c := (nt_sid n c)(0 := Some i))\<rparr>"
  have "net_step mk env n (NClient c CStart) = ?n1"
    using c s1 by (simp add: net_step_def reads_def client_acts_def Let_def)
  moreover have "net_step mk env ?n1 (NClient c (CLoop (DialResult None))) = ?n2"
    using s2 f i by (simp add: net_step_def reads_def client_acts_def server_event_def accepts_request_def Let_def)
  moreover have "net_step mk env ?n2 (NClient c (CLoop (SubscribeSent None)))
      = ?n2\<lparr>nt_client := (nt_client n)(c := connected_client ?c sub), nt_up := (nt_up n)(i := [sub])\<rparr>"
    using s3 f up by (auto simp: net_step_def reads_def client_acts_def connected_client_def Let_def fun_eq_iff)
  ultimately show ?thesis by simp
qed

lemma next_sid_fetchD: "fetch_history t s = (h, s') \<Longrightarrow> next_sid s' = next_sid s"
  using next_sid_fetch [of t s] by simp

lemma next_sid_subscribe: "rq_payload req = [] \<Longrightarrow> next_sid (handleSubscribe env i req s) = next_sid s"
  by (auto simp: handleSubscribe_def Let_def dest!: next_sid_fetchD split: prod.split)

text \<open>The server's end of a stream that has just subscribed, with the history that it is replayed in its queue.\<close>

definition joined :: "string \<Rightarrow> relay_response list \<Rightarrow> session" where
  "joined topic rs = new_session\<lparr>activeTopic := topic, sendQ := (sendQ new_session)\<lparr>ch_buf := rs\<rparr>\<rparr>"

lemma joined_Nil: "joined topic [] = new_session\<lparr>activeTopic := topic\<rparr>"
  by (simp add: joined_def new_session_def make_chan_def)

lemma accept_hop:
  assumes s: "server_ok s" "store_ok ks (store s)" and topic: "topic \<noteq> []"
    and rs: "rs = replayed (rq_sender sub) topic (topic_history ks (store s) topic)" "length rs \<le> 128"
    and sub: "rq_topic sub = topic" "rq_type sub = SUBSCRIBE" "rq_payload sub = []"
    and v: "verifyRequestMAC env (next_sid s) sub (open_tunnel s) = (True, open_tunnel s)"
    and s': "s' = relay_step env (open_tunnel s) (Recv (next_sid s) sub)"
  shows "sessions s' = (sessions s)(next_sid s := joined topic rs)" "server_ok s'" "store_ok ks (store s')"
    "topic_history ks (store s') = topic_history ks (store s)" "next_sid s' = Suc (next_sid s)" "srv_key s' = srv_key s"
proof -
  let ?i = "next_sid s" let ?o = "open_tunnel s"
  have o: "store ?o = store s" "sessions ?o = (sessions s)(?i := new_session)" "next_sid ?o = Suc ?i" "srv_key ?o = srv_key s"
    by (simp_all add: open_tunnel_def)
  have up: "tunnel_up new_session" by (simp add: new_session_def)
  have eq: "s' = handleSubscribe env ?i sub ?o" by (simp add: s' o up tunnel_recv_def v sub)
  have "store_ok ks (store ?o)" by (simp add: o s)
  note eff = handleSubscribe_effect [OF this sub(1) topic sub(3), of env ?i]
  have "fold enqueue_session rs (new_session\<lparr>activeTopic := topic, replaying := True\<rparr>)
      = new_session\<lparr>activeTopic := topic, replaying := True, sendQ := (sendQ new_session)\<lparr>ch_buf := rs\<rparr>\<rparr>"
    using rs(2) by (subst enqueue_all) (simp_all add: new_session_def make_chan_def)
  then show "sessions s' = (sessions s)(?i := joined topic rs)"
    using eff(1) by (simp add: eq o joined_def new_session_def rs(1) [symmetric])
  show "store_ok ks (store s')" "topic_history ks (store s') = topic_history ks (store s)" using eff(3,4) by (simp_all add: eq o)
  show "server_ok s'" unfolding s' by (intro relay_step_ok open_tunnel_ok s)
  show "next_sid s' = Suc ?i" "srv_key s' = srv_key s" by (simp_all add: eq next_sid_subscribe sub o)
qed

text \<open>A client that connects is replayed the history of its topic.\<close>

lemma connect_hop:
  assumes c: "nt_client n c = NewSession topic ticket u" and topic: "topic \<noteq> []"
    and sub: "build_request mk (NewSession topic ticket u) SUBSCRIBE topic [] ticket = Inr sub"
    and tok: "token_valid mk env (srv_key (nt_server n)) ticket"
    and s: "server_ok (nt_server n)" "store_ok ks (store (nt_server n))"
    and rs: "rs = replayed u topic (topic_history ks (store (nt_server n)) topic)" "length rs \<le> 128"
    and up: "nt_up n i = []" and i: "i = next_sid (nt_server n)"
  obtains s' acc where "foldl (net_step mk env) n (connecting c i)
      = n\<lparr>nt_server := s', nt_client := (nt_client n)(c := connected_client (NewSession topic ticket u) sub),
          nt_sid := (nt_sid n)(c := (nt_sid n c)(0 := Some i)), nt_accepted := acc\<rparr>"
    and "sessions s' = (sessions (nt_server n))(i := joined topic rs)" "server_ok s'" "store_ok ks (store s')"
    "topic_history ks (store s') = topic_history ks (store (nt_server n))" "next_sid s' = Suc i" "srv_key s' = srv_key (nt_server n)"
proof -
  let ?s = "nt_server n"
  have f: "rq_topic sub = topic" "rq_type sub = SUBSCRIBE" "rq_payload sub = []" and u: "rq_sender sub = u"
    using sub by (auto simp: build_request_def NewSession_def split: sum.splits)
  have v: "verifyRequestMAC env (next_sid ?s) sub (open_tunnel ?s) = (True, open_tunnel ?s)"
    by (rule built_request_verifies [OF _ sub]) (use tok in \<open>auto simp: open_tunnel_def NewSession_def\<close>)
  define s' where "s' = relay_step env (open_tunnel ?s) (Recv (next_sid ?s) sub)"
  have r: "rs = replayed (rq_sender sub) topic (topic_history ks (store ?s) topic)" using rs(1) by (simp add: u)
  note h = accept_hop [OF s topic r rs(2) f v s'_def]
  have upe: "(nt_up n)(i := []) = nt_up n" using up by (auto simp: fun_eq_iff)
  have "foldl (net_step mk env) n (connecting c i)
      = n\<lparr>nt_server := s', nt_client := (nt_client n)(c := connected_client (NewSession topic ticket u) sub),
          nt_sid := (nt_sid n)(c := (nt_sid n c)(0 := Some i)),
          nt_accepted := nt_accepted n @ accepts_request env (open_tunnel ?s) (Recv i sub)\<rparr>"
    using dial_hop [OF c sub up i, of env]
    by (simp add: connecting_def net_step_def server_event_def s'_def i [symmetric] upe)
  then show ?thesis using that h i by simp
qed

definition can_subscribe :: "(bytes \<Rightarrow> bytes \<Rightarrow> bytes result) \<Rightarrow> client_session \<Rightarrow> bool" where
  "can_subscribe mk c \<longleftrightarrow> (\<exists>req. build_request mk c SUBSCRIBE (cl_topic c) [] (cl_ticket c) = Inr req)"

lemma new_session_fields [simp]:
  "cl_topic (NewSession t k u) = t" "cl_ticket (NewSession t k u) = k" "cl_senderID (NewSession t k u) = u"
  "received (NewSession t k u) = []" "cl_sendQ (NewSession t k u) = make_chan 256" "\<not> cl_closed (NewSession t k u)"
  "\<not> cl_cancelled (NewSession t k u)"
  by (simp_all add: NewSession_def)

lemma connected_fields [simp]:
  "cl_topic (connected_client c r) = cl_topic c" "cl_ticket (connected_client c r) = cl_ticket c"
  "received (connected_client c r) = received c" "cl_sendQ (connected_client c r) = cl_sendQ c"
  "cl_closed (connected_client c r) = cl_closed c" "cl_cancelled (connected_client c r) = cl_cancelled c"
  "cl_loop (connected_client c r) = Reading 0 0" "cl_handler (connected_client c r)" "cl_pumps (connected_client c r) 0 = Pumping"
  "cl_senderID (connected_client c r) = cl_senderID c"
  by (simp_all add: connected_client_def)

lemma can_sign_connected [simp]: "can_sign mk (connected_client c r) = can_sign mk c"
  using build_request_cong [of "connected_client c r" c] by (simp add: can_sign_def fun_eq_iff)

text \<open>Two new clients of a server that has just started.\<close>

lemma link_up:
  assumes redis: "redis_reliable ks rdb" "\<And>r. ks (snd (rd_ping rdb r)) = ks r" "keys_of ks rdb = Map.empty"
      "NewServer key ttl rdb = Inr s0"
    and env: "map_order_ok env" and ends: "a \<noteq> b" "topic \<noteq> []" "cs a = NewSession topic ka ua" "cs b = NewSession topic kb ub"
    and tok: "token_valid mk env key ka" "token_valid mk env key kb" and subs: "can_subscribe mk (cs a)" "can_subscribe mk (cs b)"
    and n: "n = foldl (net_step mk env) (fresh_net s0 cs) (connecting a 0 @ connecting b 1)"
  shows "link_ready mk env topic a 0 0 b 0 1 n" "received (nt_client n b) = []" "received (nt_client n a) = []"
    "can_sign mk (nt_client n a) = can_sign mk (cs a)"
proof -
  note s0 = fresh_server [OF redis] and ok0 = started_ok [OF redis(4)]
  have sid0: "next_sid s0 = 0" using redis(4) by (auto simp: NewServer_def split: sum.splits)
  obtain ra rb where ra: "build_request mk (NewSession topic ka ua) SUBSCRIBE topic [] ka = Inr ra"
    and rb: "build_request mk (NewSession topic kb ub) SUBSCRIBE topic [] kb = Inr rb"
    using subs ends(3,4) by (auto simp: can_subscribe_def)
  let ?f = "fresh_net s0 cs"
  have f: "nt_client ?f = cs" "nt_server ?f = s0" "nt_up ?f = (\<lambda>_. [])" by (simp_all add: fresh_net_def)
  obtain s1 acc1 where n1: "foldl (net_step mk env) ?f (connecting a 0)
      = ?f\<lparr>nt_server := s1, nt_client := cs(a := connected_client (NewSession topic ka ua) ra),
          nt_sid := (nt_sid ?f)(a := (nt_sid ?f a)(0 := Some 0)), nt_accepted := acc1\<rparr>"
    and s1: "sessions s1 = (sessions s0)(0 := new_session\<lparr>activeTopic := topic\<rparr>)" "server_ok s1" "store_ok ks (store s1)"
      "topic_history ks (store s1) = topic_history ks (store s0)" "next_sid s1 = Suc 0" "srv_key s1 = key"
    by (rule connect_hop [of ?f a topic ka ua mk ra env ks "[]" 0]) (simp_all add: f ends ra tok(1) s0 ok0 sid0 replayed_def joined_Nil)
  let ?n1 = "?f\<lparr>nt_server := s1, nt_client := cs(a := connected_client (NewSession topic ka ua) ra),
          nt_sid := (nt_sid ?f)(a := (nt_sid ?f a)(0 := Some 0)), nt_accepted := acc1\<rparr>"
  obtain s2 acc2 where n2: "foldl (net_step mk env) ?n1 (connecting b 1)
      = ?n1\<lparr>nt_server := s2, nt_client := (nt_client ?n1)(b := connected_client (NewSession topic kb ub) rb),
          nt_sid := (nt_sid ?n1)(b := (nt_sid ?n1 b)(0 := Some 1)), nt_accepted := acc2\<rparr>"
    and s2: "sessions s2 = (sessions s1)(1 := new_session\<lparr>activeTopic := topic\<rparr>)" "server_ok s2" "next_sid s2 = Suc 1" "srv_key s2 = key"
    by (rule connect_hop [of ?n1 b topic kb ub mk rb env ks "[]" 1])
      (use ends in \<open>simp_all add: f rb tok(2) s0 s1 replayed_def joined_Nil\<close>)
  have n': "n = ?n1\<lparr>nt_server := s2, nt_client := (nt_client ?n1)(b := connected_client (NewSession topic kb ub) rb),
          nt_sid := (nt_sid ?n1)(b := (nt_sid ?n1 b)(0 := Some 1)), nt_accepted := acc2\<rparr>"
    using n n1 n2 by simp
  have sub: "subscribed s2 topic 1" using server_okD(1) [OF s2(2), of topic 1] ends(2) by (simp add: s2)
  show "link_ready mk env topic a 0 0 b 0 1 n"
    using ends env tok(1) s2(2-4) sub
    by (simp add: n' link_ready_def sender_ready_def receiver_ready_def Let_def s1(1) s2(1) fresh_net_def make_chan_def)
      (simp add: new_session_def make_chan_def)
  show "received (nt_client n b) = []" "received (nt_client n a) = []" "can_sign mk (nt_client n a) = can_sign mk (cs a)"
    using ends by (simp_all add: n')
qed

text \<open>Two clients that talk on a topic of a server over an empty in-memory Redis.\<close>

definition demo_ends :: "nat \<Rightarrow> client_session" where
  "demo_ends c = NewSession ''t'' (replicate 40 (CHR ''k'')) (if c = 0 then ''a'' else ''b'')"

definition demo_talk :: "bytes list \<Rightarrow> net_event list" where
  "demo_talk ps = connecting 0 0 @ connecting 1 1 @ concat (map (one_payload 0 0 0 1 0 1) ps)"

lemma demo_can: "can_subscribe demo_mk (demo_ends c)" "can_sign demo_mk (demo_ends c) p"
  by (simp_all add: can_subscribe_def can_sign_def demo_ends_def build_request_def buildMacTicket_def demo_mk_def macTokenPreimageLen_def)

lemma demo_end0: "demo_ends 0 = NewSession ''t'' (replicate 40 (CHR ''k'')) ''a''"
  and demo_end1: "demo_ends 1 = NewSession ''t'' (replicate 40 (CHR ''k'')) ''b''"
  by (simp_all add: demo_ends_def)

lemma demo_valid: "token_valid demo_mk demo_env key k"
  by (simp add: token_valid_def demo_mk_def demo_env_def macLen_def)

lemma demo_ping: "id (snd (rd_ping (mem_redis Map.empty) r)) = id r"
  by (simp add: mem_redis_def)

lemma demo_hears:
  assumes "NewServer ''k'' 20 (mem_redis Map.empty) = Inr s0"
    and "[] \<notin> set ps"
  shows "received (nt_client (foldl (net_step demo_mk demo_env) (fresh_net s0 demo_ends) (demo_talk ps)) 1) = ps"
proof -
  let ?m = "foldl (net_step demo_mk demo_env) (fresh_net s0 demo_ends) (connecting 0 0 @ connecting 1 1)"
  have ends: "(0::nat) \<noteq> 1" "''t'' \<noteq> []" by simp_all
  note up = link_up [OF mem_redis_reliable demo_ping keys_of_mem_redis assms(1) demo_env_ok ends demo_end0 demo_end1
      demo_valid demo_valid demo_can(1) demo_can(1) refl]
  have "\<forall>p \<in> set ps. p \<noteq> [] \<and> can_sign demo_mk (nt_client ?m 0) p" unfolding up(4) using assms(2) demo_can(2) by metis
  from rounds(1) [OF up(1) this refl] show ?thesis unfolding up(2) by (simp add: demo_talk_def)
qed

section \<open>From one end to the other\<close>

text \<open>
  C2. Nothing reaches the handler of a client that did not pass the server's MAC check: in every run of the server with its
  clients and with anybody else, who may send it arbitrary frames, every payload handed to a client's callback is the payload
  of a request that the server accepted earlier in the run and whose ticket verifies under the server's key.
\<close>

theorem only_authenticated_payloads:
  assumes "redis_reliable ks rdb" and "\<And>r. ks (snd (rd_ping rdb r)) = ks r" and "keys_of ks rdb = Map.empty"
    and "NewServer key ttl rdb = Inr s0" and "\<And>c. received (cs c) = []"
    and "n = foldl (net_step mk env) (fresh_net s0 cs) es" and "p \<in> set (received (nt_client n c))"
  shows "\<exists>req \<in> set (nt_accepted n). rq_payload req = p \<and> mac_verified env key req"
proof -
  note s0 = fresh_server [OF assms(1-4)]
  have "net_within ks (fresh_net s0 cs)"
    using s0 assms(5) by (simp add: net_within_def fresh_net_def server_within_def contents_def)
  then have "net_within ks n" unfolding assms(6) by (rule network.run_inv)
  then have "p \<in> rq_payload ` set (nt_accepted n)" using assms(7) unfolding net_within_def by blast
  moreover have "accepted_ok env key (fresh_net s0 cs)" using s0(3) by (simp add: accepted_ok_def fresh_net_def)
  then have "accepted_ok env key n" unfolding assms(6) by (rule accepting.run_inv)
  ultimately show ?thesis by (auto simp: accepted_ok_def)
qed

theorem only_authenticated_payloads_witness:
  "\<exists>s0 n. NewServer ''k'' 20 (mem_redis Map.empty) = Inr s0
    \<and> n = foldl (net_step demo_mk demo_env) (fresh_net s0 demo_ends) (demo_talk [''one'', ''two''])
    \<and> ''two'' \<in> set (received (nt_client n 1))
    \<and> (\<exists>req \<in> set (nt_accepted n). rq_payload req = ''two'' \<and> mac_verified demo_env ''k'' req)"
proof -
  obtain s0 where s0: "NewServer ''k'' 20 (mem_redis Map.empty) = Inr s0" using demo_start by blast
  define n where "n = foldl (net_step demo_mk demo_env) (fresh_net s0 demo_ends) (demo_talk [''one'', ''two''])"
  have got: "''two'' \<in> set (received (nt_client n 1))" unfolding n_def by (subst demo_hears [OF s0]) simp_all
  have "received (demo_ends c) = []" for c by (simp add: demo_ends_def)
  from only_authenticated_payloads [OF mem_redis_reliable demo_ping keys_of_mem_redis s0 this n_def got]
  show ?thesis using s0 n_def got by blast
qed



end
