(* ===== verification/LateSubscriber.thy ===== *)
theory LateSubscriber
  imports EndToEnd
begin

text \<open>
  The other way to meet: a client publishes while nobody listens, and the one that it talks to connects later. The server keeps
  the messages of the topic, replays them to the newcomer, and the newcomer's handler gets them.
\<close>

section \<open>Publishing into the history\<close>

text \<open>The last \<open>k\<close> of a list, which is what the store keeps.\<close>

definition latest :: "nat \<Rightarrow> 'a list \<Rightarrow> 'a list" where
  "latest k xs = drop (length xs - k) xs"

lemma latest_snoc: "0 < k \<Longrightarrow> latest k (latest k xs @ [x]) = latest k (xs @ [x])"
  by (cases "k \<le> length xs") (auto simp: latest_def Suc_diff_le)

lemma latest_map: "latest k (map f xs) = map f (latest k xs)"
  by (simp add: latest_def drop_map)

lemma latest_length [simp]: "length (latest k xs) = min k (length xs)"
  by (auto simp: latest_def)

lemma latest_all: "length xs \<le> k \<Longrightarrow> latest k xs = xs"
  by (simp add: latest_def)

text \<open>One payload from the caller to the server, and the message that is stored for it.\<close>

definition posting :: "nat \<Rightarrow> stream_id \<Rightarrow> sid \<Rightarrow> bytes \<Rightarrow> net_event list" where
  "posting a sa i p = [NClient a (CSend True p), NClient a (CPump sa False True), NArrive i]"

definition stored_as :: "string \<Rightarrow> string \<Rightarrow> bytes \<Rightarrow> storedMsg" where
  "stored_as topic u p = \<lparr>sm_topic = topic, sm_payload = p, sm_sender = u\<rparr>"

text \<open>Client \<open>a\<close> is connected on stream \<open>i\<close> and nobody else has subscribed.\<close>

definition alone ::
  "(bytes \<Rightarrow> bytes \<Rightarrow> bytes result) \<Rightarrow> relay_env \<Rightarrow> ('r \<Rightarrow> keyspace) \<Rightarrow> string \<Rightarrow> nat \<Rightarrow> stream_id \<Rightarrow> sid \<Rightarrow> 'r net \<Rightarrow> bool" where
  "alone mk env ks topic a sa i n \<longleftrightarrow> topic \<noteq> [] \<and> map_order_ok env \<and> server_ok (nt_server n) \<and> store_ok ks (store (nt_server n))
     \<and> sender_ready mk env topic a sa i n \<and> clients (nt_server n) topic \<noteq> None
     \<and> (\<forall>j. subscribed (nt_server n) topic j \<longrightarrow> j = i)"

lemma post_on_server:
  assumes s: "server_ok s" "store_ok ks (store s)" "map_order_ok env" "clients s topic \<noteq> None" "\<forall>j. subscribed s topic j \<longrightarrow> j = i"
    and req: "rq_topic req = topic" "rq_payload req = p" "rq_type req = PUBLISH" and ne: "topic \<noteq> []" "p \<noteq> []" "\<not> is_terminal env p"
    and v: "verifyRequestMAC env i req s = (True, s)" and i: "i < next_sid s" "tunnel_up (sessions s i)"
    and s': "s' = relay_step env s (Recv i req)"
  shows "sessions s' = sessions s" "clients s' = clients s" "next_sid s' = next_sid s" "srv_key s' = srv_key s"
    "server_ok s'" "store_ok ks (store s')"
    "topic_history ks (store s') topic = latest 100 (topic_history ks (store s) topic @ [stored_as topic (rq_sender req) p])"
proof -
  have pub: "s' = handlePublish env i req s" by (simp add: s' i tunnel_recv_def v req)
  have "sessions s' k = sessions s k" for k
    unfolding pub using publish_sessions [OF s(1,3) req(1,2) ne(1,2) s(4)] s(5) by auto
  then show "sessions s' = sessions s" by blast
  note live = handlePublish_live [OF req(1,2) ne(1,2) s(4)]
  show "clients s' = clients s" "next_sid s' = next_sid s" "srv_key s' = srv_key s" unfolding pub by (simp_all add: live)
  show "server_ok s'" unfolding s' by (rule relay_step_ok [OF s(1)])
  have st: "store s' = snd (StoreMessage (store s) topic p (rq_sender req))"
    by (simp add: pub live ne(3) publish_store_def)
  show "store_ok ks (store s')" using rstore.store_invar [OF s(2)] by (simp add: st)
  show "topic_history ks (store s') topic = latest 100 (topic_history ks (store s) topic @ [stored_as topic (rq_sender req) p])"
    by (simp add: st rstore.store_hist [OF s(2)] latest_def stored_as_def)
qed

lemma post_hop:
  assumes al: "alone mk env ks topic a sa i n" and p: "can_sign mk (nt_client n a) p" "p \<noteq> []" "\<not> is_terminal env p"
  obtains s' att acc where "foldl (net_step mk env) n (posting a sa i p)
      = n\<lparr>nt_server := s', nt_client := (nt_client n)(a := (nt_client n a)\<lparr>attempts := att\<rparr>), nt_accepted := acc\<rparr>"
    and "sessions s' = sessions (nt_server n)" "clients s' = clients (nt_server n)" "next_sid s' = next_sid (nt_server n)"
    "srv_key s' = srv_key (nt_server n)" "server_ok s'" "store_ok ks (store s')"
    "topic_history ks (store s') topic
      = latest 100 (topic_history ks (store (nt_server n)) topic @ [stored_as topic (cl_senderID (nt_client n a)) p])"
proof -
  have rdy: "topic \<noteq> []" "map_order_ok env" "server_ok (nt_server n)" "store_ok ks (store (nt_server n))"
    "sender_ready mk env topic a sa i n" "clients (nt_server n) topic \<noteq> None" "\<forall>j. subscribed (nt_server n) topic j \<longrightarrow> j = i"
    using al by (simp_all add: alone_def)
  obtain req att where req: "rq_topic req = topic" "rq_payload req = p" "rq_type req = PUBLISH"
    and u: "rq_sender req = cl_senderID (nt_client n a)"
    and v: "\<And>k. verifyRequestMAC env k req (nt_server n) = (True, nt_server n)"
    and n2: "net_step mk env (net_step mk env n (NClient a (CSend True p))) (NClient a (CPump sa False True))
      = n\<lparr>nt_client := (nt_client n)(a := (nt_client n a)\<lparr>attempts := att\<rparr>), nt_up := (nt_up n)(i := [req])\<rparr>"
    using send_hop [OF rdy(5) p(1,2) rdy(1)] by blast
  have i: "i < next_sid (nt_server n)" "tunnel_up (sessions (nt_server n) i)" "nt_up n i = []"
    using rdy(5) by (simp_all add: sender_ready_def Let_def)
  define s' where "s' = relay_step env (nt_server n) (Recv i req)"
  note post = post_on_server [OF rdy(3,4,2,6,7) req rdy(1) p(2,3) v i(1,2) s'_def]
  have up: "(nt_up n)(i := []) = nt_up n" using i(3) by (auto simp: fun_eq_iff)
  have "foldl (net_step mk env) n (posting a sa i p)
      = n\<lparr>nt_server := s', nt_client := (nt_client n)(a := (nt_client n a)\<lparr>attempts := att\<rparr>),
          nt_accepted := nt_accepted n @ accepts_request env (nt_server n) (Recv i req)\<rparr>"
    unfolding posting_def foldl.simps n2 by (simp add: net_step_def server_event_def s'_def up)
  then show ?thesis using that post u by simp
qed

text \<open>The server keeps the last hundred messages of what \<open>a\<close> posted; nothing else has changed.\<close>

lemma posts:
  assumes al: "alone mk env ks topic a sa i n" and empty: "topic_history ks (store (nt_server n)) topic = []"
    and ps: "\<forall>p \<in> set ps. p \<noteq> [] \<and> \<not> is_terminal env p \<and> can_sign mk (nt_client n a) p"
  obtains s' att acc where "foldl (net_step mk env) n (concat (map (posting a sa i) ps))
      = n\<lparr>nt_server := s', nt_client := (nt_client n)(a := (nt_client n a)\<lparr>attempts := att\<rparr>), nt_accepted := acc\<rparr>"
    and "sessions s' = sessions (nt_server n)" "clients s' = clients (nt_server n)" "next_sid s' = next_sid (nt_server n)"
    "srv_key s' = srv_key (nt_server n)" "server_ok s'" "store_ok ks (store s')"
    "topic_history ks (store s') topic = latest 100 (map (stored_as topic (cl_senderID (nt_client n a))) ps)"
  using ps
proof (induction ps arbitrary: thesis rule: rev_induct)
  case Nil
  have "n = n\<lparr>nt_server := nt_server n, nt_client := (nt_client n)(a := (nt_client n a)\<lparr>attempts := attempts (nt_client n a)\<rparr>),
      nt_accepted := nt_accepted n\<rparr>" by simp
  then show ?case using Nil(1) [where s' = "nt_server n" and att = "attempts (nt_client n a)" and acc = "nt_accepted n"] al empty by (simp add: alone_def latest_def)
next
  case (snoc p ps)
  have "\<forall>p \<in> set ps. p \<noteq> [] \<and> \<not> is_terminal env p \<and> can_sign mk (nt_client n a) p" using snoc.prems(2) by simp
  from snoc.IH [OF _ this] obtain s1 att acc where n1: "foldl (net_step mk env) n (concat (map (posting a sa i) ps))
      = n\<lparr>nt_server := s1, nt_client := (nt_client n)(a := (nt_client n a)\<lparr>attempts := att\<rparr>), nt_accepted := acc\<rparr>"
    and s1: "sessions s1 = sessions (nt_server n)" "clients s1 = clients (nt_server n)" "next_sid s1 = next_sid (nt_server n)"
      "srv_key s1 = srv_key (nt_server n)" "server_ok s1" "store_ok ks (store s1)"
      "topic_history ks (store s1) topic = latest 100 (map (stored_as topic (cl_senderID (nt_client n a))) ps)"
    by blast
  let ?n1 = "n\<lparr>nt_server := s1, nt_client := (nt_client n)(a := (nt_client n a)\<lparr>attempts := att\<rparr>), nt_accepted := acc\<rparr>"
  have al1: "alone mk env ks topic a sa i ?n1"
    using al s1 subscribed_cong [OF s1(2)] by (simp add: alone_def sender_ready_def Let_def)
  have p: "can_sign mk (nt_client ?n1 a) p" "p \<noteq> []" "\<not> is_terminal env p" using snoc.prems(2) by simp_all
  obtain s2 att2 acc2 where n2: "foldl (net_step mk env) ?n1 (posting a sa i p)
      = ?n1\<lparr>nt_server := s2, nt_client := (nt_client ?n1)(a := (nt_client ?n1 a)\<lparr>attempts := att2\<rparr>), nt_accepted := acc2\<rparr>"
    and s2: "sessions s2 = sessions s1" "clients s2 = clients s1" "next_sid s2 = next_sid s1" "srv_key s2 = srv_key s1" "server_ok s2"
      "store_ok ks (store s2)"
      "topic_history ks (store s2) topic = latest 100 (topic_history ks (store s1) topic @ [stored_as topic (cl_senderID (nt_client n a)) p])"
    by (rule post_hop [OF al1 p]) simp
  have h: "topic_history ks (store s2) topic = latest 100 (map (stored_as topic (cl_senderID (nt_client n a))) (ps @ [p]))"
    unfolding s2(7) s1(7) by (simp add: latest_snoc)
  have e: "foldl (net_step mk env) n (concat (map (posting a sa i) (ps @ [p])))
      = n\<lparr>nt_server := s2, nt_client := (nt_client n)(a := (nt_client n a)\<lparr>attempts := att2\<rparr>), nt_accepted := acc2\<rparr>"
    using n1 n2 by simp
  show ?case by (rule snoc.prems(1) [OF e _ _ _ _ _ _ h]) (use s1 s2 in simp_all)
qed

section \<open>Reading the replay\<close>

text \<open>The writer of stream \<open>j\<close> and the loop of its client \<open>b\<close>, \<open>k\<close> times.\<close>

definition draining :: "nat \<Rightarrow> stream_id \<Rightarrow> sid \<Rightarrow> nat \<Rightarrow> net_event list" where
  "draining b sb j k = concat (replicate k [NServer (Write j True), NRead b sb])"

definition reading_from :: "nat \<Rightarrow> stream_id \<Rightarrow> sid \<Rightarrow> relay_response list \<Rightarrow> 'r net \<Rightarrow> bool" where
  "reading_from b sb j rs n \<longleftrightarrow> (let c = nt_client n b; s = nt_server n in
     (\<exists>idx. cl_loop c = Reading idx sb) \<and> cl_handler c \<and> nt_sid n b sb = Some j \<and> nt_down n j = [] \<and> j < next_sid s
     \<and> writer_up (sessions s j) \<and> \<not> ch_closed (sendQ (sessions s j)) \<and> ch_buf (sendQ (sessions s j)) = rs)"

lemma drain_one:
  assumes rdy: "reading_from b sb j (event_response topic p # rs) n"
    and n': "n' = foldl (net_step mk env) n [NServer (Write j True), NRead b sb]"
  shows "reading_from b sb j rs n'" "received (nt_client n' b) = received (nt_client n b) @ [p]"
proof -
  let ?s = "nt_server n" let ?m = "event_response topic p"
  obtain idx where b: "cl_loop (nt_client n b) = Reading idx sb" "cl_handler (nt_client n b)" "nt_sid n b sb = Some j" "nt_down n j = []"
    and j: "j < next_sid ?s" "writer_up (sessions ?s j)" "\<not> ch_closed (sendQ (sessions ?s j))" "ch_buf (sendQ (sessions ?s j)) = ?m # rs"
    using rdy by (auto simp: reading_from_def Let_def)
  let ?s1 = "upd_session j (\<lambda>ss. ss\<lparr>sendQ := (sendQ (sessions ?s j))\<lparr>ch_buf := rs\<rparr>\<rparr>) ?s"
  let ?c = "(nt_client n b)\<lparr>received := received (nt_client n b) @ [p]\<rparr>"
  have w: "writes_response ?s (Write j True) = (\<lambda>k. if k = j then [?m] else [])"
    using j by (simp add: fun_eq_iff recv_def)
  have n1: "net_step mk env n (NServer (Write j True)) = n\<lparr>nt_server := ?s1, nt_down := (nt_down n)(j := [?m])\<rparr>"
    using b(4) j by (simp add: net_step_def server_event_def w accepts_request_def writer_step_def recv_def) (simp add: fun_eq_iff)
  have down: "(nt_down n)(j := []) = nt_down n" using b(4) by (auto simp: fun_eq_iff)
  have loop: "loop_step mk (RecvResult (Inl (Some ?m))) (nt_client n b) = ?c"
    using b by (simp add: loop_step.simps event_response_def)
  have eq: "n' = n\<lparr>nt_server := ?s1, nt_client := (nt_client n)(b := ?c)\<rparr>"
    unfolding n' foldl.simps n1 using b by (simp add: net_step_def read_event_def loop down)
  show "reading_from b sb j rs n'" "received (nt_client n' b) = received (nt_client n b) @ [p]"
    using b j by (simp_all add: eq reading_from_def)
qed

lemma drain_empty:
  assumes "reading_from b sb j [] n"
  shows "foldl (net_step mk env) n [NServer (Write j True), NRead b sb] = n"
proof -
  have w: "writes_response (nt_server n) (Write j True) = (\<lambda>_. [])"
    using assms by (simp add: fun_eq_iff reading_from_def Let_def recv_def)
  have "net_step mk env n (NServer (Write j True)) = n"
    using assms unfolding reading_from_def Let_def
    by (simp add: net_step_def server_event_def w accepts_request_def writer_step_def recv_def del: writes_response_simps)
  moreover have "net_step mk env n (NRead b sb) = n"
    using assms by (auto simp: reading_from_def Let_def net_step_def read_event_def)
  ultimately show ?thesis by simp
qed

lemma drain:
  assumes "reading_from b sb j (map (event_response topic) ps) n" and "length ps \<le> k"
    and "n' = foldl (net_step mk env) n (draining b sb j k)"
  shows "received (nt_client n' b) = received (nt_client n b) @ ps"
  using assms
proof (induction k arbitrary: n ps)
  case (Suc k)
  let ?m = "foldl (net_step mk env) n [NServer (Write j True), NRead b sb]"
  have n': "n' = foldl (net_step mk env) ?m (draining b sb j k)" using Suc.prems(3) by (simp add: draining_def)
  show ?case
  proof (cases ps)
    case Nil
    then have "?m = n" using Suc.prems(1) by (intro drain_empty) simp
    then show ?thesis using Suc.IH [of ps n] Suc.prems(1) n' Nil by simp
  next
    case (Cons p qs)
    then have "reading_from b sb j (event_response topic p # map (event_response topic) qs) n" using Suc.prems(1) by simp
    note d = drain_one [OF this refl]
    from Suc.IH [OF d(1) _ n'] show ?thesis using Suc.prems(2) Cons unfolding d(2) by simp
  qed
qed (simp add: draining_def)

section \<open>From one end to the other, later\<close>

text \<open>The network after the first client of a server that has just started has connected.\<close>

definition with_first ::
  "'r server \<Rightarrow> (nat \<Rightarrow> client_session) \<Rightarrow> nat \<Rightarrow> client_session \<Rightarrow> 'r server \<Rightarrow> relay_request list \<Rightarrow> 'r net" where
  "with_first s0 cs a c s1 acc = (fresh_net s0 cs)\<lparr>nt_server := s1, nt_client := cs(a := c),
     nt_sid := (\<lambda>_ _. None)(a := (\<lambda>_. None)(0 := Some 0)), nt_accepted := acc\<rparr>"

lemma with_first_fields [simp]:
  "nt_server (with_first s0 cs a c s1 acc) = s1" "nt_client (with_first s0 cs a c s1 acc) = cs(a := c)"
  "nt_sid (with_first s0 cs a c s1 acc) = (\<lambda>_ _. None)(a := (\<lambda>_. None)(0 := Some 0))"
  "nt_up (with_first s0 cs a c s1 acc) = (\<lambda>_. [])" "nt_down (with_first s0 cs a c s1 acc) = (\<lambda>_. [])"
  by (simp_all add: with_first_def fresh_net_def)

lemma first_client:
  assumes redis: "redis_reliable ks rdb" "\<And>r. ks (snd (rd_ping rdb r)) = ks r" "keys_of ks rdb = Map.empty"
      "NewServer key ttl rdb = Inr s0"
    and env: "map_order_ok env" and a: "topic \<noteq> []" "cs a = NewSession topic ka ua"
    and tok: "token_valid mk env key ka" and sub: "can_subscribe mk (cs a)"
  obtains s1 acc ra where
    "foldl (net_step mk env) (fresh_net s0 cs) (connecting a 0) = with_first s0 cs a (connected_client (cs a) ra) s1 acc"
    and "alone mk env ks topic a 0 0 (with_first s0 cs a (connected_client (cs a) ra) s1 acc)"
    and "topic_history ks (store s1) topic = []" "next_sid s1 = 1" "srv_key s1 = key"
proof -
  note s0 = fresh_server [OF redis] and ok0 = started_ok [OF redis(4)]
  have sid0: "next_sid s0 = 0" using redis(4) by (auto simp: NewServer_def split: sum.splits)
  obtain ra where ra: "build_request mk (NewSession topic ka ua) SUBSCRIBE topic [] ka = Inr ra"
    using sub a(2) by (auto simp: can_subscribe_def)
  let ?f = "fresh_net s0 cs"
  have f: "nt_client ?f = cs" "nt_server ?f = s0" "nt_up ?f = (\<lambda>_. [])" "nt_sid ?f = (\<lambda>_ _. None)" by (simp_all add: fresh_net_def)
  obtain s1 acc where n1: "foldl (net_step mk env) ?f (connecting a 0)
      = ?f\<lparr>nt_server := s1, nt_client := (nt_client ?f)(a := connected_client (NewSession topic ka ua) ra),
          nt_sid := (nt_sid ?f)(a := (nt_sid ?f a)(0 := Some 0)), nt_accepted := acc\<rparr>"
    and s1: "sessions s1 = (sessions (nt_server ?f))(0 := joined topic [])" "server_ok s1" "store_ok ks (store s1)"
      "topic_history ks (store s1) = topic_history ks (store (nt_server ?f))" "next_sid s1 = Suc 0" "srv_key s1 = srv_key (nt_server ?f)"
    by (rule connect_hop [of ?f a topic ka ua mk ra env ks "[]" 0]) (simp_all add: f a ra tok s0 ok0 sid0 replayed_def)
  have act: "activeTopic (sessions s1 j) = (if j = 0 then topic else [])" for j
    using server_okD(3) [OF ok0, of j] sid0 by (simp add: s1(1) f joined_def)
  have sub: "subscribed s1 topic j \<longleftrightarrow> j = 0" for j using server_okD(1) [OF s1(2), of topic j] a(1) by (simp add: act)
  have "clients s1 topic \<noteq> None" using sub [of 0] by (auto simp: subscribed_def split: option.splits)
  then have "alone mk env ks topic a 0 0 (with_first s0 cs a (connected_client (cs a) ra) s1 acc)"
    using env a tok s1 sub s0(3)
    by (simp add: alone_def sender_ready_def Let_def f) (simp add: joined_def new_session_def make_chan_def)
  then show ?thesis using that [where ?s1.0 = s1 and acc = acc and ra = ra] n1 s1(4-6) s0 by (simp add: f with_first_def a(2))
qed

lemma replayed_stored:
  "ub = [] \<or> ub \<noteq> ua \<Longrightarrow> replayed ub topic (map (stored_as topic ua) ps) = map (event_response topic) ps"
  by (induction ps) (auto simp: replayed_def stored_as_def)

text \<open>The second client connects to a server that keeps \<open>ps\<close>, with the replay in its queue.\<close>

lemma newcomer:
  assumes c: "nt_client n b = NewSession topic kb ub" "topic \<noteq> []" "nt_up n j = []" "nt_down n j = []" "j = next_sid (nt_server n)"
    and tok: "token_valid mk env (srv_key (nt_server n)) kb" and sub: "can_subscribe mk (nt_client n b)"
    and s: "server_ok (nt_server n)" "store_ok ks (store (nt_server n))"
    and h: "topic_history ks (store (nt_server n)) topic = map (stored_as topic ua) ps" "ub = [] \<or> ub \<noteq> ua" "length ps \<le> 128"
    and n': "n' = foldl (net_step mk env) n (connecting b j)"
  shows "reading_from b 0 j (map (event_response topic) ps) n'" "received (nt_client n' b) = []"
proof -
  obtain rb where rb: "build_request mk (NewSession topic kb ub) SUBSCRIBE topic [] kb = Inr rb"
    using sub c(1) by (auto simp: can_subscribe_def)
  let ?rs = "map (event_response topic) ps"
  have rs: "?rs = replayed ub topic (topic_history ks (store (nt_server n)) topic)" using h(1,2) by (simp add: replayed_stored)
  obtain s' acc where eq: "n' = n\<lparr>nt_server := s', nt_client := (nt_client n)(b := connected_client (NewSession topic kb ub) rb),
          nt_sid := (nt_sid n)(b := (nt_sid n b)(0 := Some j)), nt_accepted := acc\<rparr>"
    and s': "sessions s' = (sessions (nt_server n))(j := joined topic ?rs)" "next_sid s' = Suc j"
    unfolding n' by (rule connect_hop [OF c(1,2) rb tok s rs _ c(3,5)]) (use h(3) in simp_all)
  show "reading_from b 0 j ?rs n'" "received (nt_client n' b) = []"
    using c(4) s' by (simp_all add: eq reading_from_def joined_def new_session_def make_chan_def)
qed



end
